theory Spec2Isabelle
  imports Main "HOL-Library.Monad_Syntax"
begin

section \<open>Data model of kconfiglib.py\<close>

text \<open>
  The embedding follows \<^verbatim>\<open>kconfiglib.py\<close>. Python objects that the library links by
  reference (Symbol, Choice) are addressed by a handle: a symbol by its name (the key of
  \<^verbatim>\<open>Config.syms\<close>), a choice by its index in \<^verbatim>\<open>Config._choices\<close>. A raise of the Python code
  (KeyError, AttributeError, ValueError outside a try, RecursionError of an unbounded
  recursion) is the result \<open>None\<close>.
\<close>

subsection \<open>Types, expressions, symbols, choices\<close>

text \<open>The symbol types (\<^verbatim>\<open>BOOL, HEX, INT, STRING, TRISTATE, UNKNOWN = range(6)\<close>); \<open>INT_T\<close> is INT, a name Isabelle reserves.\<close>

datatype sym_type = BOOL | HEX | INT_T | STRING | TRISTATE | UNKNOWN

text \<open>The relation tags of expression tuples.\<close>

datatype relation = EQUAL | UNEQUAL | LESS | LESS_EQUAL | GREATER | GREATER_EQUAL

text \<open>
  An operand is what the tokenizer hands to the expression parser as a leaf: a Symbol
  object (by name) or a plain string (a constant symbol). \<open>NoOperand\<close> stands for any other
  Python object that \<^verbatim>\<open>_parse_factor\<close> can store as the right operand of a relation (a
  keyword token or \<^verbatim>\<open>None\<close> at the end of the feed); evaluating it raises AttributeError.
\<close>

datatype operand = SymRef string | Const string | NoOperand

text \<open>
  Expression tuples \<^verbatim>\<open>(_AND, e1, e2)\<close>, \<^verbatim>\<open>(_OR, e1, e2)\<close>, \<^verbatim>\<open>(_NOT, e)\<close>,
  \<^verbatim>\<open>(relation, op1, op2)\<close>, and bare operands. A missing expression (Python \<^verbatim>\<open>None\<close>) is
  \<open>None :: expr option\<close>.
\<close>

datatype expr =
    Leaf operand
  | AND expr expr
  | OR expr expr
  | NOT expr
  | REL relation operand operand

text \<open>A prompt is the pair \<^verbatim>\<open>(text, condition)\<close> of \<^verbatim>\<open>MenuNode.prompt\<close>.\<close>

type_synonym prompt = "string \<times> expr option"

text \<open>
  Class Symbol. \<open>nodes\<close> holds, for each menu node of the symbol, the node's
  \<^verbatim>\<open>prompt\<close> attribute (\<open>None\<close> for a node without prompt): the only attribute of a
  symbol's own nodes that the value engine reads. The memoisation slots
  (\<^verbatim>\<open>_cached_val\<close>, \<^verbatim>\<open>_cached_vis\<close>, \<^verbatim>\<open>_cached_assignable\<close>) are not part of the state:
  every query is modelled as computed afresh, which is what the code returns after its
  invalidation step.
\<close>

record symbol =
  stype :: sym_type
  defaults :: "(expr \<times> expr option) list"
  ranges :: "(operand \<times> operand \<times> expr option) list"
  rev_dep :: expr
  weak_rev_dep :: expr
  direct_deps :: expr
  user_value :: "string option"
  choice :: "nat option"
  env_var :: "string option"
  nodes :: "prompt option list"

text \<open>\<^verbatim>\<open>Symbol.__init__\<close>: the attributes of a freshly created symbol.\<close>

definition Symbol_init :: symbol where
  "Symbol_init = \<lparr> stype = UNKNOWN, defaults = [], ranges = [],
     rev_dep = Leaf (Const ''n''), weak_rev_dep = Leaf (Const ''n''),
     direct_deps = Leaf (Const ''n''), user_value = None, choice = None,
     env_var = None, nodes = [] \<rparr>"

text \<open>Class Choice; \<open>csyms\<close> and \<open>user_selection\<close> hold symbol names.\<close>

record choice_rec =
  ctype :: sym_type
  csyms :: "string list"
  cdefaults :: "(string \<times> expr option) list"
  is_optional :: bool
  cuser_value :: "string option"
  user_selection :: "string option"
  cnodes :: "prompt option list"

text \<open>The item of a menu node of the finalized tree.\<close>

datatype item = ISym string | IChoice nat | MENU | COMMENT

text \<open>
  A menu node of the finalized tree with the attributes \<^verbatim>\<open>_get_config_strings\<close> reads:
  item, prompt, dep, visibility, and the children (the \<^verbatim>\<open>list\<close>/\<^verbatim>\<open>next\<close> chain below it).
\<close>

datatype menunode = MenuNode item "prompt option" "expr option" "expr option" "menunode list"

text \<open>
  Class Config. \<open>top_list\<close> is the chain \<^verbatim>\<open>top_menu.list\<close>, \<open>top_prompt\<close> the text of
  \<^verbatim>\<open>top_menu.prompt\<close>. \<^verbatim>\<open>Config.modules\<close> is always the symbol named MODULES.
\<close>

record config =
  syms :: "string \<rightharpoonup> symbol"
  defined_syms :: "string list"
  choices :: "choice_rec list"
  config_prefix :: string
  srctree :: "string option"
  defconfig_list :: "string option"
  print_warnings :: bool
  print_undef_assign :: bool
  top_list :: "menunode list"
  top_prompt :: string

text \<open>
  Dereferencing a symbol handle. A name without entry in \<open>syms\<close> denotes the fresh
  Symbol object that \<^verbatim>\<open>_lookup_sym(name, for_eval=True)\<close> creates without registering it.
\<close>

definition the_sym :: "config \<Rightarrow> string \<Rightarrow> symbol" where
  "the_sym cfg name = (case syms cfg name of Some s \<Rightarrow> s | None \<Rightarrow> Symbol_init)"

definition the_choice :: "config \<Rightarrow> nat \<Rightarrow> choice_rec option" where
  "the_choice cfg i = (if i < length (choices cfg) then Some (choices cfg ! i) else None)"

subsection \<open>Tristate order\<close>

text \<open>\<^verbatim>\<open>_TRI_TO_INT\<close>; a lookup of another key raises KeyError.\<close>

definition TRI_TO_INT :: "string \<rightharpoonup> nat" where
  "TRI_TO_INT v = (if v = ''n'' then Some 0 else if v = ''m'' then Some 1
                   else if v = ''y'' then Some 2 else None)"

definition tri_less :: "string \<Rightarrow> string \<Rightarrow> bool option" where
  "tri_less v1 v2 = (case TRI_TO_INT v1 of None \<Rightarrow> None | Some a \<Rightarrow>
     (case TRI_TO_INT v2 of None \<Rightarrow> None | Some b \<Rightarrow> Some (a < b)))"

definition tri_greater :: "string \<Rightarrow> string \<Rightarrow> bool option" where
  "tri_greater v1 v2 = (case TRI_TO_INT v1 of None \<Rightarrow> None | Some a \<Rightarrow>
     (case TRI_TO_INT v2 of None \<Rightarrow> None | Some b \<Rightarrow> Some (a > b)))"

text \<open>The three tristate values, and their rank in the order n < m < y.\<close>

definition is_tri :: "string \<Rightarrow> bool" where
  "is_tri v = (v = ''n'' \<or> v = ''m'' \<or> v = ''y'')"

definition tri_rank :: "string \<Rightarrow> nat" where
  "tri_rank v = (if v = ''y'' then 2 else if v = ''m'' then 1 else 0)"

subsection \<open>Python built-ins used by the library\<close>

text \<open>
  Characters are bytes; the character classes are those of ASCII text.
  \<^verbatim>\<open>str.isspace\<close> (also the class \<^verbatim>\<open>\s\<close> and what \<^verbatim>\<open>strip\<close> removes): the codes 9 to 13,
  28 to 31 and 32.
\<close>

definition is_space :: "char \<Rightarrow> bool" where
  "is_space c = (let k = (of_char c :: nat) in (9 \<le> k \<and> k \<le> 13) \<or> (28 \<le> k \<and> k \<le> 32))"

definition is_digit :: "char \<Rightarrow> bool" where
  "is_digit c = (let k = (of_char c :: nat) in 48 \<le> k \<and> k \<le> 57)"

definition is_alpha :: "char \<Rightarrow> bool" where
  "is_alpha c = (let k = (of_char c :: nat) in (65 \<le> k \<and> k \<le> 90) \<or> (97 \<le> k \<and> k \<le> 122))"

text \<open>The regular-expression class \<^verbatim>\<open>\w\<close> and the class \<^verbatim>\<open>[A-Za-z0-9_]\<close>.\<close>

definition is_word :: "char \<Rightarrow> bool" where
  "is_word c = (is_alpha c \<or> is_digit c \<or> c = CHR ''_'')"

definition lstrip :: "string \<Rightarrow> string" where
  "lstrip s = dropWhile is_space s"

definition rstrip :: "string \<Rightarrow> string" where
  "rstrip s = rev (dropWhile is_space (rev s))"

definition strip :: "string \<Rightarrow> string" where
  "strip s = rstrip (lstrip s)"

text \<open>The value of a digit character in \<^verbatim>\<open>int(s, base)\<close>: 0 to 35, and 37 for any other character.\<close>

definition digit_value :: "char \<Rightarrow> nat" where
  "digit_value c = (let k = (of_char c :: nat) in
     if 48 \<le> k \<and> k \<le> 57 then k - 48
     else if 97 \<le> k \<and> k \<le> 122 then k - 87
     else if 65 \<le> k \<and> k \<le> 90 then k - 55
     else 37)"

text \<open>
  The digit loop of \<^verbatim>\<open>int(s, base)\<close>: digits below the base, with single underscores
  between digits; \<open>us\<close> tells that the previous character was an underscore.
\<close>

fun digits_acc :: "nat \<Rightarrow> nat \<Rightarrow> bool \<Rightarrow> string \<Rightarrow> nat option" where
  "digits_acc b acc us [] = (if us then None else Some acc)"
| "digits_acc b acc us (c # cs) =
     (if c = CHR ''_'' then (if us then None else digits_acc b acc True cs)
      else if digit_value c < b then digits_acc b (acc * b + digit_value c) False cs
      else None)"

definition py_digits :: "nat \<Rightarrow> string \<Rightarrow> nat option" where
  "py_digits b s = (case s of [] \<Rightarrow> None
     | c # cs \<Rightarrow> if c = CHR ''_'' then None else digits_acc b 0 False s)"

text \<open>Whether \<open>s\<close> starts with 0 followed by one of the two letters of a base prefix.\<close>

definition has_prefix :: "char \<Rightarrow> char \<Rightarrow> string \<Rightarrow> bool" where
  "has_prefix lo up s = (case s of c # d # _ \<Rightarrow> c = CHR ''0'' \<and> (d = lo \<or> d = up) | _ \<Rightarrow> False)"

text \<open>
  The whitespace that \<^verbatim>\<open>int\<close> accepts around a number: the codes 9 to 13 and 32 (not the
  separators 28 to 31, which \<^verbatim>\<open>strip\<close> removes but \<^verbatim>\<open>int\<close> refuses).
\<close>

definition is_int_space :: "char \<Rightarrow> bool" where
  "is_int_space c = (let k = (of_char c :: nat) in (9 \<le> k \<and> k \<le> 13) \<or> k = 32)"

definition int_strip :: "string \<Rightarrow> string" where
  "int_strip s = rev (dropWhile is_int_space (rev (dropWhile is_int_space s)))"

text \<open>
  \<^verbatim>\<open>int(s, base)\<close> of Python 3 for the bases of \<^verbatim>\<open>_TYPE_TO_BASE\<close> (0, 10 and 16); \<open>None\<close> is
  ValueError. Surrounding whitespace is dropped, then an optional sign; base 0 takes the
  base from a prefix \<^verbatim>\<open>0x\<close>, \<^verbatim>\<open>0o\<close>, \<^verbatim>\<open>0b\<close> and otherwise reads a decimal, which may
  start with 0 only when it is zero; base 16 accepts an optional \<^verbatim>\<open>0x\<close>; one underscore
  may follow a prefix.
\<close>

definition py_int :: "string \<Rightarrow> nat \<Rightarrow> int option" where
  "py_int s base =
    (let t = int_strip s;
         neg = (case t of c # _ \<Rightarrow> c = CHR ''-'' | [] \<Rightarrow> False);
         u = (case t of c # r \<Rightarrow> if c = CHR ''+'' \<or> c = CHR ''-'' then r else t | [] \<Rightarrow> t);
         zero_only = (base = 0 \<and> (case u of c # _ \<Rightarrow> c = CHR ''0'' | [] \<Rightarrow> False)
                      \<and> \<not> has_prefix CHR ''x'' CHR ''X'' u \<and> \<not> has_prefix CHR ''o'' CHR ''O'' u
                      \<and> \<not> has_prefix CHR ''b'' CHR ''B'' u);
         b = (if base = 0 then
                (if has_prefix CHR ''x'' CHR ''X'' u then 16
                 else if has_prefix CHR ''o'' CHR ''O'' u then 8
                 else if has_prefix CHR ''b'' CHR ''B'' u then 2
                 else 10)
              else base);
         pre = ((b = 16 \<and> has_prefix CHR ''x'' CHR ''X'' u) \<or> (b = 8 \<and> has_prefix CHR ''o'' CHR ''O'' u)
                \<or> (b = 2 \<and> has_prefix CHR ''b'' CHR ''B'' u));
         v = (if pre then drop 2 u else u);
         w = (if pre then (case v of c # r \<Rightarrow> if c = CHR ''_'' then r else v | [] \<Rightarrow> v) else v)
     in case py_digits b w of
          None \<Rightarrow> None
        | Some k \<Rightarrow> if zero_only \<and> k \<noteq> 0 then None
                    else Some (if neg then - int k else int k))"

text \<open>\<^verbatim>\<open>_is_base_n\<close>.\<close>

definition is_base_n :: "string \<Rightarrow> nat \<Rightarrow> bool" where
  "is_base_n s n = (py_int s n \<noteq> None)"

text \<open>\<^verbatim>\<open>str(k)\<close> and \<^verbatim>\<open>hex(k)\<close> of an integer.\<close>

definition digit_char :: "nat \<Rightarrow> char" where
  "digit_char d = ''0123456789abcdefghijklmnopqrstuvwxyz'' ! d"

fun nat_digits :: "nat \<Rightarrow> nat \<Rightarrow> string" where
  "nat_digits b k = (if b < 2 \<or> k < b then [digit_char k]
                     else nat_digits b (k div b) @ [digit_char (k mod b)])"

declare nat_digits.simps [simp del]

definition py_str :: "int \<Rightarrow> string" where
  "py_str k = (if k < 0 then CHR ''-'' # nat_digits 10 (nat (- k)) else nat_digits 10 (nat k))"

definition py_hex :: "int \<Rightarrow> string" where
  "py_hex k = (if k < 0 then ''-0x'' @ nat_digits 16 (nat (- k)) else ''0x'' @ nat_digits 16 (nat k))"

text \<open>\<^verbatim>\<open>_strcmp\<close>: -1, 0 or 1 by the lexicographic order of the character codes.\<close>

fun strcmp :: "string \<Rightarrow> string \<Rightarrow> int" where
  "strcmp [] [] = 0"
| "strcmp [] (y # ys) = - 1"
| "strcmp (x # xs) [] = 1"
| "strcmp (x # xs) (y # ys) =
     (if (of_char x :: nat) < of_char y then - 1
      else if (of_char y :: nat) < of_char x then 1
      else strcmp xs ys)"

text \<open>\<^verbatim>\<open>_TYPE_TO_BASE\<close>.\<close>

definition TYPE_TO_BASE :: "sym_type \<Rightarrow> nat" where
  "TYPE_TO_BASE t = (case t of HEX \<Rightarrow> 16 | INT_T \<Rightarrow> 10 | _ \<Rightarrow> 0)"

text \<open>\<^verbatim>\<open>_DEFAULT_VALUE\<close>; the dictionary has no entry for UNKNOWN.\<close>

definition DEFAULT_VALUE :: "sym_type \<rightharpoonup> string" where
  "DEFAULT_VALUE t = (case t of BOOL \<Rightarrow> Some ''n'' | TRISTATE \<Rightarrow> Some ''n''
     | HEX \<Rightarrow> Some [] | INT_T \<Rightarrow> Some [] | STRING \<Rightarrow> Some [] | UNKNOWN \<Rightarrow> None)"

section \<open>The expression and value engine\<close>

text \<open>
  \<^verbatim>\<open>Symbol.value\<close> calls itself on other symbols through expression leaves and through
  \<^verbatim>\<open>config.modules.value\<close>, and on nothing else. The functions of this section take that
  recursive call as the parameter \<open>vals\<close> (the value of a symbol by name, \<open>None\<close> when the
  call raises); \<open>Symbol_value\<close> below closes the recursion with a bound on its depth.
\<close>

type_synonym vals = "string \<Rightarrow> string option"

subsection \<open>Expression evaluation\<close>

text \<open>\<^verbatim>\<open>_type_and_val\<close>.\<close>

definition type_and_val :: "vals \<Rightarrow> config \<Rightarrow> operand \<Rightarrow> (sym_type \<times> string) option" where
  "type_and_val vals cfg obj = (case obj of
      Const c \<Rightarrow> Some (STRING, c)
    | SymRef s \<Rightarrow> do { v \<leftarrow> vals s; Some (stype (the_sym cfg s), v) }
    | NoOperand \<Rightarrow> None)"

text \<open>The relation branch of \<^verbatim>\<open>_eval_expr_rec\<close>.\<close>

definition rel_holds :: "relation \<Rightarrow> int \<Rightarrow> bool" where
  "rel_holds oper cmp = (case oper of
      EQUAL \<Rightarrow> cmp = 0 | UNEQUAL \<Rightarrow> cmp \<noteq> 0 | LESS \<Rightarrow> cmp < 0
    | LESS_EQUAL \<Rightarrow> cmp \<le> 0 | GREATER \<Rightarrow> cmp > 0 | GREATER_EQUAL \<Rightarrow> cmp \<ge> 0)"

definition eval_rel :: "vals \<Rightarrow> config \<Rightarrow> relation \<Rightarrow> operand \<Rightarrow> operand \<Rightarrow> string option" where
  "eval_rel vals cfg oper op1 op2 = do {
     (op1_type, op1_str) \<leftarrow> type_and_val vals cfg op1;
     (op2_type, op2_str) \<leftarrow> type_and_val vals cfg op2;
     if op1_type = STRING \<and> op2_type = STRING then
       Some (if rel_holds oper (strcmp op1_str op2_str) then ''y'' else ''n'')
     else (case (py_int op1_str (TYPE_TO_BASE op1_type), py_int op2_str (TYPE_TO_BASE op2_type)) of
         (Some a, Some b) \<Rightarrow> Some (if rel_holds oper (a - b) then ''y'' else ''n'')
       | _ \<Rightarrow> if oper \<noteq> EQUAL \<and> oper \<noteq> UNEQUAL then Some ''n''
              else Some (if rel_holds oper (strcmp op1_str op2_str) then ''y'' else ''n''))
   }"

text \<open>\<^verbatim>\<open>_eval_expr_rec\<close>.\<close>

fun eval_expr_rec :: "vals \<Rightarrow> config \<Rightarrow> expr \<Rightarrow> string option" where
  "eval_expr_rec vals cfg (Leaf (SymRef s)) =
     (if stype (the_sym cfg s) = BOOL \<or> stype (the_sym cfg s) = TRISTATE then vals s
      else Some ''n'')"
| "eval_expr_rec vals cfg (Leaf (Const c)) = Some (if c = ''m'' \<or> c = ''y'' then c else ''n'')"
| "eval_expr_rec vals cfg (Leaf NoOperand) = None"
| "eval_expr_rec vals cfg (AND e1 e2) = do {
     ev1 \<leftarrow> eval_expr_rec vals cfg e1;
     if ev1 = ''n'' then Some ''n''
     else do {
       ev2 \<leftarrow> eval_expr_rec vals cfg e2;
       Some (if ev1 = ''y'' then ev2 else if ev2 \<noteq> ''n'' then ''m'' else ''n'')
     }
   }"
| "eval_expr_rec vals cfg (OR e1 e2) = do {
     ev1 \<leftarrow> eval_expr_rec vals cfg e1;
     if ev1 = ''y'' then Some ''y''
     else do {
       ev2 \<leftarrow> eval_expr_rec vals cfg e2;
       Some (if ev1 = ''n'' then ev2 else if ev2 = ''y'' then ''y'' else ''m'')
     }
   }"
| "eval_expr_rec vals cfg (NOT e) = do {
     ev \<leftarrow> eval_expr_rec vals cfg e;
     Some (if ev = ''y'' then ''n'' else if ev = ''n'' then ''y'' else ''m'')
   }"
| "eval_expr_rec vals cfg (REL oper op1 op2) = eval_rel vals cfg oper op1 op2"

text \<open>\<^verbatim>\<open>eval_expr\<close>: "y" for a missing expression.\<close>

definition eval_expr :: "vals \<Rightarrow> config \<Rightarrow> expr option \<Rightarrow> string option" where
  "eval_expr vals cfg expr = (case expr of None \<Rightarrow> Some ''y'' | Some e \<Rightarrow> eval_expr_rec vals cfg e)"

text \<open>\<^verbatim>\<open>_eval_min\<close> and \<^verbatim>\<open>_eval_max\<close>.\<close>

definition eval_min :: "vals \<Rightarrow> config \<Rightarrow> expr option \<Rightarrow> expr option \<Rightarrow> string option" where
  "eval_min vals cfg e1 e2 = do {
     e1_eval \<leftarrow> eval_expr vals cfg e1;
     e2_eval \<leftarrow> eval_expr vals cfg e2;
     lt \<leftarrow> tri_less e1_eval e2_eval;
     Some (if lt then e1_eval else e2_eval)
   }"

definition eval_max :: "vals \<Rightarrow> config \<Rightarrow> expr option \<Rightarrow> expr option \<Rightarrow> string option" where
  "eval_max vals cfg e1 e2 = do {
     e1_eval \<leftarrow> eval_expr vals cfg e1;
     e2_eval \<leftarrow> eval_expr vals cfg e2;
     gt \<leftarrow> tri_greater e1_eval e2_eval;
     Some (if gt then e1_eval else e2_eval)
   }"

text \<open>A Python string passed where an expression is expected.\<close>

abbreviation str_expr :: "string \<Rightarrow> expr option" where
  "str_expr s \<equiv> Some (Leaf (Const s))"

text \<open>\<^verbatim>\<open>_str_val\<close>: the object itself if it is a string, else its \<^verbatim>\<open>value\<close> attribute.\<close>

definition str_val :: "vals \<Rightarrow> operand \<Rightarrow> string option" where
  "str_val vals obj = (case obj of Const c \<Rightarrow> Some c | SymRef s \<Rightarrow> vals s | NoOperand \<Rightarrow> None)"

text \<open>\<^verbatim>\<open>_str_val\<close> on a default value: an expression tuple has no \<^verbatim>\<open>value\<close> attribute.\<close>

definition str_val_expr :: "vals \<Rightarrow> expr \<Rightarrow> string option" where
  "str_val_expr vals e = (case e of Leaf obj \<Rightarrow> str_val vals obj | _ \<Rightarrow> None)"

subsection \<open>Visibility, choice mode and selection\<close>

text \<open>The loop over the nodes in \<^verbatim>\<open>_get_visibility\<close>.\<close>

fun prompt_vis :: "vals \<Rightarrow> config \<Rightarrow> string \<Rightarrow> prompt option list \<Rightarrow> string option" where
  "prompt_vis vals cfg vis [] = Some vis"
| "prompt_vis vals cfg vis (None # nds) = prompt_vis vals cfg vis nds"
| "prompt_vis vals cfg vis (Some (text, cond) # nds) = do {
     vis' \<leftarrow> eval_max vals cfg (str_expr vis) cond;
     prompt_vis vals cfg vis' nds
   }"

text \<open>\<^verbatim>\<open>config.modules.value\<close>.\<close>

definition modules_value :: "vals \<Rightarrow> string option" where
  "modules_value vals = vals ''MODULES''"

text \<open>\<^verbatim>\<open>_get_visibility\<close> of a Choice.\<close>

definition Choice_visibility :: "vals \<Rightarrow> config \<Rightarrow> choice_rec \<Rightarrow> string option" where
  "Choice_visibility vals cfg ch = do {
     vis \<leftarrow> prompt_vis vals cfg ''n'' (cnodes ch);
     if vis = ''m'' then
       (if ctype ch \<noteq> TRISTATE then Some ''y''
        else do { mv \<leftarrow> modules_value vals; Some (if mv = ''n'' then ''y'' else vis) })
     else Some vis
   }"

text \<open>\<^verbatim>\<open>Choice.type\<close>.\<close>

definition Choice_type :: "vals \<Rightarrow> choice_rec \<Rightarrow> sym_type option" where
  "Choice_type vals ch =
     (if ctype ch = TRISTATE then
        do { mv \<leftarrow> modules_value vals; Some (if mv = ''n'' then BOOL else ctype ch) }
      else Some (ctype ch))"

text \<open>\<^verbatim>\<open>Choice.value\<close> (the mode).\<close>

definition Choice_value :: "vals \<Rightarrow> config \<Rightarrow> choice_rec \<Rightarrow> string option" where
  "Choice_value vals cfg ch = do {
     val \<leftarrow> (case cuser_value ch of
               Some uv \<Rightarrow> do { vis \<leftarrow> Choice_visibility vals cfg ch;
                               eval_min vals cfg (str_expr uv) (str_expr vis) }
             | None \<Rightarrow> Some ''n'');
     val \<leftarrow> Some (if val = ''n'' \<and> \<not> is_optional ch then ''m'' else val);
     if val = ''m'' then do { t \<leftarrow> Choice_type vals ch; Some (if t = BOOL then ''y'' else val) }
     else Some val
   }"

text \<open>\<^verbatim>\<open>_get_visibility\<close> of a Symbol.\<close>

definition Symbol_visibility :: "vals \<Rightarrow> config \<Rightarrow> string \<Rightarrow> string option" where
  "Symbol_visibility vals cfg name =
    (let sc = the_sym cfg name in do {
       vis \<leftarrow> prompt_vis vals cfg ''n'' (nodes sc);
       r \<leftarrow> (case choice sc of
               None \<Rightarrow> Some (False, vis)
             | Some ci \<Rightarrow> do {
                 ch \<leftarrow> the_choice cfg ci;
                 hide1 \<leftarrow> (if ctype ch = TRISTATE \<and> stype sc \<noteq> TRISTATE
                           then do { m \<leftarrow> Choice_value vals cfg ch; Some (m \<noteq> ''y'') }
                           else Some False);
                 if hide1 then Some (True, ''n'')
                 else do {
                   hide2 \<leftarrow> (if stype sc = TRISTATE \<and> vis = ''m''
                             then do { m \<leftarrow> Choice_value vals cfg ch; Some (m = ''y'') }
                             else Some False);
                   if hide2 then Some (True, ''n'')
                   else do {
                     cvis \<leftarrow> Choice_visibility vals cfg ch;
                     v \<leftarrow> eval_min vals cfg (str_expr vis) (str_expr cvis);
                     Some (False, v)
                   }
                 }
               });
       (case r of
          (True, v) \<Rightarrow> Some v
        | (False, v) \<Rightarrow>
            if v = ''m'' then
              (if stype sc \<noteq> TRISTATE then Some ''y''
               else do { mv \<leftarrow> modules_value vals; Some (if mv = ''n'' then ''y'' else v) })
            else Some v)
     })"

text \<open>\<^verbatim>\<open>Symbol.type\<close>.\<close>

definition Symbol_type :: "vals \<Rightarrow> config \<Rightarrow> string \<Rightarrow> sym_type option" where
  "Symbol_type vals cfg name =
    (let self = the_sym cfg name in
     if stype self = TRISTATE then do {
       in_y \<leftarrow> (case choice self of
                  None \<Rightarrow> Some False
                | Some ci \<Rightarrow> do { ch \<leftarrow> the_choice cfg ci; m \<leftarrow> Choice_value vals cfg ch;
                                  Some (m = ''y'') });
       if in_y then Some BOOL
       else do { mv \<leftarrow> modules_value vals; Some (if mv = ''n'' then BOOL else stype self) }
     }
     else Some (stype self))"

text \<open>The two loops of \<^verbatim>\<open>Choice.default_selection\<close>.\<close>

fun default_loop :: "vals \<Rightarrow> config \<Rightarrow> (string \<times> expr option) list \<Rightarrow> string option option" where
  "default_loop vals cfg [] = Some None"
| "default_loop vals cfg ((nm, cond_expr) # ds) = do {
     c \<leftarrow> eval_expr vals cfg cond_expr;
     if c \<noteq> ''n'' then do {
       v \<leftarrow> Symbol_visibility vals cfg nm;
       if v \<noteq> ''n'' then Some (Some nm) else default_loop vals cfg ds
     }
     else default_loop vals cfg ds
   }"

fun first_visible :: "vals \<Rightarrow> config \<Rightarrow> string list \<Rightarrow> string option option" where
  "first_visible vals cfg [] = Some None"
| "first_visible vals cfg (nm # ss) = do {
     v \<leftarrow> Symbol_visibility vals cfg nm;
     if v \<noteq> ''n'' then Some (Some nm) else first_visible vals cfg ss
   }"

definition default_selection :: "vals \<Rightarrow> config \<Rightarrow> choice_rec \<Rightarrow> string option option" where
  "default_selection vals cfg ch = do {
     d \<leftarrow> default_loop vals cfg (cdefaults ch);
     (case d of Some nm \<Rightarrow> Some (Some nm) | None \<Rightarrow> first_visible vals cfg (csyms ch))
   }"

text \<open>\<^verbatim>\<open>Choice.selection\<close>: the outer \<open>None\<close> is a raise, the inner one Python's \<^verbatim>\<open>None\<close>.\<close>

definition selection :: "vals \<Rightarrow> config \<Rightarrow> choice_rec \<Rightarrow> string option option" where
  "selection vals cfg ch = do {
     m \<leftarrow> Choice_value vals cfg ch;
     if m \<noteq> ''y'' then Some None
     else (case user_selection ch of
         None \<Rightarrow> default_selection vals cfg ch
       | Some us \<Rightarrow> do {
           v \<leftarrow> Symbol_visibility vals cfg us;
           if v = ''y'' then Some (Some us) else default_selection vals cfg ch
         })
   }"

subsection \<open>Symbol.value\<close>

text \<open>
  The loop over the defaults of a bool or tristate symbol: \<open>Some None\<close> when no default
  has a condition other than "n", else the value \<^verbatim>\<open>_eval_min(default, cond_val)\<close> of the
  first one that has.
\<close>

fun tri_defaults :: "vals \<Rightarrow> config \<Rightarrow> (expr \<times> expr option) list \<Rightarrow> string option option" where
  "tri_defaults vals cfg [] = Some None"
| "tri_defaults vals cfg ((dflt, cond) # ds) = do {
     cond_val \<leftarrow> eval_expr vals cfg cond;
     if cond_val \<noteq> ''n'' then do {
       v \<leftarrow> eval_min vals cfg (Some dflt) (str_expr cond_val);
       Some (Some v)
     }
     else tri_defaults vals cfg ds
   }"

text \<open>
  The branch of \<^verbatim>\<open>Symbol.value\<close> for a bool or tristate symbol outside a choice; the result
  is the pair of \<^verbatim>\<open>val\<close> and \<^verbatim>\<open>_write_to_conf\<close>. First its \<^verbatim>\<open>else\<close> part: the defaults and the
  weak reverse dependencies (implies).
\<close>

definition value_default_imply :: "vals \<Rightarrow> config \<Rightarrow> symbol \<Rightarrow> string \<Rightarrow> (string \<times> bool) option" where
  "value_default_imply vals cfg self vis = do {
     d \<leftarrow> tri_defaults vals cfg (defaults self);
     (val, w) \<leftarrow> Some (case d of None \<Rightarrow> (''n'', vis \<noteq> ''n'') | Some v \<Rightarrow> (v, True));
     dd \<leftarrow> eval_expr vals cfg (Some (direct_deps self));
     if dd \<noteq> ''n'' then do {
       weak_rev_dep_val \<leftarrow> eval_expr vals cfg (Some (weak_rev_dep self));
       if weak_rev_dep_val \<noteq> ''n'' then do {
         v \<leftarrow> eval_max vals cfg (str_expr val) (str_expr weak_rev_dep_val);
         Some (v, True)
       }
       else Some (val, w)
     }
     else Some (val, w)
   }"

definition value_plain :: "vals \<Rightarrow> config \<Rightarrow> symbol \<Rightarrow> string \<Rightarrow> (string \<times> bool) option" where
  "value_plain vals cfg self vis = do {
     (val, w) \<leftarrow>
       (case (if vis \<noteq> ''n'' then user_value self else None) of
          Some uv \<Rightarrow> do {
            v \<leftarrow> eval_min vals cfg (str_expr uv) (str_expr vis);
            Some (v, vis \<noteq> ''n'')
          }
        | None \<Rightarrow> value_default_imply vals cfg self vis);
     rev_dep_val \<leftarrow> eval_expr vals cfg (Some (rev_dep self));
     if rev_dep_val \<noteq> ''n'' then do {
       v \<leftarrow> eval_max vals cfg (str_expr val) (str_expr rev_dep_val);
       Some (v, True)
     }
     else Some (val, w)
   }"

text \<open>The branch for a bool or tristate symbol in the choice with index \<open>ci\<close>.\<close>

definition value_in_choice ::
    "vals \<Rightarrow> config \<Rightarrow> string \<Rightarrow> symbol \<Rightarrow> nat \<Rightarrow> string \<Rightarrow> (string \<times> bool) option" where
  "value_in_choice vals cfg name self ci vis =
    (if vis \<noteq> ''n'' then do {
       ch \<leftarrow> the_choice cfg ci;
       mode \<leftarrow> Choice_value vals cfg ch;
       if mode \<noteq> ''n'' then
         (if mode = ''y'' then do {
            sel \<leftarrow> selection vals cfg ch;
            Some (if sel = Some name then ''y'' else ''n'', True)
          }
          else Some (if user_value self = Some ''m'' \<or> user_value self = Some ''y''
                     then ''m'' else ''n'', True))
       else Some (''n'', False)
     }
     else Some (''n'', False))"

text \<open>The test \<^verbatim>\<open>self.type == BOOL or eval_expr(self.weak_rev_dep) == "y"\<close>.\<close>

definition type_bool_or_weak_y :: "vals \<Rightarrow> config \<Rightarrow> string \<Rightarrow> bool option" where
  "type_bool_or_weak_y vals cfg name = do {
     t \<leftarrow> Symbol_type vals cfg name;
     if t = BOOL then Some True
     else do {
       weak \<leftarrow> eval_expr vals cfg (Some (weak_rev_dep (the_sym cfg name)));
       Some (weak = ''y'')
     }
   }"

text \<open>The promotion of "m" to "y" that ends the bool/tristate branch.\<close>

definition promote :: "vals \<Rightarrow> config \<Rightarrow> string \<Rightarrow> string \<Rightarrow> string option" where
  "promote vals cfg name val =
    (if val = ''m'' then do {
       b \<leftarrow> type_bool_or_weak_y vals cfg name;
       Some (if b then ''y'' else val)
     }
     else Some val)"

text \<open>
  The range loop of the int/hex branch: \<open>Some None\<close> when no range is active
  (\<^verbatim>\<open>has_active_range = False\<close>), else the bounds \<^verbatim>\<open>(low, high)\<close> of the first active one.
\<close>

fun active_range ::
    "vals \<Rightarrow> config \<Rightarrow> nat \<Rightarrow> (operand \<times> operand \<times> expr option) list \<Rightarrow> (int \<times> int) option option" where
  "active_range vals cfg base [] = Some None"
| "active_range vals cfg base ((low_expr, high_expr, cond_expr) # rs) = do {
     c \<leftarrow> eval_expr vals cfg cond_expr;
     if c \<noteq> ''n'' then do {
       low_str \<leftarrow> str_val vals low_expr;
       high_str \<leftarrow> str_val vals high_expr;
       Some (Some (case py_int low_str base of Some k \<Rightarrow> k | None \<Rightarrow> 0,
                   case py_int high_str base of Some k \<Rightarrow> k | None \<Rightarrow> 0))
     }
     else active_range vals cfg base rs
   }"

text \<open>\<^verbatim>\<open>hex(k) if self._type == HEX else str(k)\<close>.\<close>

definition canonical :: "sym_type \<Rightarrow> int \<Rightarrow> string" where
  "canonical t k = (if t = HEX then py_hex k else py_str k)"

text \<open>The clamping of a well-formed default with number \<open>val_num\<close>.\<close>

definition clamp_default :: "sym_type \<Rightarrow> (int \<times> int) option \<Rightarrow> string \<Rightarrow> int \<Rightarrow> string" where
  "clamp_default t rng val val_num = (case rng of
      None \<Rightarrow> val
    | Some (low, high) \<Rightarrow>
        if val_num < low then canonical t low
        else if val_num > high then canonical t high
        else val)"

text \<open>
  The loop over the defaults of an int or hex symbol, with \<^verbatim>\<open>val\<close> and \<^verbatim>\<open>_write_to_conf\<close>
  as loop state. The \<^verbatim>\<open>break\<close> stands inside \<^verbatim>\<open>if _is_base_n(val, base)\<close>: after a default
  that is not a number the loop goes on, and the \<^verbatim>\<open>else\<close> clause of the \<^verbatim>\<open>for\<close> (the empty
  list here) runs when no \<^verbatim>\<open>break\<close> was taken.
\<close>

fun num_defaults ::
    "vals \<Rightarrow> config \<Rightarrow> sym_type \<Rightarrow> (int \<times> int) option \<Rightarrow> string \<times> bool \<Rightarrow>
     (expr \<times> expr option) list \<Rightarrow> (string \<times> bool) option" where
  "num_defaults vals cfg t rng (val, w) [] =
     Some (case rng of
             Some (low, high) \<Rightarrow> if low > 0 then (canonical t low, w) else (val, w)
           | None \<Rightarrow> (val, w))"
| "num_defaults vals cfg t rng (val, w) ((val_expr, cond_expr) # ds) = do {
     c \<leftarrow> eval_expr vals cfg cond_expr;
     if c \<noteq> ''n'' then do {
       v \<leftarrow> str_val_expr vals val_expr;
       (case py_int v (TYPE_TO_BASE t) of
          Some val_num \<Rightarrow> Some (clamp_default t rng v val_num, True)
        | None \<Rightarrow> num_defaults vals cfg t rng (v, True) ds)
     }
     else num_defaults vals cfg t rng (val, w) ds
   }"

text \<open>The int/hex branch of \<^verbatim>\<open>Symbol.value\<close>.\<close>

definition value_num :: "vals \<Rightarrow> config \<Rightarrow> symbol \<Rightarrow> string \<Rightarrow> (string \<times> bool) option" where
  "value_num vals cfg self vis = do {
     rng \<leftarrow> active_range vals cfg (TYPE_TO_BASE (stype self)) (ranges self);
     (case (if vis \<noteq> ''n'' then user_value self else None) of
        Some uv \<Rightarrow>
          (case py_int uv (TYPE_TO_BASE (stype self)) of
             Some k \<Rightarrow>
               if (case rng of None \<Rightarrow> True | Some (low, high) \<Rightarrow> low \<le> k \<and> k \<le> high)
               then Some (uv, vis \<noteq> ''n'')
               else num_defaults vals cfg (stype self) rng ([], vis \<noteq> ''n'') (defaults self)
           | None \<Rightarrow> num_defaults vals cfg (stype self) rng ([], vis \<noteq> ''n'') (defaults self))
      | None \<Rightarrow> num_defaults vals cfg (stype self) rng ([], vis \<noteq> ''n'') (defaults self))
   }"

text \<open>The loop over the defaults of a string symbol, and the string branch.\<close>

fun str_defaults ::
    "vals \<Rightarrow> config \<Rightarrow> string \<times> bool \<Rightarrow> (expr \<times> expr option) list \<Rightarrow> (string \<times> bool) option" where
  "str_defaults vals cfg (val, w) [] = Some (val, w)"
| "str_defaults vals cfg (val, w) ((val_expr, cond_expr) # ds) = do {
     c \<leftarrow> eval_expr vals cfg cond_expr;
     if c \<noteq> ''n'' then do { v \<leftarrow> str_val_expr vals val_expr; Some (v, True) }
     else str_defaults vals cfg (val, w) ds
   }"

definition value_str :: "vals \<Rightarrow> config \<Rightarrow> symbol \<Rightarrow> string \<Rightarrow> (string \<times> bool) option" where
  "value_str vals cfg self vis =
    (case (if vis \<noteq> ''n'' then user_value self else None) of
       Some uv \<Rightarrow> Some (uv, vis \<noteq> ''n'')
     | None \<Rightarrow> str_defaults vals cfg ([], vis \<noteq> ''n'') (defaults self))"

text \<open>
  The body of \<^verbatim>\<open>Symbol.value\<close> for the symbol \<open>name\<close>: the value and the flag
  \<^verbatim>\<open>_write_to_conf\<close> it leaves behind (\<open>False\<close>, its initial value, for a symbol of unknown
  type, whose value is its name).
\<close>

definition calc_value :: "vals \<Rightarrow> config \<Rightarrow> string \<Rightarrow> (string \<times> bool) option" where
  "calc_value vals cfg name =
    (let self = the_sym cfg name in
     if stype self = UNKNOWN then Some (name, False)
     else do {
       vis \<leftarrow> Symbol_visibility vals cfg name;
       if stype self = BOOL \<or> stype self = TRISTATE then do {
         (val, w) \<leftarrow> (case choice self of
                        None \<Rightarrow> value_plain vals cfg self vis
                      | Some ci \<Rightarrow> value_in_choice vals cfg name self ci vis);
         val' \<leftarrow> promote vals cfg name val;
         Some (val', w)
       }
       else if stype self = INT_T \<or> stype self = HEX then value_num vals cfg self vis
       else value_str vals cfg self vis
     })"

text \<open>
  \<^verbatim>\<open>Symbol.value\<close> with its recursion closed: \<open>d\<close> bounds the depth of nested
  \<^verbatim>\<open>Symbol.value\<close> calls (Python raises RecursionError at its recursion limit, here the
  result is \<open>None\<close>). The first function also yields \<^verbatim>\<open>_write_to_conf\<close>.
\<close>

fun value_and_flag :: "nat \<Rightarrow> config \<Rightarrow> string \<Rightarrow> (string \<times> bool) option" where
  "value_and_flag 0 cfg name = None"
| "value_and_flag (Suc d) cfg name =
     calc_value (\<lambda>s. map_option fst (value_and_flag d cfg s)) cfg name"

definition Symbol_value :: "nat \<Rightarrow> config \<Rightarrow> string \<Rightarrow> string option" where
  "Symbol_value d cfg name = map_option fst (value_and_flag d cfg name)"

text \<open>
  The queries of the public interface at recursion bound \<open>d\<close>: the symbol values they
  read are those of \<open>Symbol_value d\<close>.
\<close>

definition visibility :: "nat \<Rightarrow> config \<Rightarrow> string \<Rightarrow> string option" where
  "visibility d cfg name = Symbol_visibility (Symbol_value d cfg) cfg name"

definition sym_type_of :: "nat \<Rightarrow> config \<Rightarrow> string \<Rightarrow> sym_type option" where
  "sym_type_of d cfg name = Symbol_type (Symbol_value d cfg) cfg name"

definition eval :: "nat \<Rightarrow> config \<Rightarrow> expr option \<Rightarrow> string option" where
  "eval d cfg e = eval_expr (Symbol_value d cfg) cfg e"

definition mode :: "nat \<Rightarrow> config \<Rightarrow> choice_rec \<Rightarrow> string option" where
  "mode d cfg ch = Choice_value (Symbol_value d cfg) cfg ch"

subsection \<open>Symbol.assignable\<close>

text \<open>\<^verbatim>\<open>Symbol._get_assignable\<close>.\<close>

definition get_assignable :: "vals \<Rightarrow> config \<Rightarrow> string \<Rightarrow> string option" where
  "get_assignable vals cfg name =
    (let self = the_sym cfg name in
     if stype self \<noteq> BOOL \<and> stype self \<noteq> TRISTATE then Some []
     else do {
       vis \<leftarrow> Symbol_visibility vals cfg name;
       if vis = ''n'' then Some []
       else do {
         rev_dep_val \<leftarrow> eval_expr vals cfg (Some (rev_dep self));
         if vis = ''y'' then
           (if rev_dep_val = ''n'' then do {
              b \<leftarrow> type_bool_or_weak_y vals cfg name;
              Some (if b then ''ny'' else ''nmy'')
            }
            else if rev_dep_val = ''y'' then Some ''y''
            else do {
              b \<leftarrow> type_bool_or_weak_y vals cfg name;
              Some (if b then ''y'' else ''my'')
            })
         else
           (if rev_dep_val = ''n'' then do {
              weak \<leftarrow> eval_expr vals cfg (Some (weak_rev_dep self));
              Some (if weak \<noteq> ''y'' then ''m'' else ''y'')
            }
            else if rev_dep_val = ''y'' then Some ''y''
            else Some ''m'')
       }
     })"

definition assignable :: "nat \<Rightarrow> config \<Rightarrow> string \<Rightarrow> string option" where
  "assignable d cfg name = get_assignable (Symbol_value d cfg) cfg name"



text \<open>The active range of an int or hex symbol, as the range loop of \<^verbatim>\<open>Symbol.value\<close> finds it.\<close>

definition range_of :: "nat \<Rightarrow> config \<Rightarrow> string \<Rightarrow> (int \<times> int) option option" where
  "range_of d cfg name =
     active_range (Symbol_value d cfg) cfg (TYPE_TO_BASE (stype (the_sym cfg name)))
       (ranges (the_sym cfg name))"

section \<open>Reading and writing .config files\<close>

subsection \<open>Strings\<close>

abbreviation dquote :: char where "dquote \<equiv> CHR 0x22"
abbreviation backslash :: char where "backslash \<equiv> CHR 0x5C"
abbreviation newline :: char where "newline \<equiv> CHR 0x0A"
abbreviation carriage_return :: char where "carriage_return \<equiv> CHR 0x0D"

text \<open>\<^verbatim>\<open>s.replace(old, new)\<close> for an \<open>old\<close> of one character.\<close>

definition replace_char :: "char \<Rightarrow> string \<Rightarrow> string \<Rightarrow> string" where
  "replace_char old new s = concat (map (\<lambda>c. if c = old then new else [c]) s)"

text \<open>
  \<^verbatim>\<open>s.replace(old, new)\<close> for an \<open>old\<close> of the two characters \<open>a\<close>, \<open>b\<close>: the occurrences are
  replaced from left to right, without overlap.
\<close>

fun replace_pair :: "char \<Rightarrow> char \<Rightarrow> string \<Rightarrow> string \<Rightarrow> string" where
  "replace_pair a b new (x # y # zs) =
     (if x = a \<and> y = b then new @ replace_pair a b new zs
      else x # replace_pair a b new (y # zs))"
| "replace_pair a b new [x] = [x]"
| "replace_pair a b new [] = []"

text \<open>\<^verbatim>\<open>val.replace("\\", "\\\\").replace('"', '\\"')\<close> of \<^verbatim>\<open>config_string\<close>.\<close>

definition escape :: "string \<Rightarrow> string" where
  "escape val = replace_char dquote [backslash, dquote]
                  (replace_char backslash [backslash, backslash] val)"

text \<open>\<^verbatim>\<open>.replace('\\"', '"').replace("\\\\", "\\")\<close> of \<^verbatim>\<open>load_config\<close>.\<close>

definition unescape :: "string \<Rightarrow> string" where
  "unescape val = replace_pair backslash backslash [backslash]
                    (replace_pair backslash dquote [dquote] val)"

text \<open>
  The lines of a text file as the iteration \<^verbatim>\<open>for line in f\<close> yields them, without their
  terminators (the loop of \<^verbatim>\<open>load_config\<close> strips them with \<^verbatim>\<open>rstrip\<close>): a line ends at
  \<^verbatim>\<open>\n\<close>, \<^verbatim>\<open>\r\n\<close> or \<^verbatim>\<open>\r\<close> (universal newlines).
\<close>

fun file_lines :: "string \<Rightarrow> string \<Rightarrow> string list" where
  "file_lines cur [] = (if cur = [] then [] else [cur])"
| "file_lines cur (c # cs) =
     (if c = newline then cur # file_lines [] cs
      else if c = carriage_return then
        (case cs of
           [] \<Rightarrow> [cur]
         | d # ds \<Rightarrow> if d = newline then cur # file_lines [] ds else cur # file_lines [] cs)
      else file_lines (cur @ [c]) cs)"

subsection \<open>The two line patterns\<close>

text \<open>
  \<^verbatim>\<open>_set_re.match(line)\<close> for the pattern \<^verbatim>\<open>PREFIX(\w+)=(.*)\<close>, with the prefix taken
  literally (a prefix without regular-expression metacharacters, such as the default
  \<^verbatim>\<open>CONFIG_\<close>): the groups \<^verbatim>\<open>(name, val)\<close>. The name is the longest run of word characters,
  which \<^verbatim>\<open>=\<close> must follow; \<^verbatim>\<open>.*\<close> stops before a newline.
\<close>

definition set_re_match :: "string \<Rightarrow> string \<Rightarrow> (string \<times> string) option" where
  "set_re_match pfx line =
    (if take (length pfx) line = pfx then
       (let rest = drop (length pfx) line;
            name = takeWhile is_word rest;
            after = dropWhile is_word rest
        in case after of
             [] \<Rightarrow> None
           | c # val \<Rightarrow> if name \<noteq> [] \<and> c = CHR ''='' then Some (name, takeWhile (\<lambda>x. x \<noteq> newline) val)
                        else None)
     else None)"

text \<open>\<^verbatim>\<open>_unset_re.match(line)\<close> for the pattern \<^verbatim>\<open># PREFIX(\w+) is not set\<close>: the group.\<close>

definition unset_re_match :: "string \<Rightarrow> string \<Rightarrow> string option" where
  "unset_re_match pfx line =
    (let p = ''# '' @ pfx in
     if take (length p) line = p then
       (let rest = drop (length p) line;
            name = takeWhile is_word rest;
            after = dropWhile is_word rest
        in if name \<noteq> [] \<and> take 11 after = '' is not set'' then Some name else None)
     else None)"

subsection \<open>Warnings\<close>

text \<open>
  The warnings of \<^verbatim>\<open>load_config\<close>, \<^verbatim>\<open>_set_value_no_invalidate\<close>, \<^verbatim>\<open>_lookup_sym\<close> and of the
  property \<^verbatim>\<open>option env\<close>, as written to stderr.
\<close>

datatype warning =
    Undef_assign_load string string
  | Malformed_string_literal
  | Changes_choice_mode string string string
  | Set_more_than_once string string string
  | Invalid_value string string sym_type
  | Undef_assign_no_effect string string
  | Promptless_assign string string
  | No_symbol_in_configuration string
  | Nonexistent_env_var string string

text \<open>\<^verbatim>\<open>_warn\<close> and \<^verbatim>\<open>_warn_undef_assign\<close>: what they print.\<close>

definition warn :: "config \<Rightarrow> warning \<Rightarrow> warning list" where
  "warn cfg w = (if print_warnings cfg then [w] else [])"

definition warn_undef_assign :: "config \<Rightarrow> warning \<Rightarrow> warning list" where
  "warn_undef_assign cfg w = (if print_undef_assign cfg then [w] else [])"

subsection \<open>Setting user values\<close>

text \<open>The validity test at the head of \<^verbatim>\<open>_set_value_no_invalidate\<close>.\<close>

definition valid_for_type :: "sym_type \<Rightarrow> string \<Rightarrow> bool" where
  "valid_for_type t v =
    ((t = BOOL \<and> (v = ''n'' \<or> v = ''y''))
     \<or> (t = TRISTATE \<and> (v = ''n'' \<or> v = ''m'' \<or> v = ''y''))
     \<or> t = STRING
     \<or> (t = INT_T \<and> is_base_n v 10)
     \<or> (t = HEX \<and> is_base_n v 16))"

text \<open>Assignments to the attributes of the choice with index \<open>ci\<close>.\<close>

definition update_choice :: "config \<Rightarrow> nat \<Rightarrow> (choice_rec \<Rightarrow> choice_rec) \<Rightarrow> config" where
  "update_choice cfg ci f =
     (if ci < length (choices cfg) then cfg \<lparr> choices := (choices cfg)[ci := f (choices cfg ! ci)] \<rparr>
      else cfg)"

text \<open>\<^verbatim>\<open>Symbol._set_value_no_invalidate\<close> on the symbol \<open>name\<close>: the new state and the warnings.\<close>

definition set_value_no_invalidate ::
    "config \<Rightarrow> string \<Rightarrow> string \<Rightarrow> bool \<Rightarrow> config \<times> warning list" where
  "set_value_no_invalidate cfg name v suppress_prompt_warning =
    (let self = the_sym cfg name in
     if \<not> valid_for_type (stype self) v then
       (cfg, warn cfg (Invalid_value v name (stype self)))
     else
       (let ws1 = (if nodes self = [] then warn_undef_assign cfg (Undef_assign_no_effect v name)
                   else []);
            ws2 = (if \<not> suppress_prompt_warning \<and> list_all (\<lambda>nd. nd = None) (nodes self)
                   then warn cfg (Promptless_assign v name) else []);
            cfg1 = cfg \<lparr> syms := (syms cfg)(name \<mapsto> self \<lparr> user_value := Some v \<rparr>) \<rparr>;
            cfg2 = (case choice self of
                      None \<Rightarrow> cfg1
                    | Some ci \<Rightarrow>
                        if stype self = BOOL \<or> stype self = TRISTATE then
                          (if v = ''y'' then
                             update_choice cfg1 ci
                               (\<lambda>c. c \<lparr> user_selection := Some name, cuser_value := Some ''y'' \<rparr>)
                           else if v = ''m'' then
                             update_choice cfg1 ci (\<lambda>c. c \<lparr> cuser_value := Some ''m'' \<rparr>)
                           else cfg1)
                        else cfg1)
        in (cfg2, ws1 @ ws2)))"

text \<open>
  \<^verbatim>\<open>Symbol.set_value\<close>, \<^verbatim>\<open>Symbol.unset_value\<close> and \<^verbatim>\<open>Config.unset_values\<close>; the invalidation
  of the memoisation slots that follows has no counterpart in the state.
\<close>

definition set_value :: "config \<Rightarrow> string \<Rightarrow> string \<Rightarrow> config \<times> warning list" where
  "set_value cfg name v = set_value_no_invalidate cfg name v False"

definition unset_value :: "config \<Rightarrow> string \<Rightarrow> config" where
  "unset_value cfg name = cfg \<lparr> syms := (syms cfg)(name \<mapsto> (the_sym cfg name) \<lparr> user_value := None \<rparr>) \<rparr>"

definition unset_values :: "config \<Rightarrow> config" where
  "unset_values cfg = cfg \<lparr>
     syms := (\<lambda>n. if n \<in> set (defined_syms cfg)
                   then map_option (\<lambda>s. s \<lparr> user_value := None \<rparr>) (syms cfg n)
                   else syms cfg n),
     choices := map (\<lambda>c. c \<lparr> cuser_value := None, user_selection := None \<rparr>) (choices cfg) \<rparr>"

subsection \<open>load_config\<close>

text \<open>
  The end of the loop body of \<^verbatim>\<open>load_config\<close> ("Done parsing the assignment. Set the
  value."), for a symbol \<open>name\<close> of the symbol table.
\<close>

definition assign_loaded :: "config \<Rightarrow> string \<Rightarrow> string \<Rightarrow> config \<times> warning list" where
  "assign_loaded cfg name val =
    (let ws = (case user_value (the_sym cfg name) of
                 Some old \<Rightarrow> warn cfg (Set_more_than_once name old val)
               | None \<Rightarrow> []);
         (cfg', ws') = set_value_no_invalidate cfg name val True
     in (cfg', ws @ ws'))"

text \<open>The warning of \<^verbatim>\<open>load_config\<close> for the member of a choice whose mode differs from \<open>val\<close>.\<close>

definition choice_mode_warning :: "config \<Rightarrow> string \<Rightarrow> string \<Rightarrow> warning list" where
  "choice_mode_warning cfg name val =
    (case choice (the_sym cfg name) of
       None \<Rightarrow> []
     | Some ci \<Rightarrow>
         (case the_choice cfg ci of
            None \<Rightarrow> []
          | Some ch \<Rightarrow>
              (case cuser_value ch of
                 None \<Rightarrow> []
               | Some m \<Rightarrow> if m \<noteq> val then warn cfg (Changes_choice_mode name val m) else [])))"

text \<open>
  The warnings of an assignment that \<^verbatim>\<open>load_config\<close> makes to a string symbol: the
  assignment changes the mode of the choice of the symbol, the symbol had a user value
  already, or (when enabled) the symbol is not defined in the Kconfig files.
\<close>

definition string_assignment_warnings :: "config \<Rightarrow> string \<Rightarrow> string \<Rightarrow> warning list" where
  "string_assignment_warnings cfg name v =
     choice_mode_warning cfg name v
     @ (case user_value (the_sym cfg name) of
          Some old \<Rightarrow> warn cfg (Set_more_than_once name old v) | None \<Rightarrow> [])
     @ (if nodes (the_sym cfg name) = [] then warn_undef_assign cfg (Undef_assign_no_effect v name)
        else [])"

text \<open>One iteration of the loop of \<^verbatim>\<open>load_config\<close>, on the line \<open>raw\<close> of the file.\<close>

definition load_line :: "config \<Rightarrow> string \<Rightarrow> config \<times> warning list" where
  "load_line cfg raw =
    (let line = rstrip raw in
     case set_re_match (config_prefix cfg) line of
       Some (name, val) \<Rightarrow>
         (if syms cfg name = None then (cfg, warn_undef_assign cfg (Undef_assign_load val name))
          else if stype (the_sym cfg name) = STRING \<and> take 1 val = [dquote] then
            (if length val < 2 \<or> last val \<noteq> dquote then (cfg, warn cfg Malformed_string_literal)
             else
               (let val' = unescape (butlast (tl val));
                    ws = choice_mode_warning cfg name val';
                    (cfg', ws') = assign_loaded cfg name val'
                in (cfg', ws @ ws')))
          else
            (let ws = choice_mode_warning cfg name val;
                 (cfg', ws') = assign_loaded cfg name val
             in (cfg', ws @ ws')))
     | None \<Rightarrow>
         (case unset_re_match (config_prefix cfg) line of
            None \<Rightarrow> (cfg, [])
          | Some name \<Rightarrow>
              if syms cfg name = None then (cfg, warn_undef_assign cfg (Undef_assign_load ''n'' name))
              else assign_loaded cfg name ''n''))"

fun load_lines :: "config \<Rightarrow> string list \<Rightarrow> config \<times> warning list" where
  "load_lines cfg [] = (cfg, [])"
| "load_lines cfg (l # ls) =
     (let (cfg1, ws1) = load_line cfg l; (cfg2, ws2) = load_lines cfg1 ls in (cfg2, ws1 @ ws2))"

text \<open>
  \<^verbatim>\<open>load_config\<close> on the contents of the opened file: the new state and the warnings
  printed. Without \<open>replace\<close> only the memoisation slots are invalidated.
\<close>

definition load_config :: "config \<Rightarrow> string \<Rightarrow> bool \<Rightarrow> config \<times> warning list" where
  "load_config cfg contents replace =
     load_lines (if replace then unset_values cfg else cfg) (file_lines [] contents)"

subsection \<open>write_config\<close>

text \<open>
  \<^verbatim>\<open>Symbol.config_string\<close> at recursion bound \<open>d\<close>: the outer \<open>None\<close> is a raise, \<open>Some None\<close>
  is Python's \<^verbatim>\<open>None\<close> (no line is written for the symbol).
\<close>

definition config_string :: "nat \<Rightarrow> config \<Rightarrow> string \<Rightarrow> string option option" where
  "config_string d cfg name =
    (let self = the_sym cfg name in
     if env_var self \<noteq> None then Some None
     else do {
       (val, w) \<leftarrow> value_and_flag d cfg name;
       if \<not> w then Some None
       else if stype self = BOOL \<or> stype self = TRISTATE then
         Some (Some (if val \<noteq> ''n'' then config_prefix cfg @ name @ ''='' @ val @ [newline]
                     else ''# '' @ config_prefix cfg @ name @ '' is not set'' @ [newline]))
       else if stype self = INT_T \<or> stype self = HEX then
         Some (Some (config_prefix cfg @ name @ ''='' @ val @ [newline]))
       else if stype self = STRING then
         Some (Some (config_prefix cfg @ name @ ''='' @ [dquote] @ escape val @ [dquote, newline]))
       else None
     })"

text \<open>The comment block \<^verbatim>\<open>"\n#\n# {}\n#\n".format(title)\<close> of a menu or comment.\<close>

definition title_block :: "string \<Rightarrow> string" where
  "title_block title = [newline] @ ''#'' @ [newline] @ ''# '' @ title @ [newline] @ ''#'' @ [newline]"

text \<open>
  What \<^verbatim>\<open>_get_config_strings\<close> appends for one node; \<open>written\<close> holds the symbols whose
  \<^verbatim>\<open>_already_written\<close> flag is set.
\<close>

definition node_strings ::
    "nat \<Rightarrow> config \<Rightarrow> string list \<Rightarrow> item \<Rightarrow> prompt option \<Rightarrow> expr option \<Rightarrow> expr option \<Rightarrow>
     (string list \<times> string list) option" where
  "node_strings d cfg written it prompt dep vis =
    (case it of
       ISym s \<Rightarrow>
         if s \<in> set written then Some ([], written)
         else do {
           cs \<leftarrow> config_string d cfg s;
           Some (case cs of None \<Rightarrow> [] | Some l \<Rightarrow> [l], s # written)
         }
     | IChoice ci \<Rightarrow> Some ([], written)
     | MENU \<Rightarrow> do {
         dv \<leftarrow> eval d cfg dep;
         shown \<leftarrow> (if dv \<noteq> ''n'' then do { vv \<leftarrow> eval d cfg vis; Some (vv \<noteq> ''n'') } else Some False);
         if shown then (case prompt of None \<Rightarrow> None | Some (title, c) \<Rightarrow> Some ([title_block title], written))
         else Some ([], written)
       }
     | COMMENT \<Rightarrow> do {
         dv \<leftarrow> eval d cfg dep;
         if dv \<noteq> ''n'' then (case prompt of None \<Rightarrow> None | Some (title, c) \<Rightarrow> Some ([title_block title], written))
         else Some ([], written)
       })"

text \<open>
  The tree walk of \<^verbatim>\<open>_get_config_strings\<close> over a chain of nodes: each node, then its
  children, then its successors.
\<close>

fun walk_nodes ::
    "nat \<Rightarrow> config \<Rightarrow> string list \<Rightarrow> menunode list \<Rightarrow> (string list \<times> string list) option" where
  "walk_nodes d cfg written [] = Some ([], written)"
| "walk_nodes d cfg written (MenuNode it prompt dep vis children # rest) = do {
     (out1, written1) \<leftarrow> node_strings d cfg written it prompt dep vis;
     (out2, written2) \<leftarrow> walk_nodes d cfg written1 children;
     (out3, written3) \<leftarrow> walk_nodes d cfg written2 rest;
     Some (out1 @ out2 @ out3, written3)
   }"

definition get_config_strings :: "nat \<Rightarrow> config \<Rightarrow> string list option" where
  "get_config_strings d cfg = map_option fst (walk_nodes d cfg [] (top_list cfg))"

text \<open>\<^verbatim>\<open>write_config\<close>: the contents of the file written.\<close>

definition write_config :: "nat \<Rightarrow> config \<Rightarrow> string \<Rightarrow> string option" where
  "write_config d cfg header = map_option (\<lambda>strings. header @ concat strings) (get_config_strings d cfg)"

text \<open>The default header of \<^verbatim>\<open>write_config\<close>.\<close>

definition default_header :: string where
  "default_header = ''# Generated by Kconfiglib (https://github.com/ulfalizer/Kconfiglib)'' @ [newline]"

section \<open>Symbol reference expansion\<close>

text \<open>
  \<^verbatim>\<open>_sym_ref_re_search(s)\<close> for the pattern \<^verbatim>\<open>\$([A-Za-z0-9_]+)\<close>: the leftmost match, as
  the text before it, the name and the text after it.
\<close>

fun sym_ref_search :: "string \<Rightarrow> (string \<times> string \<times> string) option" where
  "sym_ref_search [] = None"
| "sym_ref_search (c # cs) =
     (if c = CHR ''$'' \<and> takeWhile is_word cs \<noteq> [] then
        Some ([], takeWhile is_word cs, dropWhile is_word cs)
      else map_option (\<lambda>(b, name, a). (c # b, name, a)) (sym_ref_search cs))"

text \<open>
  What replaces a reference to \<open>name\<close>: \<^verbatim>\<open>sym.value if sym is not None else ""\<close> for
  \<^verbatim>\<open>sym = self.syms.get(name)\<close>.
\<close>

definition ref_value :: "nat \<Rightarrow> config \<Rightarrow> string \<Rightarrow> string option" where
  "ref_value d cfg name = (case syms cfg name of None \<Rightarrow> Some [] | Some sy \<Rightarrow> Symbol_value d cfg name)"

text \<open>
  \<^verbatim>\<open>Config._expand_sym_refs\<close>. The loop \<^verbatim>\<open>while 1\<close> has no bound in the code; \<open>n\<close> bounds the
  number of its iterations here, and \<open>None\<close> is also the loop not ending within \<open>n\<close>
  iterations.
\<close>

fun expand_sym_refs :: "nat \<Rightarrow> nat \<Rightarrow> config \<Rightarrow> string \<Rightarrow> string option" where
  "expand_sym_refs 0 d cfg s = None"
| "expand_sym_refs (Suc n) d cfg s =
     (case sym_ref_search s of
        None \<Rightarrow> Some s
      | Some (b, name, a) \<Rightarrow> do {
          v \<leftarrow> ref_value d cfg name;
          expand_sym_refs n d cfg (b @ v @ a)
        })"

text \<open>\<^verbatim>\<open>Config.mainmenu_text\<close>.\<close>

definition mainmenu_text :: "nat \<Rightarrow> nat \<Rightarrow> config \<Rightarrow> string option" where
  "mainmenu_text n d cfg = expand_sym_refs n d cfg (top_prompt cfg)"

text \<open>
  The expansion as the specification words it, one pass over the input string: each
  reference is replaced by its value and the scan goes on behind the reference.
\<close>

function spec_expand_one_pass :: "(string \<Rightarrow> string option) \<Rightarrow> string \<Rightarrow> string option" where
  "spec_expand_one_pass val [] = Some []"
| "spec_expand_one_pass val (c # cs) =
     (if c = CHR ''$'' \<and> takeWhile is_word cs \<noteq> [] then do {
        v \<leftarrow> val (takeWhile is_word cs);
        r \<leftarrow> spec_expand_one_pass val (dropWhile is_word cs);
        Some (v @ r)
      }
      else map_option ((#) c) (spec_expand_one_pass val cs))"
  by pat_completeness auto
termination
  by (relation "measure (\<lambda>(val, s). length s)") (auto simp: less_Suc_eq_le length_dropWhile_le)

section \<open>eval_string: tokenizer and expression parser\<close>

subsection \<open>Tokens\<close>

text \<open>
  The tokens of the tokenizer are integers (\<^verbatim>\<open>_T_ALLNOCONFIG_Y, ..., _T_VISIBLE = range(44)\<close>),
  Symbol objects (by name) and strings.
\<close>

datatype token = Tok nat | TSym string | TStr string

abbreviation (input) T_ALLNOCONFIG_Y :: nat where "T_ALLNOCONFIG_Y \<equiv> 0"
abbreviation (input) T_AND :: nat where "T_AND \<equiv> 1"
abbreviation (input) T_BOOL :: nat where "T_BOOL \<equiv> 2"
abbreviation (input) T_CHOICE :: nat where "T_CHOICE \<equiv> 3"
abbreviation (input) T_CLOSE_PAREN :: nat where "T_CLOSE_PAREN \<equiv> 4"
abbreviation (input) T_COMMENT :: nat where "T_COMMENT \<equiv> 5"
abbreviation (input) T_CONFIG :: nat where "T_CONFIG \<equiv> 6"
abbreviation (input) T_DEFAULT :: nat where "T_DEFAULT \<equiv> 7"
abbreviation (input) T_DEFCONFIG_LIST :: nat where "T_DEFCONFIG_LIST \<equiv> 8"
abbreviation (input) T_DEF_BOOL :: nat where "T_DEF_BOOL \<equiv> 9"
abbreviation (input) T_DEF_TRISTATE :: nat where "T_DEF_TRISTATE \<equiv> 10"
abbreviation (input) T_DEPENDS :: nat where "T_DEPENDS \<equiv> 11"
abbreviation (input) T_ENDCHOICE :: nat where "T_ENDCHOICE \<equiv> 12"
abbreviation (input) T_ENDIF :: nat where "T_ENDIF \<equiv> 13"
abbreviation (input) T_ENDMENU :: nat where "T_ENDMENU \<equiv> 14"
abbreviation (input) T_ENV :: nat where "T_ENV \<equiv> 15"
abbreviation (input) T_EQUAL :: nat where "T_EQUAL \<equiv> 16"
abbreviation (input) T_GREATER :: nat where "T_GREATER \<equiv> 17"
abbreviation (input) T_GREATER_EQUAL :: nat where "T_GREATER_EQUAL \<equiv> 18"
abbreviation (input) T_HELP :: nat where "T_HELP \<equiv> 19"
abbreviation (input) T_HEX :: nat where "T_HEX \<equiv> 20"
abbreviation (input) T_IF :: nat where "T_IF \<equiv> 21"
abbreviation (input) T_IMPLY :: nat where "T_IMPLY \<equiv> 22"
abbreviation (input) T_INT :: nat where "T_INT \<equiv> 23"
abbreviation (input) T_LESS :: nat where "T_LESS \<equiv> 24"
abbreviation (input) T_LESS_EQUAL :: nat where "T_LESS_EQUAL \<equiv> 25"
abbreviation (input) T_MAINMENU :: nat where "T_MAINMENU \<equiv> 26"
abbreviation (input) T_MENU :: nat where "T_MENU \<equiv> 27"
abbreviation (input) T_MENUCONFIG :: nat where "T_MENUCONFIG \<equiv> 28"
abbreviation (input) T_MODULES :: nat where "T_MODULES \<equiv> 29"
abbreviation (input) T_NOT :: nat where "T_NOT \<equiv> 30"
abbreviation (input) T_ON :: nat where "T_ON \<equiv> 31"
abbreviation (input) T_OPEN_PAREN :: nat where "T_OPEN_PAREN \<equiv> 32"
abbreviation (input) T_OPTION :: nat where "T_OPTION \<equiv> 33"
abbreviation (input) T_OPTIONAL :: nat where "T_OPTIONAL \<equiv> 34"
abbreviation (input) T_OR :: nat where "T_OR \<equiv> 35"
abbreviation (input) T_PROMPT :: nat where "T_PROMPT \<equiv> 36"
abbreviation (input) T_RANGE :: nat where "T_RANGE \<equiv> 37"
abbreviation (input) T_SELECT :: nat where "T_SELECT \<equiv> 38"
abbreviation (input) T_SOURCE :: nat where "T_SOURCE \<equiv> 39"
abbreviation (input) T_STRING :: nat where "T_STRING \<equiv> 40"
abbreviation (input) T_TRISTATE :: nat where "T_TRISTATE \<equiv> 41"
abbreviation (input) T_UNEQUAL :: nat where "T_UNEQUAL \<equiv> 42"
abbreviation (input) T_VISIBLE :: nat where "T_VISIBLE \<equiv> 43"

text \<open>\<^verbatim>\<open>_get_keyword\<close>.\<close>

definition get_keyword :: "string \<rightharpoonup> nat" where
  "get_keyword = map_of [
     (''allnoconfig_y'', T_ALLNOCONFIG_Y), (''bool'', T_BOOL), (''boolean'', T_BOOL),
     (''choice'', T_CHOICE), (''comment'', T_COMMENT), (''config'', T_CONFIG),
     (''def_bool'', T_DEF_BOOL), (''def_tristate'', T_DEF_TRISTATE), (''default'', T_DEFAULT),
     (''defconfig_list'', T_DEFCONFIG_LIST), (''depends'', T_DEPENDS),
     (''endchoice'', T_ENDCHOICE), (''endif'', T_ENDIF), (''endmenu'', T_ENDMENU),
     (''env'', T_ENV), (''help'', T_HELP), (''hex'', T_HEX), (''if'', T_IF),
     (''imply'', T_IMPLY), (''int'', T_INT), (''mainmenu'', T_MAINMENU), (''menu'', T_MENU),
     (''menuconfig'', T_MENUCONFIG), (''modules'', T_MODULES), (''on'', T_ON),
     (''option'', T_OPTION), (''optional'', T_OPTIONAL), (''prompt'', T_PROMPT),
     (''range'', T_RANGE), (''select'', T_SELECT), (''source'', T_SOURCE),
     (''string'', T_STRING), (''tristate'', T_TRISTATE), (''visible'', T_VISIBLE)]"

text \<open>\<^verbatim>\<open>token not in _STRING_LEX\<close> for the previous token (\<open>None\<close> before the first one).\<close>

definition in_STRING_LEX :: "token option \<Rightarrow> bool" where
  "in_STRING_LEX t = (case t of
      Some (Tok k) \<Rightarrow> k \<in> set [T_BOOL, T_CHOICE, T_COMMENT, T_HEX, T_INT, T_MAINMENU, T_MENU,
                                T_PROMPT, T_SOURCE, T_STRING, T_TRISTATE]
    | _ \<Rightarrow> False)"

text \<open>\<^verbatim>\<open>_TOKEN_TO_REL\<close>.\<close>

definition TOKEN_TO_REL :: "nat \<rightharpoonup> relation" where
  "TOKEN_TO_REL = map_of [(T_EQUAL, EQUAL), (T_GREATER, GREATER), (T_GREATER_EQUAL, GREATER_EQUAL),
     (T_LESS, LESS), (T_LESS_EQUAL, LESS_EQUAL), (T_UNEQUAL, UNEQUAL)]"

subsection \<open>Symbol lookup\<close>

text \<open>
  \<^verbatim>\<open>Config._lookup_sym\<close>: the state after the call and the warnings printed; the symbol
  returned is the one with the name \<open>name\<close>.
\<close>

definition lookup_sym :: "config \<Rightarrow> string \<Rightarrow> bool \<Rightarrow> config \<times> warning list" where
  "lookup_sym cfg name for_eval =
    (if syms cfg name \<noteq> None then (cfg, [])
     else if for_eval then (cfg, warn cfg (No_symbol_in_configuration name))
     else (cfg \<lparr> syms := (syms cfg)(name \<mapsto> Symbol_init) \<rparr>, []))"

subsection \<open>The tokenizer\<close>

text \<open>The class \<^verbatim>\<open>[\w./-]\<close> of \<^verbatim>\<open>_id_keyword_re_match\<close>.\<close>

definition is_id_char :: "char \<Rightarrow> bool" where
  "is_id_char c = (is_word c \<or> c = CHR ''.'' \<or> c = CHR ''/'' \<or> c = CHR ''-'')"

text \<open>
  The slow path for a string literal with the quote \<open>q\<close>: the value collected and the text
  behind the closing quote; \<open>None\<close> is \<^verbatim>\<open>_tokenization_error\<close>.
\<close>

fun scan_string :: "char \<Rightarrow> string \<Rightarrow> string \<Rightarrow> (string \<times> string) option" where
  "scan_string q val [] = None"
| "scan_string q val (c # cs) =
     (if c = q then Some (val, cs)
      else if c = backslash then
        (case cs of [] \<Rightarrow> None | e # es \<Rightarrow> scan_string q (val @ [e]) es)
      else scan_string q (val @ [c]) cs)"

text \<open>
  A string literal behind its opening quote \<open>q\<close>; \<open>bs\<close> tells whether the whole line
  contains a backslash (else the fast path \<^verbatim>\<open>s.find(c, i)\<close> is taken).
\<close>

definition string_literal :: "bool \<Rightarrow> char \<Rightarrow> string \<Rightarrow> (string \<times> string) option" where
  "string_literal bs q rest =
    (if \<not> bs then
       (if q \<in> set rest then Some (takeWhile (\<lambda>c. c \<noteq> q) rest, tl (dropWhile (\<lambda>c. c \<noteq> q) rest))
        else None)
     else scan_string q [] rest)"

text \<open>
  The token that starts with the character \<open>c\<close>, which is not an identifier character,
  not a quote and not \<^verbatim>\<open>#\<close>, and the text behind the token; \<open>None\<close> when the character is
  ignored (\<^verbatim>\<open>continue\<close>).
\<close>

definition punctuation :: "char \<Rightarrow> string \<Rightarrow> (nat \<times> string) option" where
  "punctuation c cs =
    (if c = CHR ''&'' then (case cs of d # ds \<Rightarrow> if d = CHR ''&'' then Some (T_AND, ds) else None | [] \<Rightarrow> None)
     else if c = CHR ''|'' then (case cs of d # ds \<Rightarrow> if d = CHR ''|'' then Some (T_OR, ds) else None | [] \<Rightarrow> None)
     else if c = CHR ''!'' then
       (case cs of d # ds \<Rightarrow> if d = CHR ''='' then Some (T_UNEQUAL, ds) else Some (T_NOT, cs)
                 | [] \<Rightarrow> Some (T_NOT, cs))
     else if c = CHR ''='' then Some (T_EQUAL, cs)
     else if c = CHR ''('' then Some (T_OPEN_PAREN, cs)
     else if c = CHR '')'' then Some (T_CLOSE_PAREN, cs)
     else if c = CHR ''<'' then
       (case cs of d # ds \<Rightarrow> if d = CHR ''='' then Some (T_LESS_EQUAL, ds) else Some (T_LESS, cs)
                 | [] \<Rightarrow> Some (T_LESS, cs))
     else if c = CHR ''>'' then
       (case cs of d # ds \<Rightarrow> if d = CHR ''='' then Some (T_GREATER_EQUAL, ds) else Some (T_GREATER, cs)
                 | [] \<Rightarrow> Some (T_GREATER, cs))
     else None)"

text \<open>Appending to the result of the rest of the loop.\<close>

definition emit ::
    "token \<Rightarrow> warning list \<Rightarrow> token list option \<times> config \<times> warning list \<Rightarrow>
     token list option \<times> config \<times> warning list" where
  "emit t ws r = (case r of (ts, cfg, ws') \<Rightarrow> (map_option ((#) t) ts, cfg, ws @ ws'))"

text \<open>
  The main loop of \<^verbatim>\<open>Config._tokenize\<close> on the text \<open>s[i:]\<close>, with the previous token and
  the state: the tokens appended (\<open>None\<close> is \<^verbatim>\<open>_tokenization_error\<close>), the state after the
  loop and the warnings printed.
\<close>

function tokenize_loop ::
    "bool \<Rightarrow> bool \<Rightarrow> token option \<Rightarrow> config \<Rightarrow> string \<Rightarrow> token list option \<times> config \<times> warning list" where
  "tokenize_loop for_eval bs prev cfg [] = (Some [], cfg, [])"
| "tokenize_loop for_eval bs prev cfg (c # cs) =
    (if is_id_char c then
       (let name = takeWhile is_id_char (c # cs);
            rest = dropWhile is_space (dropWhile is_id_char cs)
        in case get_keyword name of
             Some k \<Rightarrow> emit (Tok k) [] (tokenize_loop for_eval bs (Some (Tok k)) cfg rest)
           | None \<Rightarrow>
               if \<not> in_STRING_LEX prev then
                 (if name = ''n'' \<or> name = ''m'' \<or> name = ''y'' then
                    emit (TStr name) [] (tokenize_loop for_eval bs (Some (TStr name)) cfg rest)
                  else
                    emit (TSym name) (snd (lookup_sym cfg name for_eval))
                      (tokenize_loop for_eval bs (Some (TSym name))
                         (fst (lookup_sym cfg name for_eval)) rest))
               else emit (TStr name) [] (tokenize_loop for_eval bs (Some (TStr name)) cfg rest))
     else if c = dquote \<or> c = CHR 0x27 then
       (case string_literal bs c cs of
          None \<Rightarrow> (None, cfg, [])
        | Some (val, rest) \<Rightarrow>
            emit (TStr val) [] (tokenize_loop for_eval bs (Some (TStr val)) cfg (dropWhile is_space rest)))
     else if c = CHR ''#'' then (Some [], cfg, [])
     else
       (case punctuation c cs of
          None \<Rightarrow> tokenize_loop for_eval bs prev cfg cs
        | Some (k, rest) \<Rightarrow>
            emit (Tok k) [] (tokenize_loop for_eval bs (Some (Tok k)) cfg (dropWhile is_space rest))))"
  by pat_completeness auto
termination
proof -
  have scan: "length rest \<le> length s" if "scan_string q val s = Some (v, rest)"
    for q val s v rest
    using that
    by (induction q val s rule: scan_string.induct) (auto split: if_splits list.splits)
  have lit: "length (dropWhile is_space rest) \<le> length s"
    if "string_literal bs q s = Some (v, rest)" for bs q s v rest
  proof -
    have "length rest \<le> length s"
      using that scan[of q "[]" s v rest] length_dropWhile_le[of "\<lambda>c. c \<noteq> q" s]
      by (auto simp: string_literal_def split: if_splits)
    then show ?thesis using length_dropWhile_le[of is_space rest] by simp
  qed
  have punct: "length (dropWhile is_space rest) \<le> length s"
    if "punctuation c s = Some (k, rest)" for c s k rest
  proof -
    have "length rest \<le> length s"
      using that by (auto simp: punctuation_def split: if_splits list.splits)
    then show ?thesis using length_dropWhile_le[of is_space rest] by simp
  qed
  have ident: "length (dropWhile is_space (dropWhile is_id_char s)) \<le> length s" for s
    using le_trans[OF length_dropWhile_le length_dropWhile_le] .
  show ?thesis
    by (relation "measure (\<lambda>(for_eval, bs, prev, cfg, s). length s)")
       (auto simp: less_Suc_eq_le ident dest: lit punct)
qed

text \<open>
  \<^verbatim>\<open>Config._tokenize\<close>: the token list of the feed; as first component \<open>None\<close> is
  \<^verbatim>\<open>_tokenization_error\<close> and \<open>Some None\<close> Python's \<^verbatim>\<open>None\<close> (no initial token). The initial
  token pattern is \<^verbatim>\<open>[^\w#]*(\w+)\s*\<close>.
\<close>

definition tokenize ::
    "config \<Rightarrow> string \<Rightarrow> bool \<Rightarrow> token list option option \<times> config \<times> warning list" where
  "tokenize cfg s for_eval =
    (if for_eval then
       (case tokenize_loop True (backslash \<in> set s) None cfg s of
          (ts, cfg', ws) \<Rightarrow> (map_option Some ts, cfg', ws))
     else
       (let r = dropWhile (\<lambda>c. \<not> is_word c \<and> c \<noteq> CHR ''#'') s;
            word = takeWhile is_word r;
            rest = dropWhile is_space (dropWhile is_word r)
        in if word = [] then (Some None, cfg, [])
           else (case get_keyword word of
                   None \<Rightarrow> (None, cfg, [])
                 | Some k \<Rightarrow>
                     if k = T_HELP then (Some (Some [Tok T_HELP]), cfg, [])
                     else (case emit (Tok k) []
                                  (tokenize_loop False (backslash \<in> set s) (Some (Tok k)) cfg rest) of
                             (ts, cfg', ws) \<Rightarrow> (map_option Some ts, cfg', ws)))))"

subsection \<open>The expression parser\<close>

text \<open>The right operand of a relation, \<^verbatim>\<open>feed.next()\<close>, as an operand.\<close>

definition operand_of :: "token option \<Rightarrow> operand" where
  "operand_of t = (case t of Some (TSym s) \<Rightarrow> SymRef s | Some (TStr c) \<Rightarrow> Const c | _ \<Rightarrow> NoOperand)"

text \<open>\<^verbatim>\<open>next_token not in _TOKEN_TO_REL\<close> for \<^verbatim>\<open>next_token = feed.peek()\<close>.\<close>

definition peek_rel :: "token list \<Rightarrow> relation option" where
  "peek_rel ts = (case ts of Tok k # _ \<Rightarrow> TOKEN_TO_REL k | _ \<Rightarrow> None)"

text \<open>
  \<^verbatim>\<open>_parse_expr\<close>, \<^verbatim>\<open>_parse_and_expr\<close> and \<^verbatim>\<open>_parse_factor\<close> on the tokens left in the feed:
  the expression and the tokens left behind it. The first argument bounds the depth of the
  nested calls; the outer \<open>None\<close> is that bound reached, \<open>Some None\<close> is \<^verbatim>\<open>_parse_error\<close>
  (KconfigSyntaxError).
\<close>

fun parse_expr :: "nat \<Rightarrow> bool \<Rightarrow> token list \<Rightarrow> (expr \<times> token list) option option"
  and parse_and_expr :: "nat \<Rightarrow> bool \<Rightarrow> token list \<Rightarrow> (expr \<times> token list) option option"
  and parse_factor :: "nat \<Rightarrow> bool \<Rightarrow> token list \<Rightarrow> (expr \<times> token list) option option" where
  "parse_expr 0 transform_m ts = None"
| "parse_expr (Suc n) transform_m ts =
     (case parse_and_expr n transform_m ts of
        None \<Rightarrow> None
      | Some None \<Rightarrow> Some None
      | Some (Some (and_expr, rest)) \<Rightarrow>
          (case rest of
             Tok k # rest' \<Rightarrow>
               if k = T_OR then
                 (case parse_expr n transform_m rest' of
                    None \<Rightarrow> None
                  | Some None \<Rightarrow> Some None
                  | Some (Some (e, rest'')) \<Rightarrow> Some (Some (OR and_expr e, rest'')))
               else Some (Some (and_expr, rest))
           | _ \<Rightarrow> Some (Some (and_expr, rest))))"
| "parse_and_expr 0 transform_m ts = None"
| "parse_and_expr (Suc n) transform_m ts =
     (case parse_factor n transform_m ts of
        None \<Rightarrow> None
      | Some None \<Rightarrow> Some None
      | Some (Some (factor, rest)) \<Rightarrow>
          (case rest of
             Tok k # rest' \<Rightarrow>
               if k = T_AND then
                 (case parse_and_expr n transform_m rest' of
                    None \<Rightarrow> None
                  | Some None \<Rightarrow> Some None
                  | Some (Some (e, rest'')) \<Rightarrow> Some (Some (AND factor e, rest'')))
               else Some (Some (factor, rest))
           | _ \<Rightarrow> Some (Some (factor, rest))))"
| "parse_factor 0 transform_m ts = None"
| "parse_factor (Suc n) transform_m ts =
     (case ts of
        [] \<Rightarrow> Some None
      | TSym s # rest \<Rightarrow>
          (case peek_rel rest of
             None \<Rightarrow> Some (Some (Leaf (SymRef s), rest))
           | Some r \<Rightarrow> Some (Some (REL r (SymRef s) (operand_of (case tl rest of [] \<Rightarrow> None | t # _ \<Rightarrow> Some t)),
                                    tl (tl rest))))
      | TStr c # rest \<Rightarrow>
          (case peek_rel rest of
             None \<Rightarrow>
               if transform_m \<and> c = ''m'' then
                 Some (Some (AND (Leaf (Const ''m'')) (Leaf (SymRef ''MODULES'')), rest))
               else Some (Some (Leaf (Const c), rest))
           | Some r \<Rightarrow> Some (Some (REL r (Const c) (operand_of (case tl rest of [] \<Rightarrow> None | t # _ \<Rightarrow> Some t)),
                                    tl (tl rest))))
      | Tok k # rest \<Rightarrow>
          if k = T_NOT then
            (case parse_factor n transform_m rest of
               None \<Rightarrow> None
             | Some None \<Rightarrow> Some None
             | Some (Some (e, rest')) \<Rightarrow> Some (Some (NOT e, rest')))
          else if k = T_OPEN_PAREN then
            (case parse_expr n transform_m rest of
               None \<Rightarrow> None
             | Some None \<Rightarrow> Some None
             | Some (Some (e, rest')) \<Rightarrow>
                 (case rest' of
                    Tok k' # rest'' \<Rightarrow> if k' = T_CLOSE_PAREN then Some (Some (e, rest'')) else Some None
                  | _ \<Rightarrow> Some None))
          else Some None)"

subsection \<open>eval_string\<close>

text \<open>
  \<^verbatim>\<open>Config.eval_string\<close> at recursion bound \<open>d\<close> for the symbol values: the value returned
  (\<open>None\<close> when the call raises), the state after the call, and the warnings printed. The
  parser gets a call depth that no token list of this length exhausts.
\<close>

definition eval_string :: "nat \<Rightarrow> config \<Rightarrow> string \<Rightarrow> string option \<times> config \<times> warning list" where
  "eval_string d cfg s =
    (case tokenize cfg s True of
       (Some (Some ts), cfg', ws) \<Rightarrow>
         (case parse_expr (3 * length ts + 3) True ts of
            Some (Some (e, rest)) \<Rightarrow> (eval d cfg' (Some e), cfg', ws)
          | _ \<Rightarrow> (None, cfg', ws))
     | (_, cfg', ws) \<Rightarrow> (None, cfg', ws))"

section \<open>The process environment and the file system\<close>

text \<open>
  What the library reaches outside of its objects: \<^verbatim>\<open>os.environ\<close>, a mapping from variable
  names to values, and the files that \<^verbatim>\<open>open\<close> reads and writes, a mapping from paths to
  contents. Opening a path for writing always succeeds here.
\<close>

record world =
  environ :: "string \<rightharpoonup> string"
  files :: "string \<rightharpoonup> string"

text \<open>\<^verbatim>\<open>os.path.isabs\<close> and \<^verbatim>\<open>os.path.join\<close> (two arguments) of posixpath.\<close>

definition isabs :: "string \<Rightarrow> bool" where
  "isabs p = (take 1 p = ''/'')"

definition path_join :: "string \<Rightarrow> string \<Rightarrow> string" where
  "path_join a b = (if take 1 b = ''/'' then b
                    else if a = [] \<or> last a = CHR ''/'' then a @ b
                    else a @ ''/'' @ b)"

subsection \<open>Construction\<close>

text \<open>
  \<^verbatim>\<open>Config.__init__\<close> up to the parse of the Kconfig files: the attributes of the new
  object, with the two reads of \<^verbatim>\<open>os.environ\<close> (\<^verbatim>\<open>CONFIG_\<close> and \<^verbatim>\<open>srctree\<close>), the predefined
  symbol UNAME_RELEASE whose default is \<^verbatim>\<open>platform.uname()[2]\<close> (\<open>uname\<close> here), and the
  registration of MODULES.
\<close>

definition Config_new :: "world \<Rightarrow> string \<Rightarrow> bool \<Rightarrow> config" where
  "Config_new w uname wrn =
    (let self = \<lparr> syms = [''UNAME_RELEASE'' \<mapsto> Symbol_init \<lparr> stype := STRING,
                      defaults := [(Leaf (Const uname), None)],
                      env_var := Some ''<uname release>'' \<rparr>],
                  defined_syms = [], choices = [],
                  config_prefix = (case environ w ''CONFIG_'' of None \<Rightarrow> ''CONFIG_'' | Some p \<Rightarrow> p),
                  srctree = environ w ''srctree'',
                  defconfig_list = None,
                  print_warnings = wrn, print_undef_assign = False, top_list = [],
                  top_prompt = ''Linux Kernel Configuration'' \<rparr>
     in fst (lookup_sym self ''MODULES'' False))"

text \<open>
  The property \<^verbatim>\<open>option env="VAR"\<close> of the symbol \<open>name\<close> in \<^verbatim>\<open>_parse_properties\<close>, the
  only other place that reads \<^verbatim>\<open>os.environ\<close>: \<open>dflts\<close> is the local list \<^verbatim>\<open>defaults\<close> of the
  properties parsed so far, which gains the value of the variable as a constant.
\<close>

definition option_env ::
    "world \<Rightarrow> config \<Rightarrow> string \<Rightarrow> string \<Rightarrow> (expr \<times> expr option) list
      \<Rightarrow> config \<times> (expr \<times> expr option) list \<times> warning list" where
  "option_env w cfg name var dflts =
    (let cfg1 = cfg \<lparr> syms := (syms cfg)(name \<mapsto> (the_sym cfg name) \<lparr> env_var := Some var \<rparr>) \<rparr> in
     case environ w var of
       None \<Rightarrow> (cfg1, dflts, warn cfg (Nonexistent_env_var name var))
     | Some v \<Rightarrow> (cfg1, dflts @ [(Leaf (Const v), None)], []))"

text \<open>\<^verbatim>\<open>_make_and\<close>.\<close>

definition make_and :: "expr option \<Rightarrow> expr option \<Rightarrow> expr option" where
  "make_and e1 e2 =
    (case e1 of None \<Rightarrow> e2
     | Some a \<Rightarrow> if a = Leaf (Const ''y'') then e2
         else (case e2 of None \<Rightarrow> e1
               | Some b \<Rightarrow> if b = Leaf (Const ''y'') then e1 else Some (AND a b)))"

text \<open>
  The end of \<^verbatim>\<open>_parse_properties\<close> for a symbol: "Add the new defaults, with dependencies
  propagated", \<open>dep\<close> being \<^verbatim>\<open>node.dep\<close>.
\<close>

definition add_defaults :: "config \<Rightarrow> string \<Rightarrow> (expr \<times> expr option) list \<Rightarrow> expr option \<Rightarrow> config" where
  "add_defaults cfg name dflts dep =
     cfg \<lparr> syms := (syms cfg)(name \<mapsto> (the_sym cfg name)
       \<lparr> defaults := defaults (the_sym cfg name) @ map (\<lambda>(v, c). (v, make_and c dep)) dflts \<rparr>) \<rparr>"

subsection \<open>Opening files\<close>

text \<open>
  \<^verbatim>\<open>Config._open\<close>: the name under which the file was opened (\<^verbatim>\<open>f.name\<close>) and its contents;
  \<open>None\<close> is IOError. The second attempt uses the attribute \<^verbatim>\<open>srctree\<close> of the
  configuration.
\<close>

definition Config_open :: "config \<Rightarrow> world \<Rightarrow> string \<Rightarrow> (string \<times> string) option" where
  "Config_open cfg w filename =
    (case files w filename of
       Some contents \<Rightarrow> Some (filename, contents)
     | None \<Rightarrow>
        (if \<not> isabs filename \<and> srctree cfg \<noteq> None then
           (case files w (path_join (the (srctree cfg)) filename) of
              Some contents \<Rightarrow> Some (path_join (the (srctree cfg)) filename, contents)
            | None \<Rightarrow> None)
         else None))"

text \<open>
  \<^verbatim>\<open>Config.defconfig_filename\<close>: the loop over the defaults of the defconfig_list symbol.
  The outer \<open>None\<close> is a raise (of the evaluation, or TypeError of the regular expression
  search when the default is not a plain string), \<open>Some None\<close> is Python's \<^verbatim>\<open>None\<close>.
\<close>

fun defconfig_loop ::
    "nat \<Rightarrow> nat \<Rightarrow> config \<Rightarrow> world \<Rightarrow> (expr \<times> expr option) list \<Rightarrow> string option option" where
  "defconfig_loop n d cfg w [] = Some None"
| "defconfig_loop n d cfg w ((filename, cond_expr) # rest) = do {
     c \<leftarrow> eval d cfg cond_expr;
     if c \<noteq> ''n'' then
       (case filename of
          Leaf (Const s) \<Rightarrow> do {
            f \<leftarrow> expand_sym_refs n d cfg s;
            (case Config_open cfg w f of
               Some (path, contents) \<Rightarrow> Some (Some path)
             | None \<Rightarrow> defconfig_loop n d cfg w rest)
          }
        | _ \<Rightarrow> None)
     else defconfig_loop n d cfg w rest
   }"

definition defconfig_filename :: "nat \<Rightarrow> nat \<Rightarrow> config \<Rightarrow> world \<Rightarrow> string option option" where
  "defconfig_filename n d cfg w =
    (case defconfig_list cfg of
       None \<Rightarrow> Some None
     | Some name \<Rightarrow> defconfig_loop n d cfg w (defaults (the_sym cfg name)))"

subsection \<open>Runs of operations\<close>

text \<open>
  The operations of a program on one configuration and what each of them returns:
  \<^verbatim>\<open>sym.value\<close>, \<^verbatim>\<open>load_config(filename, replace)\<close>, \<^verbatim>\<open>write_config(filename, header)\<close> and
  \<^verbatim>\<open>defconfig_filename\<close>.
\<close>

datatype operation =
    Get_value string
  | Load_config string bool
  | Write_config string string
  | Defconfig_filename

datatype result =
    Value string
  | Loaded "warning list"
  | Written
  | Filename "string option"
  | IOError
  | Raised

text \<open>
  One operation. \<^verbatim>\<open>write_config\<close> has written the header when \<^verbatim>\<open>_get_config_strings\<close>
  raises. \<open>n\<close> bounds the iterations of \<^verbatim>\<open>_expand_sym_refs\<close> and \<open>d\<close> the depth of nested
  value calls.
\<close>

fun step :: "nat \<Rightarrow> nat \<Rightarrow> operation \<Rightarrow> config \<Rightarrow> world \<Rightarrow> result \<times> config \<times> world" where
  "step n d (Get_value name) cfg w =
     (case Symbol_value d cfg name of Some v \<Rightarrow> (Value v, cfg, w) | None \<Rightarrow> (Raised, cfg, w))"
| "step n d (Load_config filename replace) cfg w =
     (case Config_open cfg w filename of
        None \<Rightarrow> (IOError, cfg, w)
      | Some (path, contents) \<Rightarrow>
          (let (cfg1, ws) = load_config cfg contents replace in (Loaded ws, cfg1, w)))"
| "step n d (Write_config filename header) cfg w =
     (case get_config_strings d cfg of
        None \<Rightarrow> (Raised, cfg, w \<lparr> files := (files w)(filename \<mapsto> header) \<rparr>)
      | Some strings \<Rightarrow> (Written, cfg, w \<lparr> files := (files w)(filename \<mapsto> header @ concat strings) \<rparr>))"
| "step n d Defconfig_filename cfg w =
     (case defconfig_filename n d cfg w of
        None \<Rightarrow> (Raised, cfg, w)
      | Some r \<Rightarrow> (Filename r, cfg, w))"

text \<open>
  What a program does after it has constructed the configuration: operations on the
  configuration, and changes of the process environment (\<^verbatim>\<open>os.environ[k] = v\<close> and
  \<^verbatim>\<open>del os.environ[k]\<close>).
\<close>

datatype action = Op operation | Putenv string string | Unsetenv string

fun ops_of :: "action list \<Rightarrow> operation list" where
  "ops_of [] = []"
| "ops_of (Op operation # rest) = operation # ops_of rest"
| "ops_of (_ # rest) = ops_of rest"

text \<open>
  A run: the results of the operations on the configuration, in order, with the final
  configuration and world.
\<close>

fun run :: "nat \<Rightarrow> nat \<Rightarrow> action list \<Rightarrow> config \<Rightarrow> world \<Rightarrow> result list \<times> config \<times> world" where
  "run n d [] cfg w = ([], cfg, w)"
| "run n d (Op operation # rest) cfg w =
     (let (r, cfg1, w1) = step n d operation cfg w;
          (rs, cfg2, w2) = run n d rest cfg1 w1
      in (r # rs, cfg2, w2))"
| "run n d (Putenv k v # rest) cfg w = run n d rest cfg (w \<lparr> environ := (environ w)(k \<mapsto> v) \<rparr>)"
| "run n d (Unsetenv k # rest) cfg w = run n d rest cfg (w \<lparr> environ := (environ w)(k := None) \<rparr>)"

section \<open>The memoisation slots\<close>

text \<open>
  \<^verbatim>\<open>Symbol.value\<close>, \<^verbatim>\<open>Symbol.visibility\<close>, \<^verbatim>\<open>Symbol.assignable\<close>, \<^verbatim>\<open>Choice.visibility\<close> and
  \<^verbatim>\<open>Choice.selection\<close> are properties that return the content of a slot
  (\<^verbatim>\<open>_cached_val\<close>, \<^verbatim>\<open>_cached_vis\<close>, \<^verbatim>\<open>_cached_assignable\<close>, \<^verbatim>\<open>_cached_selection\<close>) when it is
  filled, and otherwise compute the result, store it in the slot and return it;
  \<^verbatim>\<open>Symbol.type\<close>, \<^verbatim>\<open>Choice.type\<close> and \<^verbatim>\<open>Choice.value\<close> are computed at every read. The slots
  are emptied by \<^verbatim>\<open>_invalidate\<close>. The functions of the engine above are the bodies of these
  properties with every slot empty; the functions of this section are the properties
  themselves: they take the slots and return them with what the read has filled in.

  The slots, by symbol name and by choice index. An empty slot is \<open>None\<close> (\<^verbatim>\<open>None\<close> in the
  code, and \<^verbatim>\<open>_NO_CACHED_SELECTION\<close> for the selection); \<open>write_to_conf\<close> is the attribute
  \<^verbatim>\<open>_write_to_conf\<close>, which the computation of the value sets.
\<close>

record caches =
  cached_val :: "string \<rightharpoonup> string"
  write_to_conf :: "string \<Rightarrow> bool"
  cached_vis :: "string \<rightharpoonup> string"
  cached_assignable :: "string \<rightharpoonup> string"
  choice_cached_vis :: "nat \<rightharpoonup> string"
  cached_selection :: "nat \<rightharpoonup> string option"

text \<open>The slots after construction.\<close>

definition no_caches :: caches where
  "no_caches = \<lparr> cached_val = Map.empty, write_to_conf = (\<lambda>s. False), cached_vis = Map.empty,
     cached_assignable = Map.empty, choice_cached_vis = Map.empty, cached_selection = Map.empty \<rparr>"

text \<open>
  A read: from the slots to the result and the slots after it, \<open>None\<close> when it raises. The
  parameter \<open>vals\<close> of the functions below is the nested read of \<^verbatim>\<open>Symbol.value\<close>.
\<close>

type_synonym 'a cached = "caches \<Rightarrow> ('a \<times> caches) option"

type_synonym cvals = "string \<Rightarrow> string cached"

subsection \<open>Expression evaluation\<close>

definition type_and_val_c :: "cvals \<Rightarrow> config \<Rightarrow> operand \<Rightarrow> (sym_type \<times> string) cached" where
  "type_and_val_c vals cfg obj K = (case obj of
      Const c \<Rightarrow> Some ((STRING, c), K)
    | SymRef s \<Rightarrow> do { (v, K1) \<leftarrow> vals s K; Some ((stype (the_sym cfg s), v), K1) }
    | NoOperand \<Rightarrow> None)"

text \<open>The comparison of the relation branch of \<^verbatim>\<open>_eval_expr_rec\<close>, on the operands read.\<close>

definition compare_operands :: "relation \<Rightarrow> sym_type \<times> string \<Rightarrow> sym_type \<times> string \<Rightarrow> string" where
  "compare_operands oper a b =
    (case (a, b) of ((op1_type, op1_str), (op2_type, op2_str)) \<Rightarrow>
     if op1_type = STRING \<and> op2_type = STRING then
       (if rel_holds oper (strcmp op1_str op2_str) then ''y'' else ''n'')
     else (case (py_int op1_str (TYPE_TO_BASE op1_type), py_int op2_str (TYPE_TO_BASE op2_type)) of
         (Some x, Some y) \<Rightarrow> (if rel_holds oper (x - y) then ''y'' else ''n'')
       | _ \<Rightarrow> if oper \<noteq> EQUAL \<and> oper \<noteq> UNEQUAL then ''n''
              else (if rel_holds oper (strcmp op1_str op2_str) then ''y'' else ''n'')))"

definition eval_rel_c :: "cvals \<Rightarrow> config \<Rightarrow> relation \<Rightarrow> operand \<Rightarrow> operand \<Rightarrow> string cached" where
  "eval_rel_c vals cfg oper op1 op2 K = do {
     (a, K1) \<leftarrow> type_and_val_c vals cfg op1 K;
     (b, K2) \<leftarrow> type_and_val_c vals cfg op2 K1;
     Some (compare_operands oper a b, K2)
   }"

fun eval_expr_rec_c :: "cvals \<Rightarrow> config \<Rightarrow> expr \<Rightarrow> string cached" where
  "eval_expr_rec_c vals cfg (Leaf (SymRef s)) K =
     (if stype (the_sym cfg s) = BOOL \<or> stype (the_sym cfg s) = TRISTATE then vals s K
      else Some (''n'', K))"
| "eval_expr_rec_c vals cfg (Leaf (Const c)) K = Some (if c = ''m'' \<or> c = ''y'' then c else ''n'', K)"
| "eval_expr_rec_c vals cfg (Leaf NoOperand) K = None"
| "eval_expr_rec_c vals cfg (AND e1 e2) K = do {
     (ev1, K1) \<leftarrow> eval_expr_rec_c vals cfg e1 K;
     if ev1 = ''n'' then Some (''n'', K1)
     else do {
       (ev2, K2) \<leftarrow> eval_expr_rec_c vals cfg e2 K1;
       Some (if ev1 = ''y'' then ev2 else if ev2 \<noteq> ''n'' then ''m'' else ''n'', K2)
     }
   }"
| "eval_expr_rec_c vals cfg (OR e1 e2) K = do {
     (ev1, K1) \<leftarrow> eval_expr_rec_c vals cfg e1 K;
     if ev1 = ''y'' then Some (''y'', K1)
     else do {
       (ev2, K2) \<leftarrow> eval_expr_rec_c vals cfg e2 K1;
       Some (if ev1 = ''n'' then ev2 else if ev2 = ''y'' then ''y'' else ''m'', K2)
     }
   }"
| "eval_expr_rec_c vals cfg (NOT e) K = do {
     (ev, K1) \<leftarrow> eval_expr_rec_c vals cfg e K;
     Some (if ev = ''y'' then ''n'' else if ev = ''n'' then ''y'' else ''m'', K1)
   }"
| "eval_expr_rec_c vals cfg (REL oper op1 op2) K = eval_rel_c vals cfg oper op1 op2 K"

definition eval_expr_c :: "cvals \<Rightarrow> config \<Rightarrow> expr option \<Rightarrow> string cached" where
  "eval_expr_c vals cfg expr K =
     (case expr of None \<Rightarrow> Some (''y'', K) | Some e \<Rightarrow> eval_expr_rec_c vals cfg e K)"

definition eval_min_c :: "cvals \<Rightarrow> config \<Rightarrow> expr option \<Rightarrow> expr option \<Rightarrow> string cached" where
  "eval_min_c vals cfg e1 e2 K = do {
     (e1_eval, K1) \<leftarrow> eval_expr_c vals cfg e1 K;
     (e2_eval, K2) \<leftarrow> eval_expr_c vals cfg e2 K1;
     lt \<leftarrow> tri_less e1_eval e2_eval;
     Some (if lt then e1_eval else e2_eval, K2)
   }"

definition eval_max_c :: "cvals \<Rightarrow> config \<Rightarrow> expr option \<Rightarrow> expr option \<Rightarrow> string cached" where
  "eval_max_c vals cfg e1 e2 K = do {
     (e1_eval, K1) \<leftarrow> eval_expr_c vals cfg e1 K;
     (e2_eval, K2) \<leftarrow> eval_expr_c vals cfg e2 K1;
     gt \<leftarrow> tri_greater e1_eval e2_eval;
     Some (if gt then e1_eval else e2_eval, K2)
   }"

definition str_val_c :: "cvals \<Rightarrow> operand \<Rightarrow> string cached" where
  "str_val_c vals obj K =
     (case obj of Const c \<Rightarrow> Some (c, K) | SymRef s \<Rightarrow> vals s K | NoOperand \<Rightarrow> None)"

definition str_val_expr_c :: "cvals \<Rightarrow> expr \<Rightarrow> string cached" where
  "str_val_expr_c vals e K = (case e of Leaf obj \<Rightarrow> str_val_c vals obj K | _ \<Rightarrow> None)"

subsection \<open>Visibility, choice mode and selection\<close>

fun prompt_vis_c :: "cvals \<Rightarrow> config \<Rightarrow> string \<Rightarrow> prompt option list \<Rightarrow> string cached" where
  "prompt_vis_c vals cfg vis [] K = Some (vis, K)"
| "prompt_vis_c vals cfg vis (None # nds) K = prompt_vis_c vals cfg vis nds K"
| "prompt_vis_c vals cfg vis (Some (text, cond) # nds) K = do {
     (vis', K1) \<leftarrow> eval_max_c vals cfg (str_expr vis) cond K;
     prompt_vis_c vals cfg vis' nds K1
   }"

definition modules_value_c :: "cvals \<Rightarrow> string cached" where
  "modules_value_c vals K = vals ''MODULES'' K"

text \<open>\<^verbatim>\<open>_get_visibility\<close> of the choice \<open>ch\<close>, and the property \<^verbatim>\<open>Choice.visibility\<close>.\<close>

definition get_choice_visibility_c :: "cvals \<Rightarrow> config \<Rightarrow> choice_rec \<Rightarrow> string cached" where
  "get_choice_visibility_c vals cfg ch K = do {
     (vis, K1) \<leftarrow> prompt_vis_c vals cfg ''n'' (cnodes ch) K;
     if vis = ''m'' then
       (if ctype ch \<noteq> TRISTATE then Some (''y'', K1)
        else do { (mv, K2) \<leftarrow> modules_value_c vals K1; Some (if mv = ''n'' then ''y'' else vis, K2) })
     else Some (vis, K1)
   }"

definition Choice_visibility_c :: "cvals \<Rightarrow> config \<Rightarrow> nat \<Rightarrow> string cached" where
  "Choice_visibility_c vals cfg ci K =
    (case choice_cached_vis K ci of
       Some v \<Rightarrow> Some (v, K)
     | None \<Rightarrow> do {
         ch \<leftarrow> the_choice cfg ci;
         (v, K1) \<leftarrow> get_choice_visibility_c vals cfg ch K;
         Some (v, K1 \<lparr> choice_cached_vis := (choice_cached_vis K1)(ci \<mapsto> v) \<rparr>)
       })"

definition Choice_type_c :: "cvals \<Rightarrow> choice_rec \<Rightarrow> sym_type cached" where
  "Choice_type_c vals ch K =
     (if ctype ch = TRISTATE then
        do { (mv, K1) \<leftarrow> modules_value_c vals K; Some (if mv = ''n'' then BOOL else ctype ch, K1) }
      else Some (ctype ch, K))"

text \<open>\<^verbatim>\<open>Choice.value\<close> of the choice with index \<open>ci\<close>.\<close>

definition Choice_value_c :: "cvals \<Rightarrow> config \<Rightarrow> nat \<Rightarrow> string cached" where
  "Choice_value_c vals cfg ci K = do {
     ch \<leftarrow> the_choice cfg ci;
     (val, K1) \<leftarrow> (case cuser_value ch of
               Some uv \<Rightarrow> do { (vis, Ka) \<leftarrow> Choice_visibility_c vals cfg ci K;
                               eval_min_c vals cfg (str_expr uv) (str_expr vis) Ka }
             | None \<Rightarrow> Some (''n'', K));
     val \<leftarrow> Some (if val = ''n'' \<and> \<not> is_optional ch then ''m'' else val);
     if val = ''m'' then do { (t, K2) \<leftarrow> Choice_type_c vals ch K1; Some (if t = BOOL then ''y'' else val, K2) }
     else Some (val, K1)
   }"

text \<open>\<^verbatim>\<open>_get_visibility\<close> of the symbol \<open>name\<close>, and the property \<^verbatim>\<open>Symbol.visibility\<close>.\<close>

definition get_visibility_c :: "cvals \<Rightarrow> config \<Rightarrow> string \<Rightarrow> string cached" where
  "get_visibility_c vals cfg name K =
    (let sc = the_sym cfg name in do {
       (vis, K1) \<leftarrow> prompt_vis_c vals cfg ''n'' (nodes sc) K;
       (r, K2) \<leftarrow> (case choice sc of
               None \<Rightarrow> Some ((False, vis), K1)
             | Some ci \<Rightarrow> do {
                 ch \<leftarrow> the_choice cfg ci;
                 (hide1, Ka) \<leftarrow> (if ctype ch = TRISTATE \<and> stype sc \<noteq> TRISTATE
                           then do { (m, Ka) \<leftarrow> Choice_value_c vals cfg ci K1; Some (m \<noteq> ''y'', Ka) }
                           else Some (False, K1));
                 if hide1 then Some ((True, ''n''), Ka)
                 else do {
                   (hide2, Kb) \<leftarrow> (if stype sc = TRISTATE \<and> vis = ''m''
                             then do { (m, Kb) \<leftarrow> Choice_value_c vals cfg ci Ka; Some (m = ''y'', Kb) }
                             else Some (False, Ka));
                   if hide2 then Some ((True, ''n''), Kb)
                   else do {
                     (cvis, Kc) \<leftarrow> Choice_visibility_c vals cfg ci Kb;
                     (v, Kd) \<leftarrow> eval_min_c vals cfg (str_expr vis) (str_expr cvis) Kc;
                     Some ((False, v), Kd)
                   }
                 }
               });
       (case r of
          (True, v) \<Rightarrow> Some (v, K2)
        | (False, v) \<Rightarrow>
            if v = ''m'' then
              (if stype sc \<noteq> TRISTATE then Some (''y'', K2)
               else do { (mv, K3) \<leftarrow> modules_value_c vals K2; Some (if mv = ''n'' then ''y'' else v, K3) })
            else Some (v, K2))
     })"

definition Symbol_visibility_c :: "cvals \<Rightarrow> config \<Rightarrow> string \<Rightarrow> string cached" where
  "Symbol_visibility_c vals cfg name K =
    (case cached_vis K name of
       Some v \<Rightarrow> Some (v, K)
     | None \<Rightarrow> do {
         (v, K1) \<leftarrow> get_visibility_c vals cfg name K;
         Some (v, K1 \<lparr> cached_vis := (cached_vis K1)(name \<mapsto> v) \<rparr>)
       })"

definition Symbol_type_c :: "cvals \<Rightarrow> config \<Rightarrow> string \<Rightarrow> sym_type cached" where
  "Symbol_type_c vals cfg name K =
    (let self = the_sym cfg name in
     if stype self = TRISTATE then do {
       (in_y, K1) \<leftarrow> (case choice self of
                  None \<Rightarrow> Some (False, K)
                | Some ci \<Rightarrow> do { (m, K1) \<leftarrow> Choice_value_c vals cfg ci K; Some (m = ''y'', K1) });
       if in_y then Some (BOOL, K1)
       else do { (mv, K2) \<leftarrow> modules_value_c vals K1; Some (if mv = ''n'' then BOOL else stype self, K2) }
     }
     else Some (stype self, K))"

fun default_loop_c :: "cvals \<Rightarrow> config \<Rightarrow> (string \<times> expr option) list \<Rightarrow> string option cached" where
  "default_loop_c vals cfg [] K = Some (None, K)"
| "default_loop_c vals cfg ((nm, cond_expr) # ds) K = do {
     (c, K1) \<leftarrow> eval_expr_c vals cfg cond_expr K;
     if c \<noteq> ''n'' then do {
       (v, K2) \<leftarrow> Symbol_visibility_c vals cfg nm K1;
       if v \<noteq> ''n'' then Some (Some nm, K2) else default_loop_c vals cfg ds K2
     }
     else default_loop_c vals cfg ds K1
   }"

fun first_visible_c :: "cvals \<Rightarrow> config \<Rightarrow> string list \<Rightarrow> string option cached" where
  "first_visible_c vals cfg [] K = Some (None, K)"
| "first_visible_c vals cfg (nm # ss) K = do {
     (v, K1) \<leftarrow> Symbol_visibility_c vals cfg nm K;
     if v \<noteq> ''n'' then Some (Some nm, K1) else first_visible_c vals cfg ss K1
   }"

definition default_selection_c :: "cvals \<Rightarrow> config \<Rightarrow> choice_rec \<Rightarrow> string option cached" where
  "default_selection_c vals cfg ch K = do {
     (d, K1) \<leftarrow> default_loop_c vals cfg (cdefaults ch) K;
     (case d of Some nm \<Rightarrow> Some (Some nm, K1) | None \<Rightarrow> first_visible_c vals cfg (csyms ch) K1)
   }"

text \<open>The property \<^verbatim>\<open>Choice.selection\<close> of the choice with index \<open>ci\<close>.\<close>

definition Choice_selection_c :: "cvals \<Rightarrow> config \<Rightarrow> nat \<Rightarrow> string option cached" where
  "Choice_selection_c vals cfg ci K =
    (case cached_selection K ci of
       Some sel \<Rightarrow> Some (sel, K)
     | None \<Rightarrow> do {
         ch \<leftarrow> the_choice cfg ci;
         (m, K1) \<leftarrow> Choice_value_c vals cfg ci K;
         (sel, K2) \<leftarrow>
           (if m \<noteq> ''y'' then Some (None, K1)
            else (case user_selection ch of
                None \<Rightarrow> default_selection_c vals cfg ch K1
              | Some us \<Rightarrow> do {
                  (v, Ka) \<leftarrow> Symbol_visibility_c vals cfg us K1;
                  if v = ''y'' then Some (Some us, Ka) else default_selection_c vals cfg ch Ka
                }));
         Some (sel, K2 \<lparr> cached_selection := (cached_selection K2)(ci \<mapsto> sel) \<rparr>)
       })"

subsection \<open>Symbol.value\<close>

fun tri_defaults_c :: "cvals \<Rightarrow> config \<Rightarrow> (expr \<times> expr option) list \<Rightarrow> string option cached" where
  "tri_defaults_c vals cfg [] K = Some (None, K)"
| "tri_defaults_c vals cfg ((dflt, cond) # ds) K = do {
     (cond_val, K1) \<leftarrow> eval_expr_c vals cfg cond K;
     if cond_val \<noteq> ''n'' then do {
       (v, K2) \<leftarrow> eval_min_c vals cfg (Some dflt) (str_expr cond_val) K1;
       Some (Some v, K2)
     }
     else tri_defaults_c vals cfg ds K1
   }"

definition value_default_imply_c :: "cvals \<Rightarrow> config \<Rightarrow> symbol \<Rightarrow> string \<Rightarrow> (string \<times> bool) cached" where
  "value_default_imply_c vals cfg self vis K = do {
     (d, K1) \<leftarrow> tri_defaults_c vals cfg (defaults self) K;
     (val, w) \<leftarrow> Some (case d of None \<Rightarrow> (''n'', vis \<noteq> ''n'') | Some v \<Rightarrow> (v, True));
     (dd, K2) \<leftarrow> eval_expr_c vals cfg (Some (direct_deps self)) K1;
     if dd \<noteq> ''n'' then do {
       (weak_rev_dep_val, K3) \<leftarrow> eval_expr_c vals cfg (Some (weak_rev_dep self)) K2;
       if weak_rev_dep_val \<noteq> ''n'' then do {
         (v, K4) \<leftarrow> eval_max_c vals cfg (str_expr val) (str_expr weak_rev_dep_val) K3;
         Some ((v, True), K4)
       }
       else Some ((val, w), K3)
     }
     else Some ((val, w), K2)
   }"

definition value_plain_c :: "cvals \<Rightarrow> config \<Rightarrow> symbol \<Rightarrow> string \<Rightarrow> (string \<times> bool) cached" where
  "value_plain_c vals cfg self vis K = do {
     ((val, w), K1) \<leftarrow>
       (case (if vis \<noteq> ''n'' then user_value self else None) of
          Some uv \<Rightarrow> do {
            (v, K1) \<leftarrow> eval_min_c vals cfg (str_expr uv) (str_expr vis) K;
            Some ((v, vis \<noteq> ''n''), K1)
          }
        | None \<Rightarrow> value_default_imply_c vals cfg self vis K);
     (rev_dep_val, K2) \<leftarrow> eval_expr_c vals cfg (Some (rev_dep self)) K1;
     if rev_dep_val \<noteq> ''n'' then do {
       (v, K3) \<leftarrow> eval_max_c vals cfg (str_expr val) (str_expr rev_dep_val) K2;
       Some ((v, True), K3)
     }
     else Some ((val, w), K2)
   }"

definition value_in_choice_c ::
    "cvals \<Rightarrow> config \<Rightarrow> string \<Rightarrow> symbol \<Rightarrow> nat \<Rightarrow> string \<Rightarrow> (string \<times> bool) cached" where
  "value_in_choice_c vals cfg name self ci vis K =
    (if vis \<noteq> ''n'' then do {
       (mode, K1) \<leftarrow> Choice_value_c vals cfg ci K;
       if mode \<noteq> ''n'' then
         (if mode = ''y'' then do {
            (sel, K2) \<leftarrow> Choice_selection_c vals cfg ci K1;
            Some ((if sel = Some name then ''y'' else ''n'', True), K2)
          }
          else Some ((if user_value self = Some ''m'' \<or> user_value self = Some ''y''
                      then ''m'' else ''n'', True), K1))
       else Some ((''n'', False), K1)
     }
     else Some ((''n'', False), K))"

definition type_bool_or_weak_y_c :: "cvals \<Rightarrow> config \<Rightarrow> string \<Rightarrow> bool cached" where
  "type_bool_or_weak_y_c vals cfg name K = do {
     (t, K1) \<leftarrow> Symbol_type_c vals cfg name K;
     if t = BOOL then Some (True, K1)
     else do {
       (weak, K2) \<leftarrow> eval_expr_c vals cfg (Some (weak_rev_dep (the_sym cfg name))) K1;
       Some (weak = ''y'', K2)
     }
   }"

definition promote_c :: "cvals \<Rightarrow> config \<Rightarrow> string \<Rightarrow> string \<Rightarrow> string cached" where
  "promote_c vals cfg name val K =
    (if val = ''m'' then do {
       (b, K1) \<leftarrow> type_bool_or_weak_y_c vals cfg name K;
       Some (if b then ''y'' else val, K1)
     }
     else Some (val, K))"

fun active_range_c ::
    "cvals \<Rightarrow> config \<Rightarrow> nat \<Rightarrow> (operand \<times> operand \<times> expr option) list \<Rightarrow> (int \<times> int) option cached" where
  "active_range_c vals cfg base [] K = Some (None, K)"
| "active_range_c vals cfg base ((low_expr, high_expr, cond_expr) # rs) K = do {
     (c, K1) \<leftarrow> eval_expr_c vals cfg cond_expr K;
     if c \<noteq> ''n'' then do {
       (low_str, K2) \<leftarrow> str_val_c vals low_expr K1;
       (high_str, K3) \<leftarrow> str_val_c vals high_expr K2;
       Some (Some (case py_int low_str base of Some k \<Rightarrow> k | None \<Rightarrow> 0,
                   case py_int high_str base of Some k \<Rightarrow> k | None \<Rightarrow> 0), K3)
     }
     else active_range_c vals cfg base rs K1
   }"

fun num_defaults_c ::
    "cvals \<Rightarrow> config \<Rightarrow> sym_type \<Rightarrow> (int \<times> int) option \<Rightarrow> string \<times> bool \<Rightarrow>
     (expr \<times> expr option) list \<Rightarrow> (string \<times> bool) cached" where
  "num_defaults_c vals cfg t rng (val, w) [] K =
     Some (case rng of
             Some (low, high) \<Rightarrow> if low > 0 then (canonical t low, w) else (val, w)
           | None \<Rightarrow> (val, w), K)"
| "num_defaults_c vals cfg t rng (val, w) ((val_expr, cond_expr) # ds) K = do {
     (c, K1) \<leftarrow> eval_expr_c vals cfg cond_expr K;
     if c \<noteq> ''n'' then do {
       (v, K2) \<leftarrow> str_val_expr_c vals val_expr K1;
       (case py_int v (TYPE_TO_BASE t) of
          Some val_num \<Rightarrow> Some ((clamp_default t rng v val_num, True), K2)
        | None \<Rightarrow> num_defaults_c vals cfg t rng (v, True) ds K2)
     }
     else num_defaults_c vals cfg t rng (val, w) ds K1
   }"

definition value_num_c :: "cvals \<Rightarrow> config \<Rightarrow> symbol \<Rightarrow> string \<Rightarrow> (string \<times> bool) cached" where
  "value_num_c vals cfg self vis K = do {
     (rng, K1) \<leftarrow> active_range_c vals cfg (TYPE_TO_BASE (stype self)) (ranges self) K;
     (case (if vis \<noteq> ''n'' then user_value self else None) of
        Some uv \<Rightarrow>
          (case py_int uv (TYPE_TO_BASE (stype self)) of
             Some k \<Rightarrow>
               if (case rng of None \<Rightarrow> True | Some (low, high) \<Rightarrow> low \<le> k \<and> k \<le> high)
               then Some ((uv, vis \<noteq> ''n''), K1)
               else num_defaults_c vals cfg (stype self) rng ([], vis \<noteq> ''n'') (defaults self) K1
           | None \<Rightarrow> num_defaults_c vals cfg (stype self) rng ([], vis \<noteq> ''n'') (defaults self) K1)
      | None \<Rightarrow> num_defaults_c vals cfg (stype self) rng ([], vis \<noteq> ''n'') (defaults self) K1)
   }"

fun str_defaults_c ::
    "cvals \<Rightarrow> config \<Rightarrow> string \<times> bool \<Rightarrow> (expr \<times> expr option) list \<Rightarrow> (string \<times> bool) cached" where
  "str_defaults_c vals cfg (val, w) [] K = Some ((val, w), K)"
| "str_defaults_c vals cfg (val, w) ((val_expr, cond_expr) # ds) K = do {
     (c, K1) \<leftarrow> eval_expr_c vals cfg cond_expr K;
     if c \<noteq> ''n'' then do { (v, K2) \<leftarrow> str_val_expr_c vals val_expr K1; Some ((v, True), K2) }
     else str_defaults_c vals cfg (val, w) ds K1
   }"

definition value_str_c :: "cvals \<Rightarrow> config \<Rightarrow> symbol \<Rightarrow> string \<Rightarrow> (string \<times> bool) cached" where
  "value_str_c vals cfg self vis K =
    (case (if vis \<noteq> ''n'' then user_value self else None) of
       Some uv \<Rightarrow> Some ((uv, vis \<noteq> ''n''), K)
     | None \<Rightarrow> str_defaults_c vals cfg ([], vis \<noteq> ''n'') (defaults self) K)"

text \<open>
  The body of \<^verbatim>\<open>Symbol.value\<close> below the test of the slot, for a symbol of known type: the
  value and the flag \<^verbatim>\<open>_write_to_conf\<close>.
\<close>

definition calc_value_c :: "cvals \<Rightarrow> config \<Rightarrow> string \<Rightarrow> (string \<times> bool) cached" where
  "calc_value_c vals cfg name K =
    (let self = the_sym cfg name in do {
       (vis, K1) \<leftarrow> Symbol_visibility_c vals cfg name K;
       if stype self = BOOL \<or> stype self = TRISTATE then do {
         ((val, w), K2) \<leftarrow> (case choice self of
                        None \<Rightarrow> value_plain_c vals cfg self vis K1
                      | Some ci \<Rightarrow> value_in_choice_c vals cfg name self ci vis K1);
         (val', K3) \<leftarrow> promote_c vals cfg name val K2;
         Some ((val', w), K3)
       }
       else if stype self = INT_T \<or> stype self = HEX then value_num_c vals cfg self vis K1
       else value_str_c vals cfg self vis K1
     })"

text \<open>
  The property \<^verbatim>\<open>Symbol.value\<close>; \<open>d\<close> bounds the depth of nested computations of values, as
  in \<open>value_and_flag\<close>. A symbol of unknown type has its name as value.
\<close>

fun value_c :: "nat \<Rightarrow> config \<Rightarrow> string \<Rightarrow> string cached" where
  "value_c 0 cfg name K = None"
| "value_c (Suc d) cfg name K =
    (case cached_val K name of
       Some v \<Rightarrow> Some (v, K)
     | None \<Rightarrow>
        if stype (the_sym cfg name) = UNKNOWN then
          Some (name, K \<lparr> cached_val := (cached_val K)(name \<mapsto> name) \<rparr>)
        else do {
          ((v, w), K1) \<leftarrow> calc_value_c (value_c d cfg) cfg name K;
          Some (v, K1 \<lparr> cached_val := (cached_val K1)(name \<mapsto> v),
                        write_to_conf := (write_to_conf K1)(name := w) \<rparr>)
        })"

text \<open>The reads of the public interface at recursion bound \<open>d\<close>.\<close>

definition visibility_c :: "nat \<Rightarrow> config \<Rightarrow> string \<Rightarrow> string cached" where
  "visibility_c d cfg name = Symbol_visibility_c (value_c d cfg) cfg name"

definition type_c :: "nat \<Rightarrow> config \<Rightarrow> string \<Rightarrow> sym_type cached" where
  "type_c d cfg name = Symbol_type_c (value_c d cfg) cfg name"

definition eval_c :: "nat \<Rightarrow> config \<Rightarrow> expr option \<Rightarrow> string cached" where
  "eval_c d cfg e = eval_expr_c (value_c d cfg) cfg e"

definition mode_c :: "nat \<Rightarrow> config \<Rightarrow> nat \<Rightarrow> string cached" where
  "mode_c d cfg ci = Choice_value_c (value_c d cfg) cfg ci"

definition selection_c :: "nat \<Rightarrow> config \<Rightarrow> nat \<Rightarrow> string option cached" where
  "selection_c d cfg ci = Choice_selection_c (value_c d cfg) cfg ci"

subsection \<open>Symbol.assignable\<close>

definition get_assignable_c :: "cvals \<Rightarrow> config \<Rightarrow> string \<Rightarrow> string cached" where
  "get_assignable_c vals cfg name K =
    (let self = the_sym cfg name in
     if stype self \<noteq> BOOL \<and> stype self \<noteq> TRISTATE then Some ([], K)
     else do {
       (vis, K1) \<leftarrow> Symbol_visibility_c vals cfg name K;
       if vis = ''n'' then Some ([], K1)
       else do {
         (rev_dep_val, K2) \<leftarrow> eval_expr_c vals cfg (Some (rev_dep self)) K1;
         if vis = ''y'' then
           (if rev_dep_val = ''n'' then do {
              (b, K3) \<leftarrow> type_bool_or_weak_y_c vals cfg name K2;
              Some (if b then ''ny'' else ''nmy'', K3)
            }
            else if rev_dep_val = ''y'' then Some (''y'', K2)
            else do {
              (b, K3) \<leftarrow> type_bool_or_weak_y_c vals cfg name K2;
              Some (if b then ''y'' else ''my'', K3)
            })
         else
           (if rev_dep_val = ''n'' then do {
              (weak, K3) \<leftarrow> eval_expr_c vals cfg (Some (weak_rev_dep self)) K2;
              Some (if weak \<noteq> ''y'' then ''m'' else ''y'', K3)
            }
            else if rev_dep_val = ''y'' then Some (''y'', K2)
            else Some (''m'', K2))
       }
     })"

text \<open>The property \<^verbatim>\<open>Symbol.assignable\<close>.\<close>

definition Symbol_assignable_c :: "cvals \<Rightarrow> config \<Rightarrow> string \<Rightarrow> string cached" where
  "Symbol_assignable_c vals cfg name K =
    (case cached_assignable K name of
       Some a \<Rightarrow> Some (a, K)
     | None \<Rightarrow> do {
         (a, K1) \<leftarrow> get_assignable_c vals cfg name K;
         Some (a, K1 \<lparr> cached_assignable := (cached_assignable K1)(name \<mapsto> a) \<rparr>)
       })"

definition assignable_c :: "nat \<Rightarrow> config \<Rightarrow> string \<Rightarrow> string cached" where
  "assignable_c d cfg name = Symbol_assignable_c (value_c d cfg) cfg name"

subsection \<open>Invalidation\<close>

text \<open>
  \<^verbatim>\<open>_expr_syms\<close>: the symbols of an expression, and of an operand of a range. (An operand
  that is neither a symbol nor a string has none here.)
\<close>

fun operand_syms :: "operand \<Rightarrow> string list" where
  "operand_syms (SymRef s) = [s]"
| "operand_syms _ = []"

fun expr_syms_rec :: "expr \<Rightarrow> string list" where
  "expr_syms_rec (Leaf obj) = operand_syms obj"
| "expr_syms_rec (AND e1 e2) = expr_syms_rec e1 @ expr_syms_rec e2"
| "expr_syms_rec (OR e1 e2) = expr_syms_rec e1 @ expr_syms_rec e2"
| "expr_syms_rec (NOT e) = expr_syms_rec e"
| "expr_syms_rec (REL oper op1 op2) = operand_syms op1 @ operand_syms op2"

definition expr_syms :: "expr option \<Rightarrow> string list" where
  "expr_syms e = (case e of None \<Rightarrow> [] | Some x \<Rightarrow> expr_syms_rec x)"

text \<open>
  The symbols that \<^verbatim>\<open>_build_dep\<close> finds in the properties of the defined symbol \<open>nm\<close>: those
  get \<open>nm\<close> into their \<^verbatim>\<open>_direct_dependents\<close>.
\<close>

definition prompt_syms :: "prompt option list \<Rightarrow> string list" where
  "prompt_syms nds = concat (map (\<lambda>nd. case nd of None \<Rightarrow> [] | Some (text, cond) \<Rightarrow> expr_syms cond) nds)"

definition mentioned_syms :: "config \<Rightarrow> string \<Rightarrow> string list" where
  "mentioned_syms cfg nm =
    (let sy = the_sym cfg nm in
       prompt_syms (nodes sy)
     @ concat (map (\<lambda>(v, cond). expr_syms (Some v) @ expr_syms cond) (defaults sy))
     @ expr_syms (Some (rev_dep sy))
     @ expr_syms (Some (weak_rev_dep sy))
     @ concat (map (\<lambda>(l, u, e). operand_syms l @ operand_syms u @ expr_syms e) (ranges sy))
     @ expr_syms (Some (direct_deps sy))
     @ (case choice sy of
          None \<Rightarrow> []
        | Some ci \<Rightarrow> (case the_choice cfg ci of
            None \<Rightarrow> []
          | Some ch \<Rightarrow> prompt_syms (cnodes ch) @ concat (map (\<lambda>(s, e). expr_syms e) (cdefaults ch)))))"

text \<open>\<^verbatim>\<open>Symbol._direct_dependents\<close> of the symbol \<open>s\<close>, as \<^verbatim>\<open>_build_dep\<close> leaves it.\<close>

definition direct_dependents :: "config \<Rightarrow> string \<Rightarrow> string list" where
  "direct_dependents cfg s = filter (\<lambda>nm. s \<in> set (mentioned_syms cfg nm)) (defined_syms cfg)"

text \<open>
  What \<^verbatim>\<open>_get_dependent\<close> returns: symbols and choices. The recursion of the code has no
  bound (it does not end on a cycle of dependencies); \<open>f\<close> bounds its depth here.
\<close>

datatype dependent = DSym string | DChoice nat

fun get_dependent :: "nat \<Rightarrow> config \<Rightarrow> string \<Rightarrow> dependent list option" where
  "get_dependent 0 cfg s = None"
| "get_dependent (Suc f) cfg s = do {
     below \<leftarrow> those (map (get_dependent f cfg) (direct_dependents cfg s));
     res \<leftarrow> Some (map DSym (direct_dependents cfg s) @ concat below);
     (case choice (the_sym cfg s) of
        None \<Rightarrow> Some res
      | Some ci \<Rightarrow> do {
          ch \<leftarrow> the_choice cfg ci;
          sib \<leftarrow> those (map (\<lambda>sibling. do {
                   b \<leftarrow> those (map (get_dependent f cfg) (direct_dependents cfg sibling));
                   Some (DSym sibling # map DSym (direct_dependents cfg sibling) @ concat b)
                 }) (filter (\<lambda>sibling. sibling \<noteq> s) (csyms ch)));
          Some (res @ [DChoice ci] @ concat sib)
        })
   }"

text \<open>\<^verbatim>\<open>Symbol._invalidate\<close>, \<^verbatim>\<open>Choice._invalidate\<close>, \<^verbatim>\<open>_rec_invalidate\<close> and \<^verbatim>\<open>_invalidate_all\<close>.\<close>

definition invalidate_sym :: "string \<Rightarrow> caches \<Rightarrow> caches" where
  "invalidate_sym s K = K \<lparr> cached_val := (cached_val K)(s := None),
     cached_vis := (cached_vis K)(s := None),
     cached_assignable := (cached_assignable K)(s := None) \<rparr>"

definition invalidate_choice :: "nat \<Rightarrow> caches \<Rightarrow> caches" where
  "invalidate_choice ci K = K \<lparr> cached_selection := (cached_selection K)(ci := None),
     choice_cached_vis := (choice_cached_vis K)(ci := None) \<rparr>"

fun invalidate_item :: "dependent \<Rightarrow> caches \<Rightarrow> caches" where
  "invalidate_item (DSym s) K = invalidate_sym s K"
| "invalidate_item (DChoice ci) K = invalidate_choice ci K"

definition rec_invalidate :: "nat \<Rightarrow> config \<Rightarrow> string \<Rightarrow> caches \<Rightarrow> caches option" where
  "rec_invalidate f cfg s K =
     map_option (\<lambda>deps. fold invalidate_item deps (invalidate_sym s K)) (get_dependent f cfg s)"

definition invalidate_all :: "config \<Rightarrow> caches \<Rightarrow> caches" where
  "invalidate_all cfg K =
     fold invalidate_choice [0 ..< length (choices cfg)] (fold invalidate_sym (defined_syms cfg) K)"

subsection \<open>Setting and resetting user values\<close>

text \<open>
  \<^verbatim>\<open>Symbol.set_value\<close> (which invalidates every slot when the symbol is MODULES, and the
  slots of the symbol and its dependents otherwise), \<^verbatim>\<open>Symbol.unset_value\<close> (which
  invalidates the slots of the symbol and its dependents, also for MODULES) and
  \<^verbatim>\<open>Config.unset_values\<close>.
\<close>

definition set_value_c ::
    "nat \<Rightarrow> config \<Rightarrow> caches \<Rightarrow> string \<Rightarrow> string \<Rightarrow> (config \<times> warning list \<times> caches) option" where
  "set_value_c f cfg K name v =
    (let (cfg', ws) = set_value cfg name v in
     if name = ''MODULES'' then Some (cfg', ws, invalidate_all cfg' K)
     else map_option (\<lambda>K'. (cfg', ws, K')) (rec_invalidate f cfg' name K))"

definition unset_value_c :: "nat \<Rightarrow> config \<Rightarrow> caches \<Rightarrow> string \<Rightarrow> (config \<times> caches) option" where
  "unset_value_c f cfg K name =
     map_option (\<lambda>K'. (unset_value cfg name, K')) (rec_invalidate f (unset_value cfg name) name K)"

definition unset_values_c :: "config \<Rightarrow> caches \<Rightarrow> config \<times> caches" where
  "unset_values_c cfg K = (unset_values cfg, invalidate_all cfg K)"

section \<open>Notions used in the statements and proofs\<close>

text \<open>
  \<open>opt_le a b\<close>: the call with result \<open>b\<close> returns whatever the call with result \<open>a\<close> returns.
  \<open>vals_le\<close> lifts this to the values of all symbols.
\<close>

definition opt_le :: "'a option \<Rightarrow> 'a option \<Rightarrow> bool" where
  "opt_le a b = (a = None \<or> a = b)"

definition vals_le :: "vals \<Rightarrow> vals \<Rightarrow> bool" where
  "vals_le v1 v2 = (\<forall>s. opt_le (v1 s) (v2 s))"

text \<open>The values that \<open>vals\<close> gives to bool and tristate symbols are tristate values.\<close>

definition tri_vals :: "vals \<Rightarrow> config \<Rightarrow> bool" where
  "tri_vals vals cfg = (\<forall>s v. (stype (the_sym cfg s) = BOOL \<or> stype (the_sym cfg s) = TRISTATE)
      \<longrightarrow> vals s = Some v \<longrightarrow> is_tri v)"

subsection \<open>Example configurations\<close>

text \<open>The attributes \<^verbatim>\<open>Config.__init__\<close> sets before parsing, with an empty symbol table.\<close>

definition Config_init :: config where
  "Config_init = \<lparr> syms = Map.empty, defined_syms = [], choices = [],
     config_prefix = ''CONFIG_'', srctree = None, defconfig_list = None,
     print_warnings = True, print_undef_assign = False, top_list = [],
     top_prompt = ''Linux Kernel Configuration'' \<rparr>"

text \<open>
  \<^verbatim>\<open>config MODULES / bool "modules" / default y\<close>,
  \<^verbatim>\<open>config A / bool "a" / default y / select B\<close>,
  \<^verbatim>\<open>config B / tristate "b"\<close>, \<^verbatim>\<open>config S / string "s" / default "text"\<close>.
\<close>

definition cfg_select :: config where
  "cfg_select = Config_init \<lparr>
     syms := [
       ''MODULES'' \<mapsto> Symbol_init \<lparr> stype := BOOL, defaults := [(Leaf (Const ''y''), None)],
          direct_deps := Leaf (Const ''y''), nodes := [Some (''modules'', None)] \<rparr>,
       ''A'' \<mapsto> Symbol_init \<lparr> stype := BOOL, defaults := [(Leaf (Const ''y''), None)],
          direct_deps := Leaf (Const ''y''), nodes := [Some (''a'', None)] \<rparr>,
       ''B'' \<mapsto> Symbol_init \<lparr> stype := TRISTATE, rev_dep := Leaf (SymRef ''A''),
          direct_deps := Leaf (Const ''y''), nodes := [Some (''b'', None)] \<rparr>,
       ''S'' \<mapsto> Symbol_init \<lparr> stype := STRING, defaults := [(Leaf (Const ''text''), None)],
          direct_deps := Leaf (Const ''y''), nodes := [Some (''s'', None)] \<rparr>],
     defined_syms := [''MODULES'', ''A'', ''B'', ''S''],
     top_list := [MenuNode (ISym ''MODULES'') (Some (''modules'', None)) None None [],
                  MenuNode (ISym ''A'') (Some (''a'', None)) None None [],
                  MenuNode (ISym ''B'') (Some (''b'', None)) None None [],
                  MenuNode (ISym ''S'') (Some (''s'', None)) None None []] \<rparr>"

text \<open>
  A configuration with three choices (MODULES and A as in \<open>cfg_select\<close>):
  \<^verbatim>\<open>choice / bool "c0"\<close> with the members \<^verbatim>\<open>config X / bool "x"\<close> and \<^verbatim>\<open>config Y / bool "y"\<close>,
  where A has \<^verbatim>\<open>select Y\<close>;
  \<^verbatim>\<open>choice / bool "c1"\<close> with the members \<^verbatim>\<open>config P / bool\<close> and \<^verbatim>\<open>config Q / bool\<close>, which
  have no prompt;
  \<^verbatim>\<open>choice / tristate "c2"\<close> with the members \<^verbatim>\<open>config T1 / tristate "t1"\<close> and
  \<^verbatim>\<open>config T2 / tristate "t2"\<close>, where A has \<^verbatim>\<open>imply T1\<close>, after both members were set
  to "m".
\<close>

definition cfg_choice :: config where
  "cfg_choice = Config_init \<lparr>
     syms := [
       ''MODULES'' \<mapsto> Symbol_init \<lparr> stype := BOOL, defaults := [(Leaf (Const ''y''), None)],
          direct_deps := Leaf (Const ''y''), nodes := [Some (''modules'', None)] \<rparr>,
       ''A'' \<mapsto> Symbol_init \<lparr> stype := BOOL, defaults := [(Leaf (Const ''y''), None)],
          direct_deps := Leaf (Const ''y''), nodes := [Some (''a'', None)] \<rparr>,
       ''X'' \<mapsto> Symbol_init \<lparr> stype := BOOL, direct_deps := Leaf (Const ''y''),
          choice := Some 0, nodes := [Some (''x'', None)] \<rparr>,
       ''Y'' \<mapsto> Symbol_init \<lparr> stype := BOOL, rev_dep := Leaf (SymRef ''A''),
          direct_deps := Leaf (Const ''y''), choice := Some 0, nodes := [Some (''y'', None)] \<rparr>,
       ''P'' \<mapsto> Symbol_init \<lparr> stype := BOOL, direct_deps := Leaf (Const ''y''),
          choice := Some 1, nodes := [None] \<rparr>,
       ''Q'' \<mapsto> Symbol_init \<lparr> stype := BOOL, direct_deps := Leaf (Const ''y''),
          choice := Some 1, nodes := [None] \<rparr>,
       ''T1'' \<mapsto> Symbol_init \<lparr> stype := TRISTATE, weak_rev_dep := Leaf (SymRef ''A''),
          direct_deps := Leaf (Const ''y''), user_value := Some ''m'', choice := Some 2,
          nodes := [Some (''t1'', None)] \<rparr>,
       ''T2'' \<mapsto> Symbol_init \<lparr> stype := TRISTATE, direct_deps := Leaf (Const ''y''),
          user_value := Some ''m'', choice := Some 2, nodes := [Some (''t2'', None)] \<rparr>],
     defined_syms := [''MODULES'', ''A'', ''X'', ''Y'', ''P'', ''Q'', ''T1'', ''T2''],
     choices := [
       \<lparr> ctype = BOOL, csyms = [''X'', ''Y''], cdefaults = [], is_optional = False,
         cuser_value = None, user_selection = None, cnodes = [Some (''c0'', None)] \<rparr>,
       \<lparr> ctype = BOOL, csyms = [''P'', ''Q''], cdefaults = [], is_optional = False,
         cuser_value = None, user_selection = None, cnodes = [Some (''c1'', None)] \<rparr>,
       \<lparr> ctype = TRISTATE, csyms = [''T1'', ''T2''], cdefaults = [], is_optional = False,
         cuser_value = Some ''m'', user_selection = None, cnodes = [Some (''c2'', None)] \<rparr>],
     top_list := [
       MenuNode (ISym ''MODULES'') (Some (''modules'', None)) None None [],
       MenuNode (ISym ''A'') (Some (''a'', None)) None None [],
       MenuNode (IChoice 0) (Some (''c0'', None)) None None
         [MenuNode (ISym ''X'') (Some (''x'', None)) None None [],
          MenuNode (ISym ''Y'') (Some (''y'', None)) None None []],
       MenuNode (IChoice 1) (Some (''c1'', None)) None None
         [MenuNode (ISym ''P'') None None None [],
          MenuNode (ISym ''Q'') None None None []],
       MenuNode (IChoice 2) (Some (''c2'', None)) None None
         [MenuNode (ISym ''T1'') (Some (''t1'', None)) None None [],
          MenuNode (ISym ''T2'') (Some (''t2'', None)) None None []]] \<rparr>"

text \<open>
  The first default whose condition does not evaluate to "n", as the specification words
  it: \<open>Some None\<close> when there is none, else its string value.
\<close>

fun first_active_default ::
    "vals \<Rightarrow> config \<Rightarrow> (expr \<times> expr option) list \<Rightarrow> string option option" where
  "first_active_default vals cfg [] = Some None"
| "first_active_default vals cfg ((val_expr, cond_expr) # ds) = do {
     c \<leftarrow> eval_expr vals cfg cond_expr;
     if c \<noteq> ''n'' then do { v \<leftarrow> str_val_expr vals val_expr; Some (Some v) }
     else first_active_default vals cfg ds
   }"

definition first_default_of :: "nat \<Rightarrow> config \<Rightarrow> string \<Rightarrow> string option option" where
  "first_default_of d cfg name =
     first_active_default (Symbol_value d cfg) cfg (defaults (the_sym cfg name))"

text \<open>
  Scenario 5 of the specification, \<^verbatim>\<open>config N / int / range 10 20 / default 5\<close>, with the
  user value \<open>uv\<close> of N; with \<open>has_prompt\<close> the type line is \<^verbatim>\<open>int "n"\<close>. The tokenizer turns
  the numbers 5, 10 and 20 into undefined symbols.
\<close>

definition cfg_range :: "bool \<Rightarrow> string option \<Rightarrow> config" where
  "cfg_range has_prompt uv = Config_init \<lparr>
     syms := [
       ''MODULES'' \<mapsto> Symbol_init,
       ''5'' \<mapsto> Symbol_init, ''10'' \<mapsto> Symbol_init, ''20'' \<mapsto> Symbol_init,
       ''N'' \<mapsto> Symbol_init \<lparr> stype := INT_T,
          defaults := [(Leaf (SymRef ''5''), None)],
          ranges := [(SymRef ''10'', SymRef ''20'', None)],
          direct_deps := Leaf (Const ''y''), user_value := uv,
          nodes := [if has_prompt then Some (''n'', None) else None] \<rparr>],
     defined_syms := [''N''],
     top_list := [MenuNode (ISym ''N'') (if has_prompt then Some (''n'', None) else None)
                    None None []] \<rparr>"

text \<open>
  \<^verbatim>\<open>config K / int "k" / default "abc" / default 7\<close>: the first default is not a
  number.
\<close>

definition cfg_two_defaults :: config where
  "cfg_two_defaults = Config_init \<lparr>
     syms := [
       ''MODULES'' \<mapsto> Symbol_init, ''7'' \<mapsto> Symbol_init,
       ''K'' \<mapsto> Symbol_init \<lparr> stype := INT_T,
          defaults := [(Leaf (Const ''abc''), None), (Leaf (SymRef ''7''), None)],
          direct_deps := Leaf (Const ''y''), nodes := [Some (''k'', None)] \<rparr>],
     defined_syms := [''K''],
     top_list := [MenuNode (ISym ''K'') (Some (''k'', None)) None None []] \<rparr>"

text \<open>
  \<^verbatim>\<open>mainmenu "$FOO"\<close>, \<^verbatim>\<open>config FOO / string / default "$BAR"\<close>,
  \<^verbatim>\<open>config BAR / string / default "x"\<close>.
\<close>

definition cfg_refs :: config where
  "cfg_refs = Config_init \<lparr>
     syms := [
       ''MODULES'' \<mapsto> Symbol_init,
       ''FOO'' \<mapsto> Symbol_init \<lparr> stype := STRING, defaults := [(Leaf (Const ''$BAR''), None)],
          direct_deps := Leaf (Const ''y''), nodes := [None] \<rparr>,
       ''BAR'' \<mapsto> Symbol_init \<lparr> stype := STRING, defaults := [(Leaf (Const ''x''), None)],
          direct_deps := Leaf (Const ''y''), nodes := [None] \<rparr>],
     defined_syms := [''FOO'', ''BAR''],
     top_list := [MenuNode (ISym ''FOO'') None None None [],
                  MenuNode (ISym ''BAR'') None None None []],
     top_prompt := ''$FOO'' \<rparr>"

text \<open>
  A world with \<^verbatim>\<open>srctree=/src\<close> and \<^verbatim>\<open>ARCH=arm\<close>, and the configuration constructed in it
  from
  \<^verbatim>\<open>config ARCH / string / option env="ARCH"\<close>,
  \<^verbatim>\<open>config DEFCONFIG_LIST / string / option defconfig_list / default "arch/$ARCH/defconfig"\<close>,
  \<^verbatim>\<open>config A / bool "a"\<close>.
\<close>

definition world_env :: world where
  "world_env = \<lparr> environ = [''srctree'' \<mapsto> ''/src'', ''ARCH'' \<mapsto> ''arm''],
                 files = [''/src/.config'' \<mapsto> ''CONFIG_A=y'' @ [newline],
                          ''/other/.config'' \<mapsto> ''CONFIG_A=n'' @ [newline],
                          ''/src/arch/arm/defconfig'' \<mapsto> [],
                          ''/other/arch/x86/defconfig'' \<mapsto> []] \<rparr>"

definition cfg_env_in :: "world \<Rightarrow> config" where
  "cfg_env_in w =
    (let c0 = Config_new w ''6.1.0'' True;
         c1 = c0 \<lparr> syms := (syms c0)(
                 ''ARCH'' \<mapsto> Symbol_init \<lparr> stype := STRING, direct_deps := Leaf (Const ''y''),
                    nodes := [None] \<rparr>,
                 ''DEFCONFIG_LIST'' \<mapsto> Symbol_init \<lparr> stype := STRING,
                    defaults := [(Leaf (Const ''arch/$ARCH/defconfig''), None)],
                    direct_deps := Leaf (Const ''y''), nodes := [None] \<rparr>,
                 ''A'' \<mapsto> Symbol_init \<lparr> stype := BOOL, direct_deps := Leaf (Const ''y''),
                    nodes := [Some (''a'', None)] \<rparr>),
               defined_syms := [''ARCH'', ''DEFCONFIG_LIST'', ''A''],
               defconfig_list := Some ''DEFCONFIG_LIST'',
               top_list := [MenuNode (ISym ''ARCH'') None None None [],
                            MenuNode (ISym ''DEFCONFIG_LIST'') None None None [],
                            MenuNode (ISym ''A'') (Some (''a'', None)) None None []] \<rparr>;
         (c2, dflts, ws) = option_env w c1 ''ARCH'' ''ARCH'' []
     in add_defaults c2 ''ARCH'' dflts None)"

text \<open>
  Two programs on that configuration: the same operations, the second with changes of the
  environment between them.
\<close>

definition acts_plain :: "action list" where
  "acts_plain = [Op (Load_config ''.config'' True), Op (Get_value ''A''), Op (Get_value ''ARCH''),
                 Op Defconfig_filename]"

definition acts_mutating :: "action list" where
  "acts_mutating = [Putenv ''srctree'' ''/other'', Putenv ''ARCH'' ''x86'',
                    Op (Load_config ''.config'' True), Putenv ''CONFIG_'' ''X_'', Op (Get_value ''A''),
                    Unsetenv ''ARCH'', Op (Get_value ''ARCH''), Op Defconfig_filename]"

subsection \<open>Writing a configuration and loading it back\<close>

text \<open>
  \<^verbatim>\<open>write_config\<close> with the header \<open>header\<close> followed by \<^verbatim>\<open>load_config\<close> of the file written,
  with \<^verbatim>\<open>replace=True\<close>: the state after the load and the warnings of the load; \<open>None\<close> when
  \<^verbatim>\<open>write_config\<close> raises.
\<close>

definition round_trip :: "nat \<Rightarrow> config \<Rightarrow> string \<Rightarrow> (config \<times> warning list) option" where
  "round_trip d cfg header =
     map_option (\<lambda>contents. load_config cfg contents True) (write_config d cfg header)"

text \<open>The symbols of the nodes of a menu tree, in the order of the tree walk.\<close>

fun tree_syms :: "menunode list \<Rightarrow> string list" where
  "tree_syms [] = []"
| "tree_syms (MenuNode it prompt dep vis children # rest) =
     (case it of ISym s \<Rightarrow> [s] | _ \<Rightarrow> []) @ tree_syms children @ tree_syms rest"

text \<open>The titles of the menus and comments of a menu tree.\<close>

fun tree_titles :: "menunode list \<Rightarrow> string list" where
  "tree_titles [] = []"
| "tree_titles (MenuNode it prompt dep vis children # rest) =
     (case prompt of
        Some (title, cond) \<Rightarrow> (case it of MENU \<Rightarrow> [title] | COMMENT \<Rightarrow> [title] | _ \<Rightarrow> [])
      | None \<Rightarrow> [])
     @ tree_titles children @ tree_titles rest"

text \<open>
  A value that the line written for a symbol of type \<open>t\<close> gives back: a string without
  line terminator; a number in the base of the type (which \<^verbatim>\<open>_set_value_no_invalidate\<close>
  accepts) without line terminator and without trailing whitespace (which the load strips
  from the line). A bool or tristate value always is.
\<close>

definition single_line :: "string \<Rightarrow> bool" where
  "single_line s = (newline \<notin> set s \<and> carriage_return \<notin> set s)"

definition value_fits_line :: "sym_type \<Rightarrow> string \<Rightarrow> bool" where
  "value_fits_line t v =
    (if t = STRING then single_line v
     else if t = INT_T \<or> t = HEX then single_line v \<and> rstrip v = v \<and> is_base_n v (TYPE_TO_BASE t)
     else True)"

text \<open>
  The symbol that \<^verbatim>\<open>load_config\<close> takes the line \<open>raw\<close> to be about (by either pattern),
  and whether no line of a text is about the symbol \<open>name\<close>.
\<close>

definition line_target :: "string \<Rightarrow> string \<Rightarrow> string option" where
  "line_target pfx raw =
    (case set_re_match pfx (rstrip raw) of
       Some (name, val) \<Rightarrow> Some name
     | None \<Rightarrow> unset_re_match pfx (rstrip raw))"

definition inert :: "string \<Rightarrow> string \<Rightarrow> string \<Rightarrow> bool" where
  "inert pfx name contents = list_all (\<lambda>l. line_target pfx l \<noteq> Some name) (file_lines [] contents)"

text \<open>The symbol that a warning is about.\<close>

fun warning_name :: "warning \<Rightarrow> string option" where
  "warning_name (Undef_assign_load v n) = Some n"
| "warning_name Malformed_string_literal = None"
| "warning_name (Changes_choice_mode n v m) = Some n"
| "warning_name (Set_more_than_once n old v) = Some n"
| "warning_name (Invalid_value v n t) = Some n"
| "warning_name (Undef_assign_no_effect v n) = Some n"
| "warning_name (Promptless_assign v n) = Some n"
| "warning_name (No_symbol_in_configuration n) = Some n"
| "warning_name (Nonexistent_env_var n var) = Some n"

text \<open>The file that \<^verbatim>\<open>write_config\<close> writes for \<open>cfg_select\<close> with the default header.\<close>

definition cfg_select_file :: string where
  "cfg_select_file = default_header
     @ ''CONFIG_MODULES=y'' @ [newline]
     @ ''CONFIG_A=y'' @ [newline]
     @ ''CONFIG_B=y'' @ [newline]
     @ ''CONFIG_S='' @ [dquote] @ ''text'' @ [dquote, newline]"

text \<open>\<^verbatim>\<open>config N / int "n"\<close>: a visible int symbol without default.\<close>

definition cfg_int :: config where
  "cfg_int = Config_init \<lparr>
     syms := [''N'' \<mapsto> Symbol_init \<lparr> stype := INT_T, direct_deps := Leaf (Const ''y''),
                nodes := [Some (''n'', None)] \<rparr>],
     defined_syms := [''N''],
     top_list := [MenuNode (ISym ''N'') (Some (''n'', None)) None None []] \<rparr>"

section \<open>Basic properties of the engine\<close>

subsection \<open>A deeper recursion bound returns the same results\<close>

lemma opt_le_refl: "opt_le a a"
  by (simp add: opt_le_def)

lemma opt_leD: "opt_le a b \<Longrightarrow> a = Some r \<Longrightarrow> b = Some r"
  by (auto simp: opt_le_def)

lemma opt_le_vals: "vals_le v1 v2 \<Longrightarrow> opt_le (v1 s) (v2 s)"
  by (simp add: vals_le_def)

lemma opt_le_bind:
  "opt_le m1 m2 \<Longrightarrow> (\<And>x. opt_le (f1 x) (f2 x)) \<Longrightarrow> opt_le (Option.bind m1 f1) (Option.bind m2 f2)"
  by (cases m1) (fastforce simp: opt_le_def)+

lemma opt_le_if:
  "(c \<Longrightarrow> opt_le a1 a2) \<Longrightarrow> (\<not> c \<Longrightarrow> opt_le b1 b2) \<Longrightarrow>
   opt_le (if c then a1 else b1) (if c then a2 else b2)"
  by simp

lemma opt_le_case_option:
  "opt_le a1 a2 \<Longrightarrow> (\<And>x. opt_le (f1 x) (f2 x)) \<Longrightarrow>
   opt_le (case_option a1 f1 z) (case_option a2 f2 z)"
  by (cases z) auto

lemma opt_le_case_prod:
  "(\<And>x y. opt_le (f1 x y) (f2 x y)) \<Longrightarrow> opt_le (case_prod f1 p) (case_prod f2 p)"
  by (cases p) auto

lemma opt_le_case_bool:
  "opt_le a1 a2 \<Longrightarrow> opt_le b1 b2 \<Longrightarrow> opt_le (case_bool a1 b1 z) (case_bool a2 b2 z)"
  by (cases z) auto

lemma opt_le_case_operand:
  "(\<And>x. opt_le (f1 x) (f2 x)) \<Longrightarrow> (\<And>x. opt_le (g1 x) (g2 x)) \<Longrightarrow> opt_le h1 h2 \<Longrightarrow>
   opt_le (case_operand f1 g1 h1 z) (case_operand f2 g2 h2 z)"
  by (cases z) auto

lemma opt_le_case_expr:
  "(\<And>x. opt_le (f1 x) (f2 x)) \<Longrightarrow> opt_le (case_expr f1 g1 g2 g3 g4 z) (case_expr f2 g1 g2 g3 g4 z)"
  by (cases z) (auto simp: opt_le_refl)

lemmas opt_le_intros = opt_le_refl opt_le_bind opt_le_if opt_le_case_option opt_le_case_prod
  opt_le_case_bool opt_le_case_operand opt_le_case_expr

lemma mono_type_and_val:
  assumes le: "vals_le v1 v2"
  shows "opt_le (type_and_val v1 cfg a) (type_and_val v2 cfg a)"
  unfolding type_and_val_def by (intro opt_le_intros opt_le_vals[OF le])

lemma mono_eval_rel:
  "vals_le v1 v2 \<Longrightarrow> opt_le (eval_rel v1 cfg oper a b) (eval_rel v2 cfg oper a b)"
  unfolding eval_rel_def by (intro opt_le_intros mono_type_and_val)

lemma mono_eval_expr_rec:
  assumes le: "vals_le v1 v2"
  shows "opt_le (eval_expr_rec v1 cfg e) (eval_expr_rec v2 cfg e)"
proof (induction e)
  case (Leaf x)
  then show ?case by (cases x) (auto intro!: opt_le_intros opt_le_vals[OF le])
next
  case (AND e1 e2)
  then show ?case by (auto intro!: opt_le_intros)
next
  case (OR e1 e2)
  then show ?case by (auto intro!: opt_le_intros)
next
  case (NOT e)
  then show ?case by (auto intro!: opt_le_intros)
next
  case (REL x1 x2 x3)
  then show ?case by (simp add: mono_eval_rel[OF le])
qed

lemma mono_eval_expr:
  "vals_le v1 v2 \<Longrightarrow> opt_le (eval_expr v1 cfg e) (eval_expr v2 cfg e)"
  unfolding eval_expr_def by (intro opt_le_intros mono_eval_expr_rec)

lemma mono_eval_min:
  "vals_le v1 v2 \<Longrightarrow> opt_le (eval_min v1 cfg a b) (eval_min v2 cfg a b)"
  unfolding eval_min_def by (intro opt_le_intros mono_eval_expr)

lemma mono_eval_max:
  "vals_le v1 v2 \<Longrightarrow> opt_le (eval_max v1 cfg a b) (eval_max v2 cfg a b)"
  unfolding eval_max_def by (intro opt_le_intros mono_eval_expr)

lemma mono_str_val:
  assumes le: "vals_le v1 v2"
  shows "opt_le (str_val v1 a) (str_val v2 a)"
  unfolding str_val_def by (intro opt_le_intros opt_le_vals[OF le])

lemma mono_str_val_expr:
  "vals_le v1 v2 \<Longrightarrow> opt_le (str_val_expr v1 e) (str_val_expr v2 e)"
  unfolding str_val_expr_def by (intro opt_le_intros mono_str_val)

lemma mono_prompt_vis:
  assumes le: "vals_le v1 v2"
  shows "opt_le (prompt_vis v1 cfg vis nds) (prompt_vis v2 cfg vis nds)"
proof (induction nds arbitrary: vis)
  case Nil
  then show ?case by (simp add: opt_le_refl)
next
  case (Cons nd nds)
  show ?case
  proof (cases nd)
    case None
    then show ?thesis using Cons by simp
  next
    case (Some p)
    then show ?thesis using Cons
      by (cases p) (auto intro!: opt_le_intros mono_eval_max[OF le])
  qed
qed

lemma mono_modules_value:
  "vals_le v1 v2 \<Longrightarrow> opt_le (modules_value v1) (modules_value v2)"
  by (simp add: modules_value_def vals_le_def)

lemma mono_Choice_visibility:
  "vals_le v1 v2 \<Longrightarrow> opt_le (Choice_visibility v1 cfg ch) (Choice_visibility v2 cfg ch)"
  unfolding Choice_visibility_def
  by (intro opt_le_intros mono_prompt_vis mono_modules_value)

lemma mono_Choice_type:
  "vals_le v1 v2 \<Longrightarrow> opt_le (Choice_type v1 ch) (Choice_type v2 ch)"
  unfolding Choice_type_def by (intro opt_le_intros mono_modules_value)

lemma mono_Choice_value:
  "vals_le v1 v2 \<Longrightarrow> opt_le (Choice_value v1 cfg ch) (Choice_value v2 cfg ch)"
  unfolding Choice_value_def
  by (intro opt_le_intros mono_Choice_visibility mono_Choice_type mono_eval_min)

lemma mono_Symbol_visibility:
  "vals_le v1 v2 \<Longrightarrow> opt_le (Symbol_visibility v1 cfg name) (Symbol_visibility v2 cfg name)"
  unfolding Symbol_visibility_def Let_def
  by (intro opt_le_intros mono_prompt_vis mono_Choice_visibility mono_Choice_value
        mono_eval_min mono_modules_value)

lemma mono_Symbol_type:
  "vals_le v1 v2 \<Longrightarrow> opt_le (Symbol_type v1 cfg name) (Symbol_type v2 cfg name)"
  unfolding Symbol_type_def Let_def
  by (intro opt_le_intros mono_Choice_value mono_modules_value)

lemma mono_default_loop:
  assumes le: "vals_le v1 v2"
  shows "opt_le (default_loop v1 cfg ds) (default_loop v2 cfg ds)"
proof (induction ds)
  case Nil
  then show ?case by (simp add: opt_le_refl)
next
  case (Cons d ds)
  then show ?case
    by (cases d) (auto intro!: opt_le_intros mono_eval_expr[OF le] mono_Symbol_visibility[OF le])
qed

lemma mono_first_visible:
  assumes le: "vals_le v1 v2"
  shows "opt_le (first_visible v1 cfg ds) (first_visible v2 cfg ds)"
proof (induction ds)
  case Nil
  then show ?case by (simp add: opt_le_refl)
next
  case (Cons d ds)
  then show ?case by (auto intro!: opt_le_intros mono_Symbol_visibility[OF le])
qed

lemma mono_default_selection:
  "vals_le v1 v2 \<Longrightarrow> opt_le (default_selection v1 cfg ch) (default_selection v2 cfg ch)"
  unfolding default_selection_def
  by (intro opt_le_intros mono_default_loop mono_first_visible)

lemma mono_selection:
  "vals_le v1 v2 \<Longrightarrow> opt_le (selection v1 cfg ch) (selection v2 cfg ch)"
  unfolding selection_def
  by (intro opt_le_intros mono_default_selection mono_Choice_value mono_Symbol_visibility)

lemma mono_tri_defaults:
  assumes le: "vals_le v1 v2"
  shows "opt_le (tri_defaults v1 cfg ds) (tri_defaults v2 cfg ds)"
proof (induction ds)
  case Nil
  then show ?case by (simp add: opt_le_refl)
next
  case (Cons d ds)
  then show ?case
    by (cases d) (auto intro!: opt_le_intros mono_eval_expr[OF le] mono_eval_min[OF le])
qed

lemma mono_value_default_imply:
  "vals_le v1 v2 \<Longrightarrow>
   opt_le (value_default_imply v1 cfg self vis) (value_default_imply v2 cfg self vis)"
  unfolding value_default_imply_def
  by (intro opt_le_intros mono_tri_defaults mono_eval_expr mono_eval_max)

lemma mono_value_plain:
  "vals_le v1 v2 \<Longrightarrow> opt_le (value_plain v1 cfg self vis) (value_plain v2 cfg self vis)"
  unfolding value_plain_def
  by (intro opt_le_intros mono_value_default_imply mono_eval_expr mono_eval_min mono_eval_max)

lemma mono_value_in_choice:
  "vals_le v1 v2 \<Longrightarrow>
   opt_le (value_in_choice v1 cfg name self ci vis) (value_in_choice v2 cfg name self ci vis)"
  unfolding value_in_choice_def
  by (intro opt_le_intros mono_Choice_value mono_selection)

lemma mono_type_bool_or_weak_y:
  "vals_le v1 v2 \<Longrightarrow> opt_le (type_bool_or_weak_y v1 cfg name) (type_bool_or_weak_y v2 cfg name)"
  unfolding type_bool_or_weak_y_def
  by (intro opt_le_intros mono_Symbol_type mono_eval_expr)

lemma mono_promote:
  "vals_le v1 v2 \<Longrightarrow> opt_le (promote v1 cfg name val) (promote v2 cfg name val)"
  unfolding promote_def
  by (intro opt_le_intros mono_type_bool_or_weak_y)

lemma mono_active_range:
  assumes le: "vals_le v1 v2"
  shows "opt_le (active_range v1 cfg base rs) (active_range v2 cfg base rs)"
proof (induction rs)
  case Nil
  then show ?case by (simp add: opt_le_refl)
next
  case (Cons r rs)
  then show ?case
    by (cases r) (auto intro!: opt_le_intros mono_eval_expr[OF le] mono_str_val[OF le])
qed

lemma mono_num_defaults:
  assumes le: "vals_le v1 v2"
  shows "opt_le (num_defaults v1 cfg t rng st ds) (num_defaults v2 cfg t rng st ds)"
proof (induction ds arbitrary: st)
  case Nil
  then show ?case by (cases st) (simp add: opt_le_refl)
next
  case (Cons d ds)
  then show ?case
    by (cases d; cases st)
       (auto intro!: opt_le_intros mono_eval_expr[OF le] mono_str_val_expr[OF le])
qed

lemma mono_value_num:
  "vals_le v1 v2 \<Longrightarrow> opt_le (value_num v1 cfg self vis) (value_num v2 cfg self vis)"
  unfolding value_num_def
  by (intro opt_le_intros mono_active_range mono_num_defaults)

lemma mono_str_defaults:
  assumes le: "vals_le v1 v2"
  shows "opt_le (str_defaults v1 cfg st ds) (str_defaults v2 cfg st ds)"
proof (induction ds)
  case Nil
  then show ?case by (cases st) (simp add: opt_le_refl)
next
  case (Cons d ds)
  then show ?case
    by (cases d; cases st)
       (auto intro!: opt_le_intros mono_eval_expr[OF le] mono_str_val_expr[OF le])
qed

lemma mono_value_str:
  "vals_le v1 v2 \<Longrightarrow> opt_le (value_str v1 cfg self vis) (value_str v2 cfg self vis)"
  unfolding value_str_def
  by (intro opt_le_intros mono_str_defaults)

lemma mono_calc_value:
  "vals_le v1 v2 \<Longrightarrow> opt_le (calc_value v1 cfg name) (calc_value v2 cfg name)"
  unfolding calc_value_def Let_def
  by (intro opt_le_intros mono_Symbol_visibility mono_value_plain mono_value_in_choice
        mono_promote mono_value_num mono_value_str)

lemma mono_get_assignable:
  "vals_le v1 v2 \<Longrightarrow> opt_le (get_assignable v1 cfg name) (get_assignable v2 cfg name)"
  unfolding get_assignable_def Let_def
  by (intro opt_le_intros mono_Symbol_visibility mono_eval_expr mono_type_bool_or_weak_y)

lemma value_and_flag_Suc:
  "opt_le (value_and_flag d cfg name) (value_and_flag (Suc d) cfg name)"
proof (induction d arbitrary: name)
  case 0
  then show ?case by (simp add: opt_le_def)
next
  case (Suc d)
  have "vals_le (\<lambda>s. map_option fst (value_and_flag d cfg s))
                (\<lambda>s. map_option fst (value_and_flag (Suc d) cfg s))"
    unfolding vals_le_def
  proof
    fix s
    show "opt_le (map_option fst (value_and_flag d cfg s))
                 (map_option fst (value_and_flag (Suc d) cfg s))"
      using Suc[of s] by (auto simp: opt_le_def)
  qed
  then show ?case
    using mono_calc_value[of _ _ cfg name] by (simp del: value_and_flag.simps(2) add: value_and_flag.simps(2)[of "Suc d"] value_and_flag.simps(2)[of d])
qed

lemma value_and_flag_mono:
  "d \<le> d' \<Longrightarrow> opt_le (value_and_flag d cfg name) (value_and_flag d' cfg name)"
proof (induction d' arbitrary: name)
  case 0
  then show ?case by (simp add: opt_le_refl)
next
  case (Suc d')
  show ?case
  proof (cases "d = Suc d'")
    case True
    then show ?thesis by (simp add: opt_le_refl)
  next
    case False
    with Suc have "opt_le (value_and_flag d cfg name) (value_and_flag d' cfg name)" by simp
    moreover have "opt_le (value_and_flag d' cfg name) (value_and_flag (Suc d') cfg name)"
      by (rule value_and_flag_Suc)
    ultimately show ?thesis by (auto simp: opt_le_def)
  qed
qed

lemma Symbol_value_mono: "d \<le> d' \<Longrightarrow> vals_le (Symbol_value d cfg) (Symbol_value d' cfg)"
  unfolding vals_le_def Symbol_value_def
proof
  fix s
  assume "d \<le> d'"
  then have "opt_le (value_and_flag d cfg s) (value_and_flag d' cfg s)"
    by (rule value_and_flag_mono)
  then show "opt_le (map_option fst (value_and_flag d cfg s))
                    (map_option fst (value_and_flag d' cfg s))"
    by (auto simp: opt_le_def)
qed

lemma Symbol_value_Suc:
  "Symbol_value (Suc d) cfg name = map_option fst (calc_value (Symbol_value d cfg) cfg name)"
  by (simp add: Symbol_value_def[abs_def])

subsection \<open>Tristate results\<close>

lemma is_tri_simps [simp]: "is_tri ''n''" "is_tri ''m''" "is_tri ''y''"
  by (simp_all add: is_tri_def)

lemma eval_rel_tri: "eval_rel vals cfg oper a b = Some v \<Longrightarrow> is_tri v"
  by (auto simp: eval_rel_def bind_eq_Some_conv split: option.splits if_splits prod.splits)

lemma eval_expr_rec_tri: "tri_vals vals cfg \<Longrightarrow> eval_expr_rec vals cfg e = Some v \<Longrightarrow> is_tri v"
proof (induction e arbitrary: v)
  case (Leaf x)
  then show ?case by (cases x) (auto simp: tri_vals_def split: if_splits)
next
  case (AND e1 e2)
  then show ?case by (auto simp: bind_eq_Some_conv split: if_splits)
next
  case (OR e1 e2)
  then show ?case by (auto simp: bind_eq_Some_conv split: if_splits)
next
  case (NOT e)
  then show ?case by (auto simp: bind_eq_Some_conv split: if_splits)
next
  case (REL x1 x2 x3)
  then show ?case by (auto dest: eval_rel_tri)
qed

lemma eval_expr_tri: "tri_vals vals cfg \<Longrightarrow> eval_expr vals cfg e = Some v \<Longrightarrow> is_tri v"
  by (cases e) (auto simp: eval_expr_def dest: eval_expr_rec_tri)

lemma eval_expr_str [simp]:
  "eval_expr vals cfg (str_expr s) = Some (if s = ''m'' \<or> s = ''y'' then s else ''n'')"
  by (simp add: eval_expr_def)

lemma tri_less_tri: "is_tri a \<Longrightarrow> is_tri b \<Longrightarrow> tri_less a b = Some (tri_rank a < tri_rank b)"
  by (auto simp: is_tri_def tri_less_def TRI_TO_INT_def tri_rank_def)

lemma tri_greater_tri: "is_tri a \<Longrightarrow> is_tri b \<Longrightarrow> tri_greater a b = Some (tri_rank a > tri_rank b)"
  by (auto simp: is_tri_def tri_greater_def TRI_TO_INT_def tri_rank_def)

lemma tri_less_Some: "tri_less a b = Some r \<Longrightarrow> is_tri a \<and> is_tri b"
  by (auto simp: is_tri_def tri_less_def TRI_TO_INT_def split: if_splits option.splits)

lemma tri_greater_Some: "tri_greater a b = Some r \<Longrightarrow> is_tri a \<and> is_tri b"
  by (auto simp: is_tri_def tri_greater_def TRI_TO_INT_def split: if_splits option.splits)

lemma eval_min_tri: "eval_min vals cfg a b = Some v \<Longrightarrow> is_tri v"
  by (auto simp: eval_min_def bind_eq_Some_conv dest: tri_less_Some split: if_splits)

lemma eval_max_tri: "eval_max vals cfg a b = Some v \<Longrightarrow> is_tri v"
  by (auto simp: eval_max_def bind_eq_Some_conv dest: tri_greater_Some split: if_splits)

lemma tri_rank_inj: "is_tri a \<Longrightarrow> is_tri b \<Longrightarrow> tri_rank a = tri_rank b \<Longrightarrow> a = b"
  by (auto simp: is_tri_def tri_rank_def)

lemma eval_min_rank:
  "eval_expr vals cfg a = Some x \<Longrightarrow> eval_expr vals cfg b = Some y \<Longrightarrow> is_tri x \<Longrightarrow> is_tri y \<Longrightarrow>
   \<exists>r. eval_min vals cfg a b = Some r \<and> is_tri r \<and> tri_rank r = min (tri_rank x) (tri_rank y)"
  by (auto simp: eval_min_def tri_less_tri)

lemma eval_max_rank:
  "eval_expr vals cfg a = Some x \<Longrightarrow> eval_expr vals cfg b = Some y \<Longrightarrow> is_tri x \<Longrightarrow> is_tri y \<Longrightarrow>
   \<exists>r. eval_max vals cfg a b = Some r \<and> is_tri r \<and> tri_rank r = max (tri_rank x) (tri_rank y)"
  by (auto simp: eval_max_def tri_greater_tri)

lemma promote_tri: "promote vals cfg name val = Some v \<Longrightarrow> is_tri val \<Longrightarrow> is_tri v"
  by (auto simp: promote_def bind_eq_Some_conv split: if_splits)

lemma promote_ge: "promote vals cfg name val = Some v \<Longrightarrow> tri_rank val \<le> tri_rank v"
  by (auto simp: promote_def bind_eq_Some_conv tri_rank_def split: if_splits)

lemma tri_defaults_tri: "tri_defaults vals cfg ds = Some (Some v) \<Longrightarrow> is_tri v"
  by (induction vals cfg ds rule: tri_defaults.induct)
     (auto simp: bind_eq_Some_conv dest: eval_min_tri split: if_splits)

lemma value_default_imply_tri: "value_default_imply vals cfg self vis = Some (v, w) \<Longrightarrow> is_tri v"
  unfolding value_default_imply_def
  by (auto simp: bind_eq_Some_conv dest: eval_max_tri tri_defaults_tri split: if_splits option.splits)

lemma value_plain_tri: "value_plain vals cfg self vis = Some (v, w) \<Longrightarrow> is_tri v"
  unfolding value_plain_def
  by (auto simp: bind_eq_Some_conv dest: eval_min_tri eval_max_tri value_default_imply_tri split: if_splits option.splits)

lemma value_in_choice_tri: "value_in_choice vals cfg name self ci vis = Some (v, w) \<Longrightarrow> is_tri v"
  unfolding value_in_choice_def
  by (auto simp: bind_eq_Some_conv split: if_splits)

lemma calc_value_tri:
  "calc_value vals cfg name = Some (v, w) \<Longrightarrow>
   stype (the_sym cfg name) = BOOL \<or> stype (the_sym cfg name) = TRISTATE \<Longrightarrow> is_tri v"
  unfolding calc_value_def Let_def
  by (auto simp: bind_eq_Some_conv dest: value_plain_tri value_in_choice_tri promote_tri split: if_splits option.splits)

lemma tri_vals_Symbol_value: "tri_vals (Symbol_value d cfg) cfg"
  unfolding tri_vals_def
proof (intro allI impI)
  fix s v
  assume t: "stype (the_sym cfg s) = BOOL \<or> stype (the_sym cfg s) = TRISTATE"
    and v: "Symbol_value d cfg s = Some v"
  show "is_tri v"
  proof (cases d)
    case 0
    with v show ?thesis by (simp add: Symbol_value_def)
  next
    case (Suc d')
    with v obtain w where "calc_value (Symbol_value d' cfg) cfg s = Some (v, w)"
      by (auto simp: Symbol_value_Suc)
    then show ?thesis using t by (rule calc_value_tri)
  qed
qed

subsection \<open>Visibility and effective type\<close>

lemma prompt_vis_tri: "prompt_vis vals cfg vis nds = Some v \<Longrightarrow> is_tri vis \<Longrightarrow> is_tri v"
  by (induction vals cfg vis nds rule: prompt_vis.induct)
     (auto simp: bind_eq_Some_conv dest: eval_max_tri)



lemma Choice_visibility_tri: "Choice_visibility vals cfg ch = Some v \<Longrightarrow> is_tri v"
  unfolding Choice_visibility_def
  by (auto simp: bind_eq_Some_conv dest: prompt_vis_tri split: if_splits)




section \<open>Expression evaluation (claim C5)\<close>

lemmas engine_defs =
  eval_def Symbol_value_def visibility_def sym_type_of_def mode_def assignable_def
  calc_value_def value_plain_def value_default_imply_def value_in_choice_def promote_def
  type_bool_or_weak_y_def value_num_def value_str_def get_assignable_def
  Symbol_visibility_def Symbol_type_def Choice_visibility_def Choice_type_def Choice_value_def
  selection_def default_selection_def modules_value_def
  eval_expr_def eval_min_def eval_max_def eval_rel_def type_and_val_def str_val_def
  str_val_expr_def tri_less_def tri_greater_def TRI_TO_INT_def
  the_sym_def the_choice_def Symbol_init_def Config_init_def

lemma eval_AND:
  "eval d cfg (Some (AND a b)) = (case eval d cfg (Some a) of
      None \<Rightarrow> None
    | Some x \<Rightarrow> if x = ''n'' then Some ''n''
                else (case eval d cfg (Some b) of
                        None \<Rightarrow> None
                      | Some y \<Rightarrow> Some (if x = ''y'' then y else if y \<noteq> ''n'' then ''m'' else ''n'')))"
  by (simp add: eval_def eval_expr_def split: option.splits Option.bind_splits)

lemma eval_OR:
  "eval d cfg (Some (OR a b)) = (case eval d cfg (Some a) of
      None \<Rightarrow> None
    | Some x \<Rightarrow> if x = ''y'' then Some ''y''
                else (case eval d cfg (Some b) of
                        None \<Rightarrow> None
                      | Some y \<Rightarrow> Some (if x = ''n'' then y else if y = ''y'' then ''y'' else ''m'')))"
  by (simp add: eval_def eval_expr_def split: option.splits Option.bind_splits)

lemma eval_NOT:
  "eval d cfg (Some (NOT a)) = (case eval d cfg (Some a) of
      None \<Rightarrow> None
    | Some x \<Rightarrow> Some (if x = ''y'' then ''n'' else if x = ''n'' then ''y'' else ''m''))"
  by (simp add: eval_def eval_expr_def split: option.splits Option.bind_splits)

lemma eval_tri: "eval d cfg e = Some x \<Longrightarrow> is_tri x"
  unfolding eval_def using tri_vals_Symbol_value by (rule eval_expr_tri)

text \<open>
  Claim C5. Expression evaluation is the tristate algebra over n < m < y: a missing
  expression evaluates to "y"; when both operands have a value, AND evaluates to their
  minimum and OR to their maximum in the order n < m < y (and AND is "n" as soon as its
  first operand is "n", OR is "y" as soon as its first operand is "y", whatever the second
  operand does); NOT maps "y" to "n", "n" to "y" and "m" to "m"; every value of an expression
  is one of "n", "m", "y"; a symbol leaf whose type is not bool or tristate evaluates to "n";
  a string leaf evaluates to itself when it is "m" or "y" and to "n" otherwise.
\<close>

theorem eval_expr_tristate_algebra:
  "eval d cfg None = Some ''y''
   \<and> (eval d cfg (Some a) = Some x \<longrightarrow> eval d cfg (Some b) = Some y \<longrightarrow>
        (\<exists>r. eval d cfg (Some (AND a b)) = Some r \<and> is_tri r
             \<and> tri_rank r = min (tri_rank x) (tri_rank y)))
   \<and> (eval d cfg (Some a) = Some ''n'' \<longrightarrow> eval d cfg (Some (AND a b)) = Some ''n'')
   \<and> (eval d cfg (Some a) = Some x \<longrightarrow> eval d cfg (Some b) = Some y \<longrightarrow>
        (\<exists>r. eval d cfg (Some (OR a b)) = Some r \<and> is_tri r
             \<and> tri_rank r = max (tri_rank x) (tri_rank y)))
   \<and> (eval d cfg (Some a) = Some ''y'' \<longrightarrow> eval d cfg (Some (OR a b)) = Some ''y'')
   \<and> (eval d cfg (Some a) = Some ''y'' \<longrightarrow> eval d cfg (Some (NOT a)) = Some ''n'')
   \<and> (eval d cfg (Some a) = Some ''n'' \<longrightarrow> eval d cfg (Some (NOT a)) = Some ''y'')
   \<and> (eval d cfg (Some a) = Some ''m'' \<longrightarrow> eval d cfg (Some (NOT a)) = Some ''m'')
   \<and> (eval d cfg (Some a) = Some x \<longrightarrow> is_tri x)
   \<and> (stype (the_sym cfg s) \<noteq> BOOL \<and> stype (the_sym cfg s) \<noteq> TRISTATE \<longrightarrow>
        eval d cfg (Some (Leaf (SymRef s))) = Some ''n'')
   \<and> eval d cfg (Some (Leaf (Const c))) = Some (if c = ''m'' \<or> c = ''y'' then c else ''n'')"
proof -
  have and_min: "\<exists>r. eval d cfg (Some (AND a b)) = Some r \<and> is_tri r
             \<and> tri_rank r = min (tri_rank x) (tri_rank y)"
    if "eval d cfg (Some a) = Some x" "eval d cfg (Some b) = Some y"
  proof -
    from that have "is_tri x" "is_tri y" by (auto dest: eval_tri)
    then show ?thesis using that
      by (auto simp: eval_AND is_tri_def tri_rank_def)
  qed
  have or_max: "\<exists>r. eval d cfg (Some (OR a b)) = Some r \<and> is_tri r
             \<and> tri_rank r = max (tri_rank x) (tri_rank y)"
    if "eval d cfg (Some a) = Some x" "eval d cfg (Some b) = Some y"
  proof -
    from that have "is_tri x" "is_tri y" by (auto dest: eval_tri)
    then show ?thesis using that
      by (auto simp: eval_OR is_tri_def tri_rank_def)
  qed
  have leaf: "eval d cfg (Some (Leaf (SymRef s))) = Some ''n''"
    if "stype (the_sym cfg s) \<noteq> BOOL \<and> stype (the_sym cfg s) \<noteq> TRISTATE"
    using that by (simp add: eval_def eval_expr_def)
  show ?thesis
    using and_min or_max leaf
    by (simp add: eval_AND eval_OR eval_NOT eval_tri) (simp add: eval_def eval_expr_def)
qed

lemma Symbol_value_MODULES_select: "Symbol_value (Suc d) cfg_select ''MODULES'' = Some ''y''"
  by (simp add: engine_defs cfg_select_def)

lemma Symbol_value_A_select: "Symbol_value (Suc d) cfg_select ''A'' = Some ''y''"
  by (simp add: engine_defs cfg_select_def)

theorem eval_expr_tristate_algebra_witness:
  "eval 1 cfg_select (Some (Leaf (SymRef ''A''))) = Some ''y''
   \<and> eval 1 cfg_select (Some (Leaf (Const ''m''))) = Some ''m''
   \<and> eval 1 cfg_select (Some (Leaf (Const ''n''))) = Some ''n''
   \<and> eval 1 cfg_select (Some (AND (Leaf (SymRef ''A'')) (Leaf (Const ''m'')))) = Some ''m''
   \<and> eval 1 cfg_select (Some (AND (Leaf (Const ''n'')) (Leaf (SymRef ''A'')))) = Some ''n''
   \<and> eval 1 cfg_select (Some (OR (Leaf (Const ''m'')) (Leaf (Const ''n'')))) = Some ''m''
   \<and> eval 1 cfg_select (Some (OR (Leaf (SymRef ''A'')) (Leaf (Const ''m'')))) = Some ''y''
   \<and> eval 1 cfg_select (Some (NOT (Leaf (SymRef ''A'')))) = Some ''n''
   \<and> eval 1 cfg_select (Some (NOT (Leaf (Const ''n'')))) = Some ''y''
   \<and> eval 1 cfg_select (Some (NOT (Leaf (Const ''m'')))) = Some ''m''
   \<and> stype (the_sym cfg_select ''S'') = STRING
   \<and> eval 1 cfg_select (Some (Leaf (SymRef ''S''))) = Some ''n''"
proof -
  have A: "eval 1 cfg_select (Some (Leaf (SymRef ''A''))) = Some ''y''"
    using Symbol_value_A_select[of 0] by (simp add: eval_def eval_expr_def cfg_select_def the_sym_def Config_init_def Symbol_init_def)
  have m: "eval 1 cfg_select (Some (Leaf (Const ''m''))) = Some ''m''"
    and n: "eval 1 cfg_select (Some (Leaf (Const ''n''))) = Some ''n''"
    by (simp_all add: eval_def eval_expr_def)
  have S: "stype (the_sym cfg_select ''S'') = STRING"
    by (simp add: cfg_select_def the_sym_def Config_init_def Symbol_init_def)
  note t1 = eval_expr_tristate_algebra[of 1 cfg_select "Leaf (SymRef ''A'')" "''y''" "Leaf (Const ''m'')" "''m''" "''S''" "''m''"]
  note t2 = eval_expr_tristate_algebra[of 1 cfg_select "Leaf (Const ''n'')" "''n''" "Leaf (SymRef ''A'')" "''y''" "''S''" "''m''"]
  note t3 = eval_expr_tristate_algebra[of 1 cfg_select "Leaf (Const ''m'')" "''m''" "Leaf (Const ''n'')" "''n''" "''S''" "''m''"]
  have r1: "eval 1 cfg_select (Some (AND (Leaf (SymRef ''A'')) (Leaf (Const ''m'')))) = Some ''m''"
    using t1 A m by (auto simp: tri_rank_def is_tri_def)
  show ?thesis
    using t1 t2 t3 A m n S r1 by (auto simp: tri_rank_def is_tri_def)
qed

section \<open>Select lower bound (claim C2)\<close>

lemma eval_max_consts:
  "eval_max vals cfg (str_expr a) (str_expr b) = Some r \<longleftrightarrow>
   r = (let x = (if a = ''m'' \<or> a = ''y'' then a else ''n''); y = (if b = ''m'' \<or> b = ''y'' then b else ''n'')
        in if tri_rank x > tri_rank y then x else y)"
  by (auto simp: eval_max_def tri_greater_def TRI_TO_INT_def tri_rank_def Let_def)

lemma eval_max_consts_ge:
  "eval_max vals cfg (str_expr a) (str_expr b) = Some r \<Longrightarrow> tri_rank b \<le> tri_rank r"
  by (auto simp: eval_max_consts Let_def tri_rank_def split: if_splits)

lemma value_plain_ge_rev:
  assumes "value_plain vals cfg self vis = Some (val, w)"
  shows "\<exists>r. eval_expr vals cfg (Some (rev_dep self)) = Some r \<and> tri_rank r \<le> tri_rank val"
proof -
  from assms obtain val0 w0 r where
    r: "eval_expr vals cfg (Some (rev_dep self)) = Some r"
    and fin: "(if r \<noteq> ''n'' then do {
       v \<leftarrow> eval_max vals cfg (str_expr val0) (str_expr r);
       Some (v, True)
     }
     else Some (val0, w0)) = Some (val, w)"
    unfolding value_plain_def by (auto simp: bind_eq_Some_conv)
  have "tri_rank r \<le> tri_rank val"
  proof (cases "r = ''n''")
    case True
    then show ?thesis by (simp add: tri_rank_def)
  next
    case False
    with fin have "eval_max vals cfg (str_expr val0) (str_expr r) = Some val"
      by (auto simp: bind_eq_Some_conv)
    then show ?thesis by (rule eval_max_consts_ge)
  qed
  with r show ?thesis by blast
qed

lemma eval_deeper:
  assumes "eval_expr (Symbol_value d cfg) cfg e = Some r" "d \<le> d'"
  shows "eval d' cfg e = Some r"
  unfolding eval_def
  using mono_eval_expr[OF Symbol_value_mono[OF assms(2)], of cfg cfg e] assms(1)
  by (rule opt_leD)

text \<open>
  Claim C2, as the code has it. For every symbol S of bool or tristate type that is not a
  member of a choice, in every state of the configuration (whatever the user values of
  the symbols and choices are, so after any sequence of set_value, load_config and unset
  operations): whenever the value of S is computed, the reverse dependency of S evaluates
  too, and value(S) is greater than or equal to eval(rev_dep(S)) in the order n < m < y.
\<close>

theorem select_lower_bound_outside_choices:
  assumes ty: "stype (the_sym cfg S) = BOOL \<or> stype (the_sym cfg S) = TRISTATE"
    and nc: "choice (the_sym cfg S) = None"
    and v: "Symbol_value d cfg S = Some v"
  shows "\<exists>r. eval d cfg (Some (rev_dep (the_sym cfg S))) = Some r \<and> is_tri r \<and> is_tri v
              \<and> tri_rank r \<le> tri_rank v"
proof (cases d)
  case 0
  with v show ?thesis by (simp add: Symbol_value_def)
next
  case (Suc d')
  let ?vals = "Symbol_value d' cfg"
  from v Suc obtain w where cv: "calc_value ?vals cfg S = Some (v, w)"
    by (auto simp: Symbol_value_Suc)
  from cv ty nc obtain vis val where
    vp: "value_plain ?vals cfg (the_sym cfg S) vis = Some (val, w)"
    and pr: "promote ?vals cfg S val = Some v"
    unfolding calc_value_def Let_def
    by (auto simp: bind_eq_Some_conv split: if_splits)
  from vp obtain r where r: "eval_expr ?vals cfg (Some (rev_dep (the_sym cfg S))) = Some r"
    and le: "tri_rank r \<le> tri_rank val"
    using value_plain_ge_rev by blast
  have "eval d cfg (Some (rev_dep (the_sym cfg S))) = Some r"
    using r Suc by (auto intro: eval_deeper)
  moreover have "is_tri r" using calculation by (rule eval_tri)
  moreover have "is_tri v" using tri_vals_Symbol_value[of d cfg] ty v by (auto simp: tri_vals_def)
  moreover have "tri_rank r \<le> tri_rank v" using le promote_ge[OF pr] by simp
  ultimately show ?thesis by blast
qed

theorem select_lower_bound_witness:
  "stype (the_sym cfg_select ''B'') = TRISTATE \<and> choice (the_sym cfg_select ''B'') = None
   \<and> Symbol_value 2 cfg_select ''B'' = Some ''y''
   \<and> eval 2 cfg_select (Some (rev_dep (the_sym cfg_select ''B''))) = Some ''y''"
proof -
  have 1: "stype (the_sym cfg_select ''B'') = TRISTATE" "choice (the_sym cfg_select ''B'') = None"
    "rev_dep (the_sym cfg_select ''B'') = Leaf (SymRef ''A'')"
    "stype (the_sym cfg_select ''A'') = BOOL"
    by (simp_all add: cfg_select_def the_sym_def Config_init_def Symbol_init_def)
  have 2: "Symbol_value 2 cfg_select ''B'' = Some ''y''"
    unfolding numeral_2_eq_2 Symbol_value_Suc
    by (simp add: calc_value_def value_plain_def value_default_imply_def promote_def
        Symbol_visibility_def eval_expr_def eval_min_def eval_max_def tri_less_def tri_greater_def TRI_TO_INT_def
        Symbol_value_A_select the_sym_def cfg_select_def Config_init_def Symbol_init_def)
  have 3: "eval 2 cfg_select (Some (Leaf (SymRef ''A''))) = Some ''y''"
    unfolding numeral_2_eq_2 using 1 by (simp add: eval_def eval_expr_def Symbol_value_A_select)
  show ?thesis
    using select_lower_bound_outside_choices[of cfg_select "''B''" 2 "''y''"] 1 2 3 by simp
qed


text \<open>
  The claim as stated includes the members of choices. In \<open>cfg_choice\<close> the choice member Y
  is selected by A, which is "y", and Y is not the selection of its choice: its value is "n",
  below its reverse dependency "y". The choice branch of \<^verbatim>\<open>Symbol.value\<close> never reads
  \<^verbatim>\<open>rev_dep\<close>.
\<close>

theorem select_lower_bound_counterexample:
  "stype (the_sym cfg_choice ''Y'') = BOOL \<and> choice (the_sym cfg_choice ''Y'') = Some 0
   \<and> Symbol_value 1 cfg_choice ''Y'' = Some ''n''
   \<and> eval 1 cfg_choice (Some (rev_dep (the_sym cfg_choice ''Y''))) = Some ''y''
   \<and> tri_rank ''n'' < tri_rank ''y''"
  by (simp add: engine_defs cfg_choice_def tri_rank_def)

section \<open>Choice exclusivity (claim C3)\<close>













section \<open>The assignable set (claim C4)\<close>




section \<open>Values of int and hex symbols (claim C6)\<close>

lemma num_defaults_first:
  "first_active_default vals cfg ds = Some (Some dv) \<Longrightarrow> py_int dv (TYPE_TO_BASE t) = Some k \<Longrightarrow>
   num_defaults vals cfg t rng st ds = Some (clamp_default t rng dv k, True)"
proof (induction ds arbitrary: st)
  case Nil
  then show ?case by simp
next
  case (Cons d ds)
  obtain ve ce where d: "d = (ve, ce)" by (cases d)
  obtain val w where st: "st = (val, w)" by (cases st)
  from Cons.prems(1) obtain c where c: "eval_expr vals cfg ce = Some c"
    by (auto simp: d bind_eq_Some_conv)
  show ?case
  proof (cases "c = ''n''")
    case True
    then show ?thesis using Cons c by (simp add: d st)
  next
    case False
    then show ?thesis using Cons.prems c by (auto simp: d st bind_eq_Some_conv)
  qed
qed

lemma num_defaults_none:
  "first_active_default vals cfg ds = Some None \<Longrightarrow>
   num_defaults vals cfg t rng (val, w) ds =
     Some (case rng of Some (low, high) \<Rightarrow> if low > 0 then (canonical t low, w) else (val, w)
           | None \<Rightarrow> (val, w))"
proof (induction ds)
  case Nil
  then show ?case by simp
next
  case (Cons d ds)
  obtain ve ce where d: "d = (ve, ce)" by (cases d)
  from Cons.prems(1) obtain c where c: "eval_expr vals cfg ce = Some c"
    by (auto simp: d bind_eq_Some_conv)
  show ?case
  proof (cases "c = ''n''")
    case True
    then show ?thesis using Cons c by (simp add: d)
  next
    case False
    then show ?thesis using Cons.prems c by (auto simp: d bind_eq_Some_conv)
  qed
qed

lemma calc_value_num:
  assumes "stype (the_sym cfg S) = INT_T \<or> stype (the_sym cfg S) = HEX"
  shows "calc_value vals cfg S = do { vis \<leftarrow> Symbol_visibility vals cfg S; value_num vals cfg (the_sym cfg S) vis }"
  using assms by (auto simp: calc_value_def Let_def)


lemma cfg_range_values:
  "Symbol_value 2 (cfg_range True None) ''N'' = Some ''10''"
  "Symbol_value 2 (cfg_range True (Some ''25'')) ''N'' = Some ''10''"
  "Symbol_value 2 (cfg_range True (Some ''15'')) ''N'' = Some ''15''"
  "Symbol_value 2 (cfg_range False None) ''N'' = Some ''10''"
  "Symbol_value 2 (cfg_range False (Some ''25'')) ''N'' = Some ''10''"
  "Symbol_value 2 (cfg_range False (Some ''15'')) ''N'' = Some ''10''"
  unfolding numeral_2_eq_2
  by (simp_all add: engine_defs cfg_range_def TYPE_TO_BASE_def py_int_def int_strip_def is_int_space_def strip_def lstrip_def rstrip_def
      is_space_def has_prefix_def py_digits_def digit_value_def clamp_default_def canonical_def
      py_str_def nat_digits.simps digit_char_def)

lemma cfg_range_inputs:
  "stype (the_sym (cfg_range p uv) ''N'') = INT_T"
  "user_value (the_sym (cfg_range p uv) ''N'') = uv"
  "visibility 1 (cfg_range True uv) ''N'' = Some ''y''"
  "visibility 1 (cfg_range False uv) ''N'' = Some ''n''"
  "range_of 1 (cfg_range p uv) ''N'' = Some (Some (10, 20))"
  "first_default_of 1 (cfg_range p uv) ''N'' = Some (Some ''5'')"
  "py_int ''15'' 10 = Some 15" "py_int ''5'' 10 = Some 5" "py_int ''25'' 10 = Some 25"
  "canonical INT_T 10 = ''10''"
  by (simp_all add: engine_defs range_of_def first_default_of_def cfg_range_def TYPE_TO_BASE_def
      py_int_def int_strip_def is_int_space_def strip_def lstrip_def rstrip_def is_space_def has_prefix_def py_digits_def
      digit_value_def canonical_def py_str_def nat_digits.simps digit_char_def)

text \<open>
  Claim C6, as the code has it. The symbol \<^verbatim>\<open>config N / int "n" / range 10 20 / default 5\<close>,
  which has a prompt and is visible, has the value "10" without user value (the default
  clamped to the low bound) and with the user value "25", and the value "15" with the user
  value "15". The symbol of the specification's scenario, declared without prompt, is not
  visible: its value is "10" without user value and with the user value "25" (its value is
  "10" for every user value, see the counterexample). In general, for an int or hex symbol
  whose visibility and active range are computed: a user value that is visible, well-formed
  in the base and within the active range (if there is one) is returned verbatim;
  otherwise, when the first default whose condition is not "n" has a well-formed value, the
  value is that default, replaced by the canonical form of the bound it exceeds when it
  lies outside the active range.
\<close>

theorem int_hex_value_user_or_clamped_default:
  "Symbol_value 2 (cfg_range True None) ''N'' = Some ''10''
   \<and> Symbol_value 2 (cfg_range True (Some ''25'')) ''N'' = Some ''10''
   \<and> Symbol_value 2 (cfg_range True (Some ''15'')) ''N'' = Some ''15''
   \<and> Symbol_value 2 (cfg_range False None) ''N'' = Some ''10''
   \<and> Symbol_value 2 (cfg_range False (Some ''25'')) ''N'' = Some ''10''
   \<and> ((stype (the_sym cfg S) = INT_T \<or> stype (the_sym cfg S) = HEX) \<longrightarrow>
        visibility d cfg S = Some vis \<longrightarrow> range_of d cfg S = Some rng \<longrightarrow>
        (vis \<noteq> ''n'' \<and> user_value (the_sym cfg S) = Some uv
           \<and> py_int uv (TYPE_TO_BASE (stype (the_sym cfg S))) = Some k
           \<and> (case rng of None \<Rightarrow> True | Some (low, high) \<Rightarrow> low \<le> k \<and> k \<le> high) \<longrightarrow>
          Symbol_value (Suc d) cfg S = Some uv)
        \<and> (\<not> (vis \<noteq> ''n'' \<and> (\<exists>uv k. user_value (the_sym cfg S) = Some uv
                \<and> py_int uv (TYPE_TO_BASE (stype (the_sym cfg S))) = Some k
                \<and> (case rng of None \<Rightarrow> True | Some (low, high) \<Rightarrow> low \<le> k \<and> k \<le> high))) \<longrightarrow>
           first_default_of d cfg S = Some (Some dv) \<longrightarrow>
           py_int dv (TYPE_TO_BASE (stype (the_sym cfg S))) = Some kd \<longrightarrow>
           Symbol_value (Suc d) cfg S =
             Some (case rng of
                     None \<Rightarrow> dv
                   | Some (low, high) \<Rightarrow>
                       if kd < low then canonical (stype (the_sym cfg S)) low
                       else if kd > high then canonical (stype (the_sym cfg S)) high
                       else dv)))"
proof -
  let ?vals = "Symbol_value d cfg"
  let ?self = "the_sym cfg S"
  let ?base = "TYPE_TO_BASE (stype ?self)"
  have user: "Symbol_value (Suc d) cfg S = Some uv"
    if "stype ?self = INT_T \<or> stype ?self = HEX" "visibility d cfg S = Some vis"
      "range_of d cfg S = Some rng" "vis \<noteq> ''n''" "user_value ?self = Some uv"
      "py_int uv ?base = Some k"
      "case rng of None \<Rightarrow> True | Some (low, high) \<Rightarrow> low \<le> k \<and> k \<le> high"
    using that
    by (simp add: Symbol_value_Suc calc_value_num value_num_def visibility_def range_of_def)
  have dflt: "Symbol_value (Suc d) cfg S =
             Some (case rng of
                     None \<Rightarrow> dv
                   | Some (low, high) \<Rightarrow>
                       if kd < low then canonical (stype ?self) low
                       else if kd > high then canonical (stype ?self) high
                       else dv)"
    if ty: "stype ?self = INT_T \<or> stype ?self = HEX" and vis: "visibility d cfg S = Some vis"
      and rng: "range_of d cfg S = Some rng"
      and nu: "\<not> (vis \<noteq> ''n'' \<and> (\<exists>uv k. user_value ?self = Some uv \<and> py_int uv ?base = Some k
                \<and> (case rng of None \<Rightarrow> True | Some (low, high) \<Rightarrow> low \<le> k \<and> k \<le> high)))"
      and fd: "first_default_of d cfg S = Some (Some dv)"
      and kd: "py_int dv ?base = Some kd"
  proof -
    have nd: "num_defaults ?vals cfg (stype ?self) rng st (defaults ?self)
              = Some (clamp_default (stype ?self) rng dv kd, True)" for st
      using fd kd unfolding first_default_of_def by (rule num_defaults_first)
    have "value_num ?vals cfg ?self vis = Some (clamp_default (stype ?self) rng dv kd, True)"
      using rng nu nd unfolding value_num_def range_of_def
      by (auto simp: bind_eq_Some_conv split: option.splits if_splits)
    then show ?thesis
      using ty vis
      by (simp add: Symbol_value_Suc calc_value_num visibility_def clamp_default_def
          split: option.splits)
  qed
  show ?thesis
    using user dflt cfg_range_values by blast
qed

theorem int_hex_value_witness:
  "stype (the_sym (cfg_range True (Some ''15'')) ''N'') = INT_T
   \<and> visibility 1 (cfg_range True (Some ''15'')) ''N'' = Some ''y''
   \<and> range_of 1 (cfg_range True (Some ''15'')) ''N'' = Some (Some (10, 20))
   \<and> user_value (the_sym (cfg_range True (Some ''15'')) ''N'') = Some ''15''
   \<and> py_int ''15'' (TYPE_TO_BASE INT_T) = Some 15
   \<and> Symbol_value (Suc 1) (cfg_range True (Some ''15'')) ''N'' = Some ''15''
   \<and> visibility 1 (cfg_range False (Some ''15'')) ''N'' = Some ''n''
   \<and> first_default_of 1 (cfg_range False (Some ''15'')) ''N'' = Some (Some ''5'')
   \<and> py_int ''5'' (TYPE_TO_BASE INT_T) = Some 5
   \<and> Symbol_value (Suc 1) (cfg_range False (Some ''15'')) ''N'' = Some ''10''"
  using int_hex_value_user_or_clamped_default[of "cfg_range True (Some ''15'')" "''N''" 1 "''y''"
          "Some (10, 20)" "''15''" 15 "''5''" 5]
    int_hex_value_user_or_clamped_default[of "cfg_range False (Some ''15'')" "''N''" 1 "''n''"
          "Some (10, 20)" "''15''" 15 "''5''" 5]
    cfg_range_inputs
  by (simp add: TYPE_TO_BASE_def)

text \<open>
  The claim as stated lets the user value "15" become the value of the symbol of scenario
  5. That symbol is declared without prompt, so its visibility is "n" and \<^verbatim>\<open>Symbol.value\<close>
  ignores its user value: the value stays "10".
\<close>

theorem int_hex_value_counterexample:
  "user_value (the_sym (cfg_range False (Some ''15'')) ''N'') = Some ''15''
   \<and> visibility 1 (cfg_range False (Some ''15'')) ''N'' = Some ''n''
   \<and> Symbol_value 2 (cfg_range False (Some ''15'')) ''N'' = Some ''10''"
  using cfg_range_inputs cfg_range_values by simp

text \<open>
  What the amended claim leaves open: a default whose condition is met but whose value is
  not a number does not end the loop over the defaults (the \<^verbatim>\<open>break\<close> stands inside
  \<^verbatim>\<open>if _is_base_n(val, base)\<close>, unlike in the loops for bool, tristate and string
  symbols). In \<open>cfg_two_defaults\<close> the first default with a met condition is "abc", and the
  value of K is the second default.
\<close>

lemma malformed_default_is_skipped:
  "first_default_of 1 cfg_two_defaults ''K'' = Some (Some ''abc'')
   \<and> py_int ''abc'' 10 = None
   \<and> Symbol_value 2 cfg_two_defaults ''K'' = Some ''7''"
  unfolding numeral_2_eq_2
  by (simp add: engine_defs range_of_def first_default_of_def cfg_two_defaults_def TYPE_TO_BASE_def
      py_int_def int_strip_def is_int_space_def strip_def lstrip_def rstrip_def is_space_def has_prefix_def py_digits_def
      digit_value_def clamp_default_def)

section \<open>Reading a string assignment (claim C7)\<close>

lemma the_sym_update_choice [simp]: "the_sym (update_choice cfg ci f) n = the_sym cfg n"
  by (simp add: update_choice_def the_sym_def)

lemma syms_update_choice [simp]: "syms (update_choice cfg ci f) = syms cfg"
  by (simp add: update_choice_def)

lemma set_value_no_invalidate_valid:
  assumes "valid_for_type (stype (the_sym cfg name)) v"
  shows "the_sym (fst (set_value_no_invalidate cfg name v spw)) n =
           (if n = name then (the_sym cfg name) \<lparr> user_value := Some v \<rparr> else the_sym cfg n)"
  using assms
  by (auto simp: set_value_no_invalidate_def Let_def the_sym_def split: option.splits)

lemma set_value_no_invalidate_invalid:
  assumes "\<not> valid_for_type (stype (the_sym cfg name)) v"
  shows "set_value_no_invalidate cfg name v spw = (cfg, warn cfg (Invalid_value v name (stype (the_sym cfg name))))"
  using assms by (simp add: set_value_no_invalidate_def Let_def)

lemma assign_loaded_fst:
  "fst (assign_loaded cfg name v) = fst (set_value_no_invalidate cfg name v True)"
  by (simp add: assign_loaded_def Let_def split: prod.splits)

lemma assign_loaded_string:
  assumes "stype (the_sym cfg name) = STRING"
  shows "user_value (the_sym (fst (assign_loaded cfg name v)) name) = Some v"
  using assms
  by (simp add: assign_loaded_fst set_value_no_invalidate_valid valid_for_type_def)

lemma assign_loaded_snd:
  "snd (assign_loaded cfg name v) =
     (case user_value (the_sym cfg name) of
        Some old \<Rightarrow> warn cfg (Set_more_than_once name old v) | None \<Rightarrow> [])
     @ snd (set_value_no_invalidate cfg name v True)"
  by (simp add: assign_loaded_def Let_def split: prod.splits)

lemma string_assignment_warnings_not_malformed:
  "Malformed_string_literal \<notin> set (string_assignment_warnings cfg name v)"
  by (auto simp: string_assignment_warnings_def choice_mode_warning_def warn_def
      warn_undef_assign_def split: option.splits if_splits)

lemma assign_loaded_string_snd:
  assumes "stype (the_sym cfg name) = STRING"
  shows "choice_mode_warning cfg name v @ snd (assign_loaded cfg name v)
           = string_assignment_warnings cfg name v"
  using assms
  by (simp add: assign_loaded_snd string_assignment_warnings_def set_value_no_invalidate_def
      valid_for_type_def Let_def)

text \<open>
  Claim C7, as the code has it. When \<^verbatim>\<open>load_config\<close> reads a line matching
  \<^verbatim>\<open>PREFIX<NAME>=<RHS>\<close> for a string symbol of the symbol table: if the RHS starts with a
  double quote and is shorter than two characters or does not end with a double quote, the
  warning "malformed string literal" is printed (when warnings are enabled) and the line is
  skipped, leaving the whole state, so the user value, unchanged; if it starts and ends
  with a double quote, the user value becomes the text between the quotes with
  \<^verbatim>\<open>\"\<close> and \<^verbatim>\<open>\\\<close> un-escaped; if it does not start with a double quote, the user value
  becomes the RHS as it is. In the last two cases the warnings are those of any assignment
  to a string symbol (\<open>string_assignment_warnings\<close>): "malformed string literal" is not
  among them.
\<close>

theorem load_line_string_assignment:
  assumes m: "set_re_match (config_prefix cfg) (rstrip raw) = Some (name, val)"
    and s: "syms cfg name = Some sy" and t: "stype sy = STRING"
  shows "(take 1 val = [dquote] \<and> (length val < 2 \<or> last val \<noteq> dquote) \<longrightarrow>
            load_line cfg raw = (cfg, warn cfg Malformed_string_literal)
            \<and> (print_warnings cfg \<longrightarrow> snd (load_line cfg raw) = [Malformed_string_literal]))
       \<and> (take 1 val = [dquote] \<and> 2 \<le> length val \<and> last val = dquote \<longrightarrow>
            user_value (the_sym (fst (load_line cfg raw)) name) = Some (unescape (butlast (tl val)))
            \<and> snd (load_line cfg raw) = string_assignment_warnings cfg name (unescape (butlast (tl val)))
            \<and> Malformed_string_literal \<notin> set (snd (load_line cfg raw)))
       \<and> (take 1 val \<noteq> [dquote] \<longrightarrow>
            user_value (the_sym (fst (load_line cfg raw)) name) = Some val
            \<and> snd (load_line cfg raw) = string_assignment_warnings cfg name val
            \<and> Malformed_string_literal \<notin> set (snd (load_line cfg raw)))"
proof -
  have ts: "the_sym cfg name = sy" using s by (simp add: the_sym_def)
  have st: "stype (the_sym cfg name) = STRING" using ts t by simp
  have a: "load_line cfg raw = (cfg, warn cfg Malformed_string_literal)"
    if "take 1 val = [dquote]" "length val < 2 \<or> last val \<noteq> dquote"
    using that m s st by (auto simp: load_line_def Let_def)
  have b: "user_value (the_sym (fst (load_line cfg raw)) name) = Some (unescape (butlast (tl val)))
      \<and> snd (load_line cfg raw) = string_assignment_warnings cfg name (unescape (butlast (tl val)))"
    if "take 1 val = [dquote]" "2 \<le> length val" "last val = dquote"
  proof -
    let ?v = "unescape (butlast (tl val))"
    have "load_line cfg raw = (fst (assign_loaded cfg name ?v),
            choice_mode_warning cfg name ?v @ snd (assign_loaded cfg name ?v))"
      using that m s st by (auto simp: load_line_def Let_def split: prod.splits)
    then show ?thesis using st by (simp add: assign_loaded_string assign_loaded_string_snd)
  qed
  have c: "user_value (the_sym (fst (load_line cfg raw)) name) = Some val
      \<and> snd (load_line cfg raw) = string_assignment_warnings cfg name val"
    if "take 1 val \<noteq> [dquote]"
  proof -
    have "load_line cfg raw = (fst (assign_loaded cfg name val),
            choice_mode_warning cfg name val @ snd (assign_loaded cfg name val))"
      using that m s st by (auto simp: load_line_def Let_def split: prod.splits)
    then show ?thesis using st by (simp add: assign_loaded_string assign_loaded_string_snd)
  qed
  show ?thesis
    using a b c string_assignment_warnings_not_malformed by (simp add: warn_def)
qed

lemmas io_defs = load_line_def set_re_match_def unset_re_match_def rstrip_def is_space_def
  is_word_def is_alpha_def is_digit_def assign_loaded_def set_value_no_invalidate_def
  choice_mode_warning_def valid_for_type_def warn_def warn_undef_assign_def update_choice_def
  unescape_def escape_def replace_char_def

lemma cfg_select_S:
  "syms cfg_select ''S'' = Some (the_sym cfg_select ''S'')" "stype (the_sym cfg_select ''S'') = STRING"
  "config_prefix cfg_select = ''CONFIG_''" "print_warnings cfg_select"
  "user_value (the_sym cfg_select ''S'') = None"
  by (simp_all add: cfg_select_def the_sym_def Config_init_def Symbol_init_def)

lemma set_re_match_examples:
  "set_re_match ''CONFIG_'' (rstrip (''CONFIG_S='' @ [dquote] @ ''abc'')) = Some (''S'', [dquote] @ ''abc'')"
  "set_re_match ''CONFIG_'' (rstrip (''CONFIG_S='' @ [dquote] @ ''a b'' @ [dquote] @ ''  '')) = Some (''S'', [dquote] @ ''a b'' @ [dquote])"
  "set_re_match ''CONFIG_'' (rstrip (''CONFIG_S=abc'' @ [dquote])) = Some (''S'', ''abc'' @ [dquote])"
  "set_re_match ''CONFIG_'' (rstrip ''CONFIG_S=abc'') = Some (''S'', ''abc'')"
  by (simp_all add: set_re_match_def rstrip_def is_space_def is_word_def is_alpha_def is_digit_def)

lemma string_assignment_warnings_cfg_select:
  "string_assignment_warnings cfg_select ''S'' v = []"
  by (simp add: string_assignment_warnings_def choice_mode_warning_def cfg_select_def the_sym_def
      Config_init_def Symbol_init_def)

theorem load_line_string_assignment_witness:
  "set_re_match (config_prefix cfg_select) (rstrip (''CONFIG_S='' @ [dquote] @ ''abc''))
     = Some (''S'', [dquote] @ ''abc'')
   \<and> syms cfg_select ''S'' = Some (the_sym cfg_select ''S'')
   \<and> stype (the_sym cfg_select ''S'') = STRING
   \<and> print_warnings cfg_select
   \<and> load_line cfg_select (''CONFIG_S='' @ [dquote] @ ''abc'') = (cfg_select, [Malformed_string_literal])
   \<and> set_re_match (config_prefix cfg_select) (rstrip (''CONFIG_S='' @ [dquote] @ ''a b'' @ [dquote] @ ''  ''))
     = Some (''S'', [dquote] @ ''a b'' @ [dquote])
   \<and> user_value (the_sym (fst (load_line cfg_select (''CONFIG_S='' @ [dquote] @ ''a b'' @ [dquote] @ ''  ''))) ''S'')
     = Some ''a b''
   \<and> snd (load_line cfg_select (''CONFIG_S='' @ [dquote] @ ''a b'' @ [dquote] @ ''  '')) = []
   \<and> set_re_match (config_prefix cfg_select) (rstrip ''CONFIG_S=abc'') = Some (''S'', ''abc'')
   \<and> user_value (the_sym (fst (load_line cfg_select ''CONFIG_S=abc'')) ''S'') = Some ''abc''
   \<and> snd (load_line cfg_select ''CONFIG_S=abc'') = []"
  using load_line_string_assignment[of cfg_select "''CONFIG_S='' @ [dquote] @ ''abc''" "''S''"
          "[dquote] @ ''abc''" "the_sym cfg_select ''S''"]
    load_line_string_assignment[of cfg_select "''CONFIG_S='' @ [dquote] @ ''a b'' @ [dquote] @ ''  ''" "''S''"
          "[dquote] @ ''a b'' @ [dquote]" "the_sym cfg_select ''S''"]
    load_line_string_assignment[of cfg_select "''CONFIG_S=abc''" "''S''" "''abc''" "the_sym cfg_select ''S''"]
    cfg_select_S set_re_match_examples string_assignment_warnings_cfg_select
  by (simp add: warn_def unescape_def)


text \<open>
  The claim as stated has every assignment with malformed quoting skipped with a warning.
  The test of the quotes is guarded by \<^verbatim>\<open>val.startswith('"')\<close>: the line
  \<^verbatim>\<open>CONFIG_S=abc"\<close>, whose right-hand side ends with a double quote and does not start
  with one, prints no warning and sets the user value of the string symbol S to \<^verbatim>\<open>abc"\<close>.
\<close>

theorem load_line_string_assignment_counterexample:
  "stype (the_sym cfg_select ''S'') = STRING
   \<and> user_value (the_sym cfg_select ''S'') = None
   \<and> print_warnings cfg_select
   \<and> set_re_match (config_prefix cfg_select) (rstrip (''CONFIG_S=abc'' @ [dquote]))
       = Some (''S'', ''abc'' @ [dquote])
   \<and> snd (load_line cfg_select (''CONFIG_S=abc'' @ [dquote])) = []
   \<and> user_value (the_sym (fst (load_line cfg_select (''CONFIG_S=abc'' @ [dquote]))) ''S'')
       = Some (''abc'' @ [dquote])"
  by (simp add: io_defs cfg_select_def the_sym_def the_choice_def Config_init_def Symbol_init_def)

section \<open>Symbol reference expansion (claim C8)\<close>

lemma sym_ref_search_Some:
  "sym_ref_search s = Some (b, name, a) \<Longrightarrow> s = b @ [CHR ''$''] @ name @ a \<and> name \<noteq> []"
  by (induction s arbitrary: b) (auto split: if_splits)

lemma expand_result_has_no_reference:
  "expand_sym_refs n d cfg s = Some r \<Longrightarrow> sym_ref_search r = None"
proof (induction n arbitrary: s)
  case 0
  then show ?case by simp
next
  case (Suc n)
  show ?case
  proof (cases "sym_ref_search s")
    case None
    with Suc.prems show ?thesis by simp
  next
    case (Some m)
    obtain b name a where "m = (b, name, a)" by (cases m)
    with Some Suc.prems obtain v where "expand_sym_refs n d cfg (b @ v @ a) = Some r"
      by (auto simp: bind_eq_Some_conv)
    then show ?thesis by (rule Suc.IH)
  qed
qed

lemma expand_terminates:
  assumes vals: "\<And>name. \<exists>v. ref_value d cfg name = Some v \<and> CHR ''$'' \<notin> set v"
  shows "count_list s CHR ''$'' < n \<Longrightarrow> \<exists>r. expand_sym_refs n d cfg s = Some r"
proof (induction n arbitrary: s)
  case 0
  then show ?case by simp
next
  case (Suc n)
  show ?case
  proof (cases "sym_ref_search s")
    case None
    then show ?thesis by simp
  next
    case (Some m)
    obtain b name a where m: "m = (b, name, a)" by (cases m)
    from vals obtain v where v: "ref_value d cfg name = Some v" "CHR ''$'' \<notin> set v" by blast
    have s: "s = b @ [CHR ''$''] @ name @ a" using Some m by (auto dest: sym_ref_search_Some)
    have "count_list s CHR ''$'' = Suc (count_list (b @ name @ a) CHR ''$'')"
      by (subst s) simp
    moreover have "count_list (b @ v @ a) CHR ''$'' \<le> count_list (b @ name @ a) CHR ''$''"
      using v(2) by (simp add: count_list_0_iff)
    ultimately have "count_list (b @ v @ a) CHR ''$'' < n" using Suc.prems by simp
    then obtain r where "expand_sym_refs n d cfg (b @ v @ a) = Some r" using Suc.IH by blast
    then show ?thesis using Some m v by simp
  qed
qed

text \<open>
  Claim C8, as the code has it. \<^verbatim>\<open>_expand_sym_refs\<close> (applied to the main-menu prompt, to
  \<^verbatim>\<open>source\<close> paths and to the file names of the defconfig_list symbol) replaces the
  leftmost \<^verbatim>\<open>$NAME\<close> of the current string by the value of the symbol NAME, or by the
  empty string when \<^verbatim>\<open>syms\<close> has no NAME, and then searches the resulting string again
  from its start: a string without reference is returned as it is; a string with a
  reference is expanded as the string after the replacement is; the result, when there is
  one, contains no reference any more, so a reference inside a substituted value, or one
  that the substitution forms, is expanded too. When every symbol has a value without
  \<^verbatim>\<open>$\<close>, the expansion of s ends within as many iterations as s has \<^verbatim>\<open>$\<close> characters, plus
  one.
\<close>

theorem expand_sym_refs_rescans:
  "(sym_ref_search s = None \<longrightarrow> expand_sym_refs (Suc n) d cfg s = Some s)
   \<and> (sym_ref_search s = Some (b, name, a) \<longrightarrow> ref_value d cfg name = Some v \<longrightarrow>
        expand_sym_refs (Suc n) d cfg s = expand_sym_refs n d cfg (b @ v @ a))
   \<and> (expand_sym_refs n d cfg s = Some r \<longrightarrow> sym_ref_search r = None)
   \<and> ((\<forall>name. \<exists>v. ref_value d cfg name = Some v \<and> CHR ''$'' \<notin> set v) \<longrightarrow>
        (\<exists>r. expand_sym_refs (Suc (count_list s CHR ''$'')) d cfg s = Some r))"
proof -
  have "\<exists>r. expand_sym_refs (Suc (count_list s CHR ''$'')) d cfg s = Some r"
    if "\<forall>name. \<exists>v. ref_value d cfg name = Some v \<and> CHR ''$'' \<notin> set v"
    using that expand_terminates[of d cfg s "Suc (count_list s CHR ''$'')"] by blast
  then show ?thesis
    using expand_result_has_no_reference[of n d cfg s r] by simp
qed

lemma ref_value_cfg_select:
  "\<exists>v. ref_value 2 cfg_select name = Some v \<and> CHR ''$'' \<notin> set v"
proof -
  consider "name = ''MODULES''" | "name = ''A''" | "name = ''B''" | "name = ''S''"
    | "syms cfg_select name = None"
    by (cases "name = ''MODULES''"; cases "name = ''A''"; cases "name = ''B''";
        cases "name = ''S''") (simp_all add: cfg_select_def Config_init_def)
  then show ?thesis
  proof cases
    case 5
    then show ?thesis by (simp add: ref_value_def)
  qed (simp_all add: ref_value_def numeral_2_eq_2 engine_defs str_defaults.simps cfg_select_def)
qed

lemma expand_examples:
  "sym_ref_search ''no reference'' = None"
  "sym_ref_search ''a $S.'' = Some (''a '', ''S'', ''.'')"
  "ref_value 2 cfg_select ''S'' = Some ''text''"
  "expand_sym_refs 1 2 cfg_select ''a text.'' = Some ''a text.''"
  "count_list ''a $S.'' CHR ''$'' = 1"
  by (simp_all add: is_word_def is_alpha_def is_digit_def ref_value_def numeral_2_eq_2
      engine_defs cfg_select_def)

theorem expand_sym_refs_rescans_witness:
  "sym_ref_search ''no reference'' = None
   \<and> expand_sym_refs (Suc 0) 2 cfg_select ''no reference'' = Some ''no reference''
   \<and> sym_ref_search ''a $S.'' = Some (''a '', ''S'', ''.'')
   \<and> ref_value 2 cfg_select ''S'' = Some ''text''
   \<and> expand_sym_refs (Suc 1) 2 cfg_select ''a $S.'' = Some ''a text.''
   \<and> sym_ref_search ''a text.'' = None
   \<and> (\<forall>name. \<exists>v. ref_value 2 cfg_select name = Some v \<and> CHR ''$'' \<notin> set v)
   \<and> (\<exists>r. expand_sym_refs (Suc (count_list ''a $S.'' CHR ''$'')) 2 cfg_select ''a $S.'' = Some r)"
  using expand_sym_refs_rescans[of "''no reference''" 0 2 cfg_select "''''" "''''" "''''" "''''" "''''"]
    expand_sym_refs_rescans[of "''a $S.''" 1 2 cfg_select "''a ''" "''S''" "''.''" "''text''" "''a text.''"]
    expand_sym_refs_rescans[of "''a text.''" 1 2 cfg_select "''''" "''''" "''''" "''''" "''a text.''"]
    ref_value_cfg_select expand_examples
  by simp

text \<open>
  The claim as stated has the expansion make one pass, leaving a reference inside a
  substituted value alone. With the main-menu prompt \<^verbatim>\<open>$FOO\<close> and the value \<^verbatim>\<open>$BAR\<close> of FOO
  in \<open>cfg_refs\<close>, one pass gives \<^verbatim>\<open>$BAR\<close>; \<^verbatim>\<open>mainmenu_text\<close> is \<^verbatim>\<open>x\<close>, the value of BAR.
\<close>

theorem expand_sym_refs_counterexample:
  "top_prompt cfg_refs = ''$FOO''
   \<and> ref_value 1 cfg_refs ''FOO'' = Some ''$BAR''
   \<and> ref_value 1 cfg_refs ''BAR'' = Some ''x''
   \<and> spec_expand_one_pass (ref_value 1 cfg_refs) (top_prompt cfg_refs) = Some ''$BAR''
   \<and> mainmenu_text 3 1 cfg_refs = Some ''x''"
  by (simp add: mainmenu_text_def eval_nat_numeral is_word_def is_alpha_def is_digit_def
      ref_value_def engine_defs cfg_refs_def)

section \<open>eval_string has no effect on the configuration (claim C10)\<close>

lemma lookup_sym_for_eval [simp]: "fst (lookup_sym cfg name True) = cfg"
  by (simp add: lookup_sym_def)

lemma emit_cfg [simp]: "fst (snd (emit t ws r)) = fst (snd r)"
  by (cases r) (simp add: emit_def)

lemma tokenize_loop_for_eval:
  "for_eval \<Longrightarrow> fst (snd (tokenize_loop for_eval bs prev cfg s)) = cfg"
proof (induction for_eval bs prev cfg s rule: tokenize_loop.induct)
  case (1 for_eval bs prev cfg)
  then show ?case by simp
next
  case (2 for_eval bs prev cfg c cs)
  show ?case
  proof (cases "is_id_char c")
    case True
    then show ?thesis
      using 2 by (auto simp: Let_def split: option.splits)
  next
    case nid: False
    show ?thesis
    proof (cases "c = dquote \<or> c = CHR 0x27")
      case True
      then show ?thesis using nid 2 by (auto split: option.splits)
    next
      case nq: False
      show ?thesis
      proof (cases "c = CHR ''#''")
        case True
        then show ?thesis using nid nq by simp
      next
        case False
        then show ?thesis using nid nq 2 by (auto split: option.splits)
      qed
    qed
  qed
qed

lemma tokenize_for_eval: "fst (snd (tokenize cfg s True)) = cfg"
proof -
  obtain ts cfg' ws where r: "tokenize_loop True (backslash \<in> set s) None cfg s = (ts, cfg', ws)"
    by (cases "tokenize_loop True (backslash \<in> set s) None cfg s") auto
  with tokenize_loop_for_eval[of True "backslash \<in> set s" None cfg s] have "cfg' = cfg" by simp
  with r show ?thesis by (simp add: tokenize_def)
qed

lemma eval_string_cfg: "fst (snd (eval_string d cfg s)) = cfg"
proof -
  obtain ts cfg' ws where r: "tokenize cfg s True = (ts, cfg', ws)"
    by (cases "tokenize cfg s True") auto
  with tokenize_for_eval[of cfg s] have "cfg' = cfg" by simp
  with r show ?thesis by (auto simp: eval_string_def split: option.splits prod.splits)
qed

lemma parse_bound_suffices:
  "(3 * length ts + 3 \<le> n \<longrightarrow> parse_expr n tm ts \<noteq> None)
   \<and> (3 * length ts + 2 \<le> n \<longrightarrow> parse_and_expr n tm ts \<noteq> None)
   \<and> (3 * length ts + 1 \<le> n \<longrightarrow> parse_factor n tm ts \<noteq> None)
   \<and> (\<forall>e rest. parse_expr n tm ts = Some (Some (e, rest)) \<longrightarrow> length rest < length ts)
   \<and> (\<forall>e rest. parse_and_expr n tm ts = Some (Some (e, rest)) \<longrightarrow> length rest < length ts)
   \<and> (\<forall>e rest. parse_factor n tm ts = Some (Some (e, rest)) \<longrightarrow> length rest < length ts)"
proof (induction n arbitrary: ts)
  case 0
  then show ?case by simp
next
  case (Suc n)
  note IH = Suc.IH
  have f1: "parse_factor (Suc n) tm ts \<noteq> None" if "3 * length ts + 1 \<le> Suc n"
  proof (cases ts)
    case Nil
    then show ?thesis by simp
  next
    case (Cons t rest)
    then have "3 * length rest + 3 \<le> n" using that by simp
    then have "parse_factor n tm rest \<noteq> None" "parse_expr n tm rest \<noteq> None"
      using IH[of rest] by auto
    then show ?thesis using Cons
      by (cases t) (auto split: option.splits list.splits token.splits)
  qed
  have f2: "length rest < length ts" if "parse_factor (Suc n) tm ts = Some (Some (e, rest))" for e rest
  proof (cases ts)
    case Nil
    then show ?thesis using that by simp
  next
    case (Cons t r)
    show ?thesis
    proof (cases t)
      case (Tok k)
      then show ?thesis using that Cons IH[of r]
        by (auto split: option.splits list.splits token.splits if_splits)
    next
      case (TSym x)
      then show ?thesis using that Cons
        by (auto simp: peek_rel_def split: option.splits list.splits token.splits if_splits)
    next
      case (TStr x)
      then show ?thesis using that Cons
        by (auto simp: peek_rel_def split: option.splits list.splits token.splits if_splits)
    qed
  qed
  have a2: "length rest < length ts" if "parse_and_expr (Suc n) tm ts = Some (Some (e, rest))" for e rest
  proof -
    from that obtain f r where f: "parse_factor n tm ts = Some (Some (f, r))"
      by (auto split: option.splits)
    then have lr: "length r < length ts" using IH[of ts] by auto
    show ?thesis
    proof (cases "\<exists>r'. r = Tok T_AND # r'")
      case True
      then obtain r' where r': "r = Tok T_AND # r'" by blast
      with that f obtain e' where "parse_and_expr n tm r' = Some (Some (e', rest))"
        by (auto split: option.splits)
      then have "length rest < length r'" using IH[of r'] by auto
      then show ?thesis using lr r' by simp
    next
      case False
      then have "rest = r" using that f
        by (auto split: option.splits list.splits token.splits if_splits)
      then show ?thesis using lr by simp
    qed
  qed
  have a1: "parse_and_expr (Suc n) tm ts \<noteq> None" if "3 * length ts + 2 \<le> Suc n"
  proof -
    have nf: "parse_factor n tm ts \<noteq> None" using that IH[of ts] by auto
    have "parse_and_expr n tm r' \<noteq> None"
      if "parse_factor n tm ts = Some (Some (f, Tok k # r'))" for f k r'
    proof -
      have "length (Tok k # r') < length ts" using that IH[of ts] by blast
      then have "3 * length r' + 2 \<le> n" using \<open>3 * length ts + 2 \<le> Suc n\<close> by simp
      then show ?thesis using IH[of r'] by auto
    qed
    then show ?thesis using nf
      by (auto split: option.splits list.splits token.splits)
  qed
  have e2: "length rest < length ts" if "parse_expr (Suc n) tm ts = Some (Some (e, rest))" for e rest
  proof -
    from that obtain f r where f: "parse_and_expr n tm ts = Some (Some (f, r))"
      by (auto split: option.splits)
    then have lr: "length r < length ts" using IH[of ts] by auto
    show ?thesis
    proof (cases "\<exists>r'. r = Tok T_OR # r'")
      case True
      then obtain r' where r': "r = Tok T_OR # r'" by blast
      with that f obtain e' where "parse_expr n tm r' = Some (Some (e', rest))"
        by (auto split: option.splits)
      then have "length rest < length r'" using IH[of r'] by auto
      then show ?thesis using lr r' by simp
    next
      case False
      then have "rest = r" using that f
        by (auto split: option.splits list.splits token.splits if_splits)
      then show ?thesis using lr by simp
    qed
  qed
  have e1: "parse_expr (Suc n) tm ts \<noteq> None" if "3 * length ts + 3 \<le> Suc n"
  proof -
    have nf: "parse_and_expr n tm ts \<noteq> None" using that IH[of ts] by auto
    have "parse_expr n tm r' \<noteq> None"
      if "parse_and_expr n tm ts = Some (Some (f, Tok k # r'))" for f k r'
    proof -
      have "length (Tok k # r') < length ts" using that IH[of ts] by blast
      then have "3 * length r' + 3 \<le> n" using \<open>3 * length ts + 3 \<le> Suc n\<close> by simp
      then show ?thesis using IH[of r'] by auto
    qed
    then show ?thesis using nf
      by (auto split: option.splits list.splits token.splits)
  qed
  show ?case using f1 f2 a1 a2 e1 e2 by blast
qed

lemma eval_string_unknown_name:
  assumes ne: "name \<noteq> []" and ids: "list_all is_id_char name" and kw: "get_keyword name = None"
    and nmy: "name \<noteq> ''n''" "name \<noteq> ''m''" "name \<noteq> ''y''" and un: "syms cfg name = None"
  shows "eval_string d cfg name = (Some ''n'', cfg, warn cfg (No_symbol_in_configuration name))"
proof -
  obtain c cs where n: "name = c # cs" using ne by (cases name) auto
  have c: "is_id_char c" and t: "takeWhile is_id_char cs = cs" and dr: "dropWhile is_id_char cs = []"
    using ids n by (auto simp: list_all_iff)
  have tl: "tokenize_loop True bs None cfg name
            = (Some [TSym name], cfg, warn cfg (No_symbol_in_configuration name))" for bs
  proof -
    have "tokenize_loop True bs None cfg (c # cs)
            = (Some [TSym (c # cs)], cfg, warn cfg (No_symbol_in_configuration (c # cs)))"
      using kw[unfolded n] nmy[unfolded n] un[unfolded n]
      by (simp add: c t dr Let_def in_STRING_LEX_def emit_def lookup_sym_def)
    then show ?thesis by (simp add: n)
  qed
  have p: "parse_expr 6 True [TSym name] = Some (Some (Leaf (SymRef name), []))"
    by (simp add: eval_nat_numeral peek_rel_def)
  have e: "eval d cfg (Some (Leaf (SymRef name))) = Some ''n''"
    using un by (simp add: eval_def eval_expr_def the_sym_def Symbol_init_def)
  show ?thesis
    using p e by (simp add: eval_string_def tokenize_def tl)
qed

text \<open>
  Claim C10. For every string s, \<^verbatim>\<open>eval_string(s)\<close> leaves the configuration unchanged,
  whether it returns or raises: the state after the call is the state before it, so the
  symbol table has the same entries, and every symbol has the same user value and the same
  value as before. A name that \<^verbatim>\<open>syms\<close> does not hold is evaluated as a fresh symbol of
  unknown type, to "n", with the warning "no symbol ... in configuration" as only effect.
\<close>

theorem eval_string_leaves_configuration_unchanged:
  "fst (snd (eval_string d cfg s)) = cfg
   \<and> dom (syms (fst (snd (eval_string d cfg s)))) = dom (syms cfg)
   \<and> user_value (the_sym (fst (snd (eval_string d cfg s))) n) = user_value (the_sym cfg n)
   \<and> Symbol_value d' (fst (snd (eval_string d cfg s))) n = Symbol_value d' cfg n
   \<and> (name \<noteq> [] \<and> list_all is_id_char name \<and> get_keyword name = None
        \<and> name \<noteq> ''n'' \<and> name \<noteq> ''m'' \<and> name \<noteq> ''y'' \<and> syms cfg name = None \<longrightarrow>
      eval_string d cfg name = (Some ''n'', cfg, warn cfg (No_symbol_in_configuration name)))"
  using eval_string_unknown_name[of name cfg d]
  by (simp add: eval_string_cfg)

lemma eval_string_examples:
  "eval_string 2 cfg_select ''y && (A || NOPE)''
     = (Some ''y'', cfg_select, [No_symbol_in_configuration ''NOPE''])"
  "syms cfg_select ''NOPE'' = None"
  "list_all is_id_char ''NOPE''" "get_keyword ''NOPE'' = None"
  "print_warnings cfg_select"
  by (simp_all add: eval_string_def tokenize_def Let_def is_id_char_def is_word_def is_alpha_def
      is_digit_def is_space_def get_keyword_def in_STRING_LEX_def emit_def lookup_sym_def
      punctuation_def warn_def eval_nat_numeral peek_rel_def TOKEN_TO_REL_def
      engine_defs cfg_select_def)

theorem eval_string_leaves_configuration_unchanged_witness:
  "syms cfg_select ''NOPE'' = None
   \<and> list_all is_id_char ''NOPE'' \<and> get_keyword ''NOPE'' = None
   \<and> eval_string 2 cfg_select ''NOPE'' = (Some ''n'', cfg_select, [No_symbol_in_configuration ''NOPE''])
   \<and> syms (fst (snd (eval_string 2 cfg_select ''NOPE''))) ''NOPE'' = None
   \<and> eval_string 2 cfg_select ''y && (A || NOPE)''
        = (Some ''y'', cfg_select, [No_symbol_in_configuration ''NOPE''])"
  using eval_string_leaves_configuration_unchanged[of 2 cfg_select "''NOPE''" "''NOPE''" 2 "''NOPE''"]
    eval_string_examples
  by (simp add: warn_def)

text \<open>
  The same tokenizer registers unknown names when it does not run for \<^verbatim>\<open>eval_string\<close>:
  parsing the line \<^verbatim>\<open>config NOPE\<close> adds NOPE to the symbol table.
\<close>

lemma tokenize_registers_when_parsing:
  "syms cfg_select ''NOPE'' = None
   \<and> syms (fst (snd (tokenize cfg_select ''config NOPE'' False))) ''NOPE'' = Some Symbol_init"
  by (simp add: tokenize_def Let_def is_id_char_def is_word_def is_alpha_def
      is_digit_def is_space_def get_keyword_def in_STRING_LEX_def emit_def lookup_sym_def
      cfg_select_def Config_init_def)

section \<open>The environment is read at construction only (claim C9)\<close>

lemma Config_open_environ [simp]:
  "Config_open cfg (w \<lparr> environ := e \<rparr>) filename = Config_open cfg w filename"
  by (simp add: Config_open_def split: option.splits)

lemma defconfig_loop_environ [simp]:
  "defconfig_loop n d cfg (w \<lparr> environ := e \<rparr>) ds = defconfig_loop n d cfg w ds"
proof (induction ds)
  case Nil
  show ?case by simp
next
  case (Cons x ds)
  obtain filename cond_expr where x: "x = (filename, cond_expr)" by (cases x)
  show ?case
    unfolding x using Cons.IH
    by (simp split: option.splits expr.splits operand.splits Option.bind_splits)
qed

lemma defconfig_filename_environ [simp]:
  "defconfig_filename n d cfg (w \<lparr> environ := e \<rparr>) = defconfig_filename n d cfg w"
  by (simp add: defconfig_filename_def split: option.splits)

text \<open>
  An operation reads nothing of the environment and leaves it as it is: with another
  environment it gives the same result, the same configuration and the same files.
\<close>

lemma step_environ:
  "step n d operation cfg (w \<lparr> environ := e \<rparr>) =
     (case step n d operation cfg w of (r, cfg1, w1) \<Rightarrow> (r, cfg1, w1 \<lparr> environ := e \<rparr>))"
  by (cases operation) (simp_all split: option.splits prod.splits)

lemma step_keeps_environ:
  "environ (snd (snd (step n d operation cfg w))) = environ w"
  by (cases operation) (simp_all split: option.splits prod.splits)

definition observed :: "result list \<times> config \<times> world \<Rightarrow> result list \<times> config \<times> (string \<rightharpoonup> string)" where
  "observed x = (fst x, fst (snd x), files (snd (snd x)))"

lemma run_environ:
  "observed (run n d acts cfg (w \<lparr> environ := e \<rparr>)) = observed (run n d (map Op (ops_of acts)) cfg w)"
proof (induction acts arbitrary: cfg w e)
  case Nil
  show ?case by (simp add: observed_def)
next
  case (Cons a acts)
  show ?case
  proof (cases a)
    case (Op operation)
    obtain r cfg1 w1 where s: "step n d operation cfg w = (r, cfg1, w1)" by (cases "step n d operation cfg w")
    have "observed (run n d acts cfg1 (w1 \<lparr> environ := e \<rparr>)) = observed (run n d (map Op (ops_of acts)) cfg1 w1)"
      by (rule Cons.IH)
    then show ?thesis
      using Op s by (auto simp add: step_environ observed_def split: prod.splits)
  next
    case (Putenv k v)
    have "observed (run n d acts cfg (w \<lparr> environ := e(k \<mapsto> v) \<rparr>)) = observed (run n d (map Op (ops_of acts)) cfg w)"
      by (rule Cons.IH)
    then show ?thesis using Putenv by simp
  next
    case (Unsetenv k)
    have "observed (run n d acts cfg (w \<lparr> environ := e(k := None) \<rparr>)) = observed (run n d (map Op (ops_of acts)) cfg w)"
      by (rule Cons.IH)
    then show ?thesis using Unsetenv by simp
  qed
qed

lemma run_ops_of:
  "observed (run n d acts cfg w) = observed (run n d (map Op (ops_of acts)) cfg w)"
  using run_environ[where w = w and e = "environ w" and acts = acts and cfg = cfg and n = n and d = d]
  by simp

text \<open>
  Claim C9. The configuration reads the environment while it is constructed only
  (\<^verbatim>\<open>CONFIG_\<close>, \<^verbatim>\<open>srctree\<close> and the variables of \<^verbatim>\<open>option env\<close>): two runs that start from the
  same configuration and the same files, and perform the same operations on the
  configuration (value queries, \<^verbatim>\<open>load_config\<close>, \<^verbatim>\<open>write_config\<close>, \<^verbatim>\<open>defconfig_filename\<close>)
  between any changes of the process environment, return the same results, and end with
  the same configuration and the same files.
\<close>

theorem environment_read_at_construction_only:
  assumes "ops_of acts1 = ops_of acts2" and "files w1 = files w2"
  shows "fst (run n d acts1 cfg w1) = fst (run n d acts2 cfg w2)
       \<and> fst (snd (run n d acts1 cfg w1)) = fst (snd (run n d acts2 cfg w2))
       \<and> files (snd (snd (run n d acts1 cfg w1))) = files (snd (snd (run n d acts2 cfg w2)))"
proof -
  have w: "w1 = w2 \<lparr> environ := environ w1 \<rparr>" using assms(2) by simp
  have "observed (run n d acts1 cfg w1) = observed (run n d (map Op (ops_of acts1)) cfg w2)"
    by (subst w) (rule run_environ)
  also have "\<dots> = observed (run n d acts2 cfg w2)"
    unfolding assms(1) by (rule run_ops_of[symmetric])
  finally show ?thesis by (simp add: observed_def)
qed

lemmas env_defs = Config_new_def option_env_def add_defaults_def make_and_def Config_open_def
  isabs_def path_join_def defconfig_filename_def lookup_sym_def load_config_def unset_values_def

lemma run_plain:
  "fst (run 3 2 acts_plain (cfg_env_in world_env) world_env)
     = [Loaded [], Value ''y'', Value ''arm'', Filename (Some ''/src/arch/arm/defconfig'')]"
  by (simp add: acts_plain_def cfg_env_in_def world_env_def env_defs io_defs engine_defs
      eval_nat_numeral Let_def ref_value_def file_lines.simps str_defaults.simps)

lemma ops_of_acts_mutating:
  "ops_of acts_mutating = ops_of acts_plain"
  by (simp add: acts_mutating_def acts_plain_def)

theorem environment_read_at_construction_only_witness:
  "ops_of acts_mutating = ops_of acts_plain
   \<and> fst (run 3 2 acts_plain (cfg_env_in world_env) world_env)
       = [Loaded [], Value ''y'', Value ''arm'', Filename (Some ''/src/arch/arm/defconfig'')]
   \<and> fst (run 3 2 acts_mutating (cfg_env_in world_env) world_env)
       = [Loaded [], Value ''y'', Value ''arm'', Filename (Some ''/src/arch/arm/defconfig'')]"
  using environment_read_at_construction_only[of acts_mutating acts_plain world_env world_env
      3 2 "cfg_env_in world_env"] ops_of_acts_mutating run_plain
  by simp

text \<open>
  The construction does read the environment: \<^verbatim>\<open>__init__\<close> stores \<^verbatim>\<open>CONFIG_\<close> and \<^verbatim>\<open>srctree\<close>,
  and the same Kconfig files constructed under \<^verbatim>\<open>srctree=/other\<close> and \<^verbatim>\<open>ARCH=x86\<close> give a
  configuration on which the same operations, on the same files, return other results.
\<close>

lemma Config_new_captures:
  "config_prefix (Config_new w uname wrn) = (case environ w ''CONFIG_'' of None \<Rightarrow> ''CONFIG_'' | Some p \<Rightarrow> p)"
  "srctree (Config_new w uname wrn) = environ w ''srctree''"
  by (simp_all add: Config_new_def lookup_sym_def)

lemma construction_reads_environment:
  "fst (run 3 2 acts_plain
         (cfg_env_in (world_env \<lparr> environ := [''srctree'' \<mapsto> ''/other'', ''ARCH'' \<mapsto> ''x86''] \<rparr>))
         world_env)
     = [Loaded [], Value ''n'', Value ''x86'', Filename (Some ''/other/arch/x86/defconfig'')]"
  by (simp add: acts_plain_def cfg_env_in_def world_env_def env_defs io_defs engine_defs
      eval_nat_numeral Let_def ref_value_def file_lines.simps str_defaults.simps)

section \<open>Writing a configuration and loading it back (claim C1)\<close>

subsection \<open>Escaping and line splitting\<close>

lemma replace_char_Nil [simp]: "replace_char a new [] = []"
  by (simp add: replace_char_def)

lemma replace_char_Nil_iff [simp]: "replace_char a [x, y] s = [] \<longleftrightarrow> s = []"
  by (cases s) (simp_all add: replace_char_def)

lemma replace_char_Cons:
  "replace_char a new (c # cs) = (if c = a then new else [c]) @ replace_char a new cs"
  by (simp add: replace_char_def)

lemma replace_pair_Cons_other:
  "\<not> (x = a \<and> (\<exists>zs. ys = b # zs)) \<Longrightarrow> replace_pair a b new (x # ys) = x # replace_pair a b new ys"
  by (cases ys) auto

lemma unquote_quote:
  "replace_pair backslash dquote [dquote] (replace_char dquote [backslash, dquote] u) = u"
proof (induction u)
  case Nil
  show ?case by (simp add: replace_char_def)
next
  case (Cons c cs)
  show ?case
  proof (cases "c = dquote")
    case True
    then show ?thesis using Cons.IH by (simp add: replace_char_Cons)
  next
    case False
    have "\<not> (\<exists>zs. replace_char dquote [backslash, dquote] cs = dquote # zs)"
      by (cases cs) (auto simp: replace_char_Cons)
    then have "replace_pair backslash dquote [dquote] (c # replace_char dquote [backslash, dquote] cs)
        = c # replace_pair backslash dquote [dquote] (replace_char dquote [backslash, dquote] cs)"
      by (intro replace_pair_Cons_other) blast
    then show ?thesis using False Cons.IH by (simp add: replace_char_Cons)
  qed
qed

lemma unslash_slash:
  "replace_pair backslash backslash [backslash] (replace_char backslash [backslash, backslash] u) = u"
proof (induction u)
  case Nil
  show ?case by (simp add: replace_char_def)
next
  case (Cons c cs)
  show ?case
  proof (cases "c = backslash")
    case True
    then show ?thesis using Cons.IH by (simp add: replace_char_Cons)
  next
    case False
    then have "replace_pair backslash backslash [backslash] (c # replace_char backslash [backslash, backslash] cs)
        = c # replace_pair backslash backslash [backslash] (replace_char backslash [backslash, backslash] cs)"
      by (intro replace_pair_Cons_other) blast
    then show ?thesis using False Cons.IH by (simp add: replace_char_Cons)
  qed
qed

lemma unescape_escape: "unescape (escape v) = v"
  by (simp add: unescape_def escape_def unquote_quote unslash_slash)

lemma set_replace_char: "set (replace_char a new s) \<subseteq> set s \<union> set new"
  by (induction s) (auto simp: replace_char_Cons)

lemma single_line_escape: "single_line v \<Longrightarrow> single_line (escape v)"
proof -
  assume v: "single_line v"
  have "set (escape v) \<subseteq> set v \<union> {backslash, dquote}"
    unfolding escape_def
    using set_replace_char[of dquote "[backslash, dquote]" "replace_char backslash [backslash, backslash] v"]
      set_replace_char[of backslash "[backslash, backslash]" v]
    by auto
  then show ?thesis using v by (auto simp: single_line_def)
qed

lemma file_lines_single:
  "single_line l \<Longrightarrow> file_lines cur (l @ newline # rest) = (cur @ l) # file_lines [] rest"
  by (induction l arbitrary: cur) (auto simp: single_line_def)

lemma file_lines_append:
  "last a = newline \<Longrightarrow> a \<noteq> [] \<Longrightarrow> file_lines cur (a @ rest) = file_lines cur a @ file_lines [] rest"
proof (induction cur a rule: file_lines.induct)
  case (1 cur)
  then show ?case by simp
next
  case (2 cur c cs)
  show ?case
  proof (cases "cs = []")
    case True
    then show ?thesis using "2.prems" by simp
  next
    case False
    then obtain d ds where cs: "cs = d # ds" by (cases cs) auto
    have l: "last cs = newline" using "2.prems" False by simp
    show ?thesis
    proof (cases "c = newline")
      case True
      then show ?thesis using "2.IH"(1)[OF True l False] by simp
    next
      case nn: False
      show ?thesis
      proof (cases "c = carriage_return")
        case cr: True
        show ?thesis
        proof (cases "d = newline")
          case True
          show ?thesis
          proof (cases "ds = []")
            case True
            then show ?thesis using cr nn cs \<open>d = newline\<close> by simp
          next
            case False
            then have "last ds = newline" using l cs by simp
            then show ?thesis using "2.IH"(2)[OF nn cr cs \<open>d = newline\<close> _ False] cr nn cs \<open>d = newline\<close> by simp
          qed
        next
          case False
          then show ?thesis using "2.IH"(3)[OF nn cr cs False l \<open>cs \<noteq> []\<close>] cr nn cs by simp
        qed
      next
        case False
        then show ?thesis using "2.IH"(4)[OF nn False l \<open>cs \<noteq> []\<close>] nn by simp
      qed
    qed
  qed
qed

subsection \<open>The strings that write_config writes\<close>

lemma config_string_newline:
  "config_string d cfg s = Some (Some l) \<Longrightarrow> l \<noteq> [] \<and> last l = newline"
  by (auto simp: config_string_def Let_def bind_eq_Some_conv split: if_splits)

lemma node_strings_newline:
  assumes "node_strings d cfg W it p dep vis = Some (out, W')" and "l \<in> set out"
  shows "l \<noteq> [] \<and> last l = newline"
proof (cases it)
  case (ISym s)
  then have "config_string d cfg s = Some (Some l)"
    using assms by (auto simp: node_strings_def bind_eq_Some_conv split: if_splits option.splits)
  then show ?thesis by (rule config_string_newline)
next
  case (IChoice ci)
  then show ?thesis using assms by (simp add: node_strings_def)
next
  case MENU
  then show ?thesis
    using assms by (auto simp: node_strings_def bind_eq_Some_conv title_block_def
        split: if_splits option.splits)
next
  case COMMENT
  then show ?thesis
    using assms by (auto simp: node_strings_def bind_eq_Some_conv title_block_def
        split: if_splits option.splits)
qed

lemma walk_nodes_newline:
  "walk_nodes d cfg W ns = Some (out, W') \<Longrightarrow> l \<in> set out \<Longrightarrow> l \<noteq> [] \<and> last l = newline"
proof (induction d cfg W ns arbitrary: out W' rule: walk_nodes.induct)
  case (1 d cfg written)
  then show ?case by simp
next
  case (2 d cfg written it prompt dep vis children rest)
  from "2.prems"(1) obtain out1 w1 out2 w2 out3 w3 where
    n: "node_strings d cfg written it prompt dep vis = Some (out1, w1)"
    and c: "walk_nodes d cfg w1 children = Some (out2, w2)"
    and r: "walk_nodes d cfg w2 rest = Some (out3, w3)"
    and o: "out = out1 @ out2 @ out3"
    by (auto simp: bind_eq_Some_conv)
  from "2.prems"(2) o consider "l \<in> set out1" | "l \<in> set out2" | "l \<in> set out3" by auto
  then show ?case
  proof cases
    case 1
    then show ?thesis using n node_strings_newline by blast
  next
    case 2
    then show ?thesis using "2.IH"(1)[OF n refl c] by blast
  next
    case 3
    then show ?thesis using "2.IH"(2)[OF n refl c refl r] by blast
  qed
qed

lemma file_lines_concat:
  "(\<And>s. s \<in> set ss \<Longrightarrow> s \<noteq> [] \<and> last s = newline) \<Longrightarrow>
     file_lines [] (concat ss) = concat (map (file_lines []) ss)"
proof (induction ss)
  case Nil
  show ?case by simp
next
  case (Cons s ss)
  have "s \<noteq> []" "last s = newline" using Cons.prems[of s] by simp_all
  then have "file_lines [] (s @ concat ss) = file_lines [] s @ file_lines [] (concat ss)"
    by (intro file_lines_append)
  then show ?case using Cons by simp
qed

lemma inert_concat:
  assumes "\<And>s. s \<in> set ss \<Longrightarrow> s \<noteq> [] \<and> last s = newline"
    and "\<And>s. s \<in> set ss \<Longrightarrow> inert pfx name s"
  shows "inert pfx name (concat ss)"
  using assms(2) by (auto simp: inert_def file_lines_concat[OF assms(1)] list_all_iff)

text \<open>
  The strings of the tree walk, seen from the symbol \<open>name\<close>: when the walk reaches a node
  of the symbol for the first time it emits the line of the symbol (if it has one), once;
  every other string is the line of another symbol or the title block of a menu or
  comment.
\<close>

lemma node_strings_lines:
  assumes n: "node_strings d cfg W it p dep vis = Some (out, W')"
    and others: "\<forall>s l. it = ISym s \<longrightarrow> s \<noteq> name \<longrightarrow> config_string d cfg s = Some (Some l) \<longrightarrow>
        inert pfx name l"
    and titles: "\<forall>title cond. p = Some (title, cond) \<longrightarrow> it = MENU \<or> it = COMMENT \<longrightarrow>
        inert pfx name (title_block title)"
  shows "set W' = set W \<union> set (case it of ISym s \<Rightarrow> [s] | _ \<Rightarrow> [])"
    and "it \<noteq> ISym name \<or> name \<in> set W \<Longrightarrow> x \<in> set out \<Longrightarrow> inert pfx name x"
    and "it = ISym name \<Longrightarrow> name \<notin> set W \<Longrightarrow>
           out = (case config_string d cfg name of Some (Some l) \<Rightarrow> [l] | _ \<Rightarrow> [])"
proof -
  show "set W' = set W \<union> set (case it of ISym s \<Rightarrow> [s] | _ \<Rightarrow> [])"
    using n by (cases it) (auto simp: node_strings_def bind_eq_Some_conv split: if_splits option.splits)
  show "inert pfx name x" if nn: "it \<noteq> ISym name \<or> name \<in> set W" and xo: "x \<in> set out"
  proof (cases it)
    case (ISym s)
    show ?thesis
    proof (cases "s \<in> set W")
      case True
      then show ?thesis using n ISym xo by (simp add: node_strings_def)
    next
      case False
      then have "s \<noteq> name" using nn ISym by auto
      moreover have "config_string d cfg s = Some (Some x)"
        using n ISym False xo
        by (auto simp: node_strings_def bind_eq_Some_conv split: option.splits)
      ultimately show ?thesis using others ISym by blast
    qed
  next
    case (IChoice ci)
    then show ?thesis using n xo by (simp add: node_strings_def)
  next
    case MENU
    then obtain title cond where "p = Some (title, cond)" "x = title_block title"
      using n xo
      by (auto simp: node_strings_def bind_eq_Some_conv split: if_splits option.splits)
    then show ?thesis using titles MENU by blast
  next
    case COMMENT
    then obtain title cond where "p = Some (title, cond)" "x = title_block title"
      using n xo
      by (auto simp: node_strings_def bind_eq_Some_conv split: if_splits option.splits)
    then show ?thesis using titles COMMENT by blast
  qed
  show "out = (case config_string d cfg name of Some (Some l) \<Rightarrow> [l] | _ \<Rightarrow> [])"
    if "it = ISym name" "name \<notin> set W"
    using n that by (auto simp: node_strings_def bind_eq_Some_conv split: option.splits)
qed

lemma walk_nodes_lines:
  assumes "walk_nodes d cfg W ns = Some (out, W')"
    and "\<forall>s l. s \<in> set (tree_syms ns) \<longrightarrow> s \<noteq> name \<longrightarrow> config_string d cfg s = Some (Some l) \<longrightarrow>
           inert pfx name l"
    and "\<forall>title\<in>set (tree_titles ns). inert pfx name (title_block title)"
  shows "set W' = set W \<union> set (tree_syms ns)
     \<and> (name \<in> set W \<or> name \<notin> set (tree_syms ns) \<longrightarrow> (\<forall>x\<in>set out. inert pfx name x))
     \<and> (name \<notin> set W \<and> name \<in> set (tree_syms ns) \<longrightarrow>
          (\<exists>before after. out = before @ (case config_string d cfg name of Some (Some l) \<Rightarrow> [l] | _ \<Rightarrow> []) @ after
             \<and> (\<forall>x\<in>set before \<union> set after. inert pfx name x)))"
  using assms
proof (induction d cfg W ns arbitrary: out W' rule: walk_nodes.induct)
  case (1 d cfg written)
  then show ?case by simp
next
  case (2 d cfg written it prompt dep vis children rest)
  let ?own = "case config_string d cfg name of Some (Some l) \<Rightarrow> [l] | _ \<Rightarrow> []"
  from "2.prems"(1) obtain out1 w1 out2 w2 out3 w3 where
    n: "node_strings d cfg written it prompt dep vis = Some (out1, w1)"
    and c: "walk_nodes d cfg w1 children = Some (out2, w2)"
    and r: "walk_nodes d cfg w2 rest = Some (out3, w3)"
    and o: "out = out1 @ out2 @ out3" and w: "W' = w3"
    by (auto simp: bind_eq_Some_conv)
  have ns: "set (tree_syms (MenuNode it prompt dep vis children # rest))
      = set (case it of ISym s \<Rightarrow> [s] | _ \<Rightarrow> []) \<union> set (tree_syms children) \<union> set (tree_syms rest)"
    by (cases it) auto
  have mem: "s \<in> set (tree_syms (MenuNode it prompt dep vis children # rest))"
    if "it = ISym s \<or> s \<in> set (tree_syms children) \<or> s \<in> set (tree_syms rest)" for s
    using that unfolding ns by (cases it) auto
  have memt: "t \<in> set (tree_titles (MenuNode it prompt dep vis children # rest))"
    if "(\<exists>cond. prompt = Some (t, cond) \<and> (it = MENU \<or> it = COMMENT))
        \<or> t \<in> set (tree_titles children) \<or> t \<in> set (tree_titles rest)" for t
    using that by auto
  have o1: "\<forall>s l. it = ISym s \<longrightarrow> s \<noteq> name \<longrightarrow> config_string d cfg s = Some (Some l) \<longrightarrow>
      inert pfx name l"
    using "2.prems"(2) mem by blast
  have t1: "\<forall>title cond. prompt = Some (title, cond) \<longrightarrow> it = MENU \<or> it = COMMENT \<longrightarrow>
      inert pfx name (title_block title)"
    using "2.prems"(3) memt by blast
  have pc: "\<forall>s l. s \<in> set (tree_syms children) \<longrightarrow> s \<noteq> name \<longrightarrow>
      config_string d cfg s = Some (Some l) \<longrightarrow> inert pfx name l"
    using "2.prems"(2) mem by blast
  have pr: "\<forall>s l. s \<in> set (tree_syms rest) \<longrightarrow> s \<noteq> name \<longrightarrow>
      config_string d cfg s = Some (Some l) \<longrightarrow> inert pfx name l"
    using "2.prems"(2) mem by blast
  have tc: "\<forall>title\<in>set (tree_titles children). inert pfx name (title_block title)"
    using "2.prems"(3) memt by blast
  have tr: "\<forall>title\<in>set (tree_titles rest). inert pfx name (title_block title)"
    using "2.prems"(3) memt by blast
  note a = node_strings_lines[OF n o1 t1]
  note b0 = "2.IH"(1)[OF n refl c pc tc]
  note e0 = "2.IH"(2)[OF n refl c refl r pr tr]
  have b1: "set w2 = set w1 \<union> set (tree_syms children)" using b0 by (rule conjunct1)
  have b2: "\<forall>x\<in>set out2. inert pfx name x" if "name \<in> set w1 \<or> name \<notin> set (tree_syms children)"
    using b0[THEN conjunct2, THEN conjunct1] that by (rule mp)
  have b3: "\<exists>before after. out2 = before @ ?own @ after \<and> (\<forall>x\<in>set before \<union> set after. inert pfx name x)"
    if "name \<notin> set w1 \<and> name \<in> set (tree_syms children)"
    using b0[THEN conjunct2, THEN conjunct2] that by (rule mp)
  have e1: "set w3 = set w2 \<union> set (tree_syms rest)" using e0 by (rule conjunct1)
  have e2: "\<forall>x\<in>set out3. inert pfx name x" if "name \<in> set w2 \<or> name \<notin> set (tree_syms rest)"
    using e0[THEN conjunct2, THEN conjunct1] that by (rule mp)
  have e3: "\<exists>before after. out3 = before @ ?own @ after \<and> (\<forall>x\<in>set before \<union> set after. inert pfx name x)"
    if "name \<notin> set w2 \<and> name \<in> set (tree_syms rest)"
    using e0[THEN conjunct2, THEN conjunct2] that by (rule mp)
  have 1: "set W' = set written \<union> set (tree_syms (MenuNode it prompt dep vis children # rest))"
    unfolding ns w e1 b1 a(1) by blast
  have 2: "\<forall>x\<in>set out. inert pfx name x"
    if h: "name \<in> set written \<or> name \<notin> set (tree_syms (MenuNode it prompt dep vis children # rest))"
  proof -
    have h1: "it \<noteq> ISym name \<or> name \<in> set written" using h unfolding ns by (cases it) auto
    have i1: "\<forall>x\<in>set out1. inert pfx name x" using a(2)[OF h1] by blast
    have h2: "name \<in> set w1 \<or> name \<notin> set (tree_syms children)"
      using h unfolding ns a(1) by blast
    have i2: "\<forall>x\<in>set out2. inert pfx name x" using b2[OF h2] .
    have h3: "name \<in> set w2 \<or> name \<notin> set (tree_syms rest)"
      using h unfolding ns b1 a(1) by blast
    have i3: "\<forall>x\<in>set out3. inert pfx name x" using e2[OF h3] .
    show ?thesis unfolding o using i1 i2 i3 by auto
  qed
  have 3: "\<exists>before after. out = before @ ?own @ after \<and> (\<forall>x\<in>set before \<union> set after. inert pfx name x)"
    if nw: "name \<notin> set written" and nt: "name \<in> set (tree_syms (MenuNode it prompt dep vis children # rest))"
  proof (cases "it = ISym name")
    case True
    have o1': "out1 = ?own" using a(3)[OF True nw] .
    have m1: "name \<in> set w1" unfolding a(1) using True by simp
    have i2: "\<forall>x\<in>set out2. inert pfx name x" using b2 m1 by blast
    have m2: "name \<in> set w2" unfolding b1 using m1 by simp
    have i3: "\<forall>x\<in>set out3. inert pfx name x" using e2 m2 by blast
    have "out = [] @ ?own @ (out2 @ out3)" unfolding o o1' by simp
    moreover have "\<forall>x\<in>set [] \<union> set (out2 @ out3). inert pfx name x" using i2 i3 by auto
    ultimately show ?thesis by (intro exI conjI)
  next
    case False
    have i1: "\<forall>x\<in>set out1. inert pfx name x" using a(2) False by blast
    have n1: "name \<notin> set w1" unfolding a(1) using False nw by (cases it) auto
    show ?thesis
    proof (cases "name \<in> set (tree_syms children)")
      case True
      obtain before after where
        o2: "out2 = before @ ?own @ after" and i2: "\<forall>x\<in>set before \<union> set after. inert pfx name x"
        using b3 n1 True by blast
      have m2: "name \<in> set w2" unfolding b1 using True by simp
      have i3: "\<forall>x\<in>set out3. inert pfx name x" using e2 m2 by blast
      have "out = (out1 @ before) @ ?own @ (after @ out3)" unfolding o o2 by simp
      moreover have "\<forall>x\<in>set (out1 @ before) \<union> set (after @ out3). inert pfx name x"
        using i1 i2 i3 by auto
      ultimately show ?thesis by (intro exI conjI)
    next
      case nc: False
      have i2: "\<forall>x\<in>set out2. inert pfx name x" using b2 nc by blast
      have n2: "name \<notin> set w2" unfolding b1 using n1 nc by simp
      have "name \<in> set (tree_syms rest)" using nt False nc unfolding ns by (cases it) auto
      then obtain before after where
        o3: "out3 = before @ ?own @ after" and i3: "\<forall>x\<in>set before \<union> set after. inert pfx name x"
        using e3 n2 by blast
      have "out = (out1 @ out2 @ before) @ ?own @ after" unfolding o o3 by simp
      moreover have "\<forall>x\<in>set (out1 @ out2 @ before) \<union> set after. inert pfx name x"
        using i1 i2 i3 by auto
      ultimately show ?thesis by (intro exI conjI)
    qed
  qed
  show ?case
    apply (intro conjI impI)
    subgoal by (rule 1)
    subgoal using 2 by blast
    subgoal using 3 by blast
    done
qed

subsection \<open>Matching the lines written\<close>

lemma is_word_chars [simp]:
  "\<not> is_word CHR ''=''" "\<not> is_word CHR ''#''" "\<not> is_word CHR '' ''" "\<not> is_word newline"
  "\<not> is_word carriage_return" "\<not> is_space CHR ''=''" "\<not> is_space dquote" "\<not> is_space CHR ''t''"
  by (simp_all add: is_word_def is_alpha_def is_digit_def is_space_def)

lemma takeWhile_word:
  "list_all is_word name \<Longrightarrow> \<not> is_word c \<Longrightarrow> takeWhile is_word (name @ c # rest) = name"
  by (induction name) simp_all

lemma dropWhile_word:
  "list_all is_word name \<Longrightarrow> \<not> is_word c \<Longrightarrow> dropWhile is_word (name @ c # rest) = c # rest"
  by (induction name) simp_all

lemma single_line_word: "list_all is_word s \<Longrightarrow> single_line s"
  by (induction s) (auto simp: single_line_def)

lemma single_line_append [simp]: "single_line (a @ b) \<longleftrightarrow> single_line a \<and> single_line b"
  by (auto simp: single_line_def)

lemma single_line_Cons [simp]:
  "single_line (c # s) \<longleftrightarrow> c \<noteq> newline \<and> c \<noteq> carriage_return \<and> single_line s"
  by (auto simp: single_line_def)

lemma single_line_Nil [simp]: "single_line []"
  by (simp add: single_line_def)

lemma rstrip_snoc: "\<not> is_space c \<Longrightarrow> rstrip (xs @ [c]) = xs @ [c]"
  by (simp add: rstrip_def)

lemma rstrip_append:
  assumes "rstrip v = v" and "v \<noteq> []"
  shows "rstrip (a @ v) = a @ v"
proof -
  obtain ys c where v: "v = ys @ [c]" using assms(2) by (cases v rule: rev_cases) auto
  have "\<not> is_space c"
  proof
    assume "is_space c"
    then have "rstrip v = rstrip ys" by (simp add: v rstrip_def)
    moreover have "length (rstrip ys) \<le> length ys"
      by (simp add: rstrip_def length_dropWhile_le[of is_space "rev ys", simplified])
    ultimately show False using assms(1) v by simp
  qed
  then have "rstrip ((a @ ys) @ [c]) = (a @ ys) @ [c]" by (rule rstrip_snoc)
  then show ?thesis by (simp add: v)
qed

lemma set_re_match_line:
  assumes "list_all is_word name" and "name \<noteq> []" and "single_line val"
  shows "set_re_match pfx (pfx @ name @ ''='' @ val) = Some (name, val)"
proof -
  have "takeWhile (\<lambda>x. x \<noteq> newline) val = val"
    using assms(3) by (auto simp: takeWhile_eq_all_conv single_line_def)
  then show ?thesis
    using assms(1,2) by (simp add: set_re_match_def takeWhile_word dropWhile_word)
qed

lemma set_re_match_unset_line:
  assumes "list_all is_word pfx"
  shows "set_re_match pfx (''# '' @ pfx @ name @ '' is not set'') = None"
proof (cases pfx)
  case Nil
  then show ?thesis by (simp add: set_re_match_def)
next
  case (Cons p ps)
  then have "p \<noteq> CHR ''#''" using assms by auto
  then show ?thesis using Cons by (simp add: set_re_match_def)
qed

lemma unset_re_match_line:
  assumes "list_all is_word name" and "name \<noteq> []"
  shows "unset_re_match pfx (''# '' @ pfx @ name @ '' is not set'') = Some name"
  using assms takeWhile_word[of name "CHR '' ''" "''is not set''"]
    dropWhile_word[of name "CHR '' ''" "''is not set''"]
  by (simp add: unset_re_match_def Let_def)

subsection \<open>Lines that are not about a symbol\<close>

lemma rstrip_after:
  "\<not> is_space c \<Longrightarrow> rstrip (a @ c # b) = a @ c # rstrip b"
proof (induction b rule: rev_induct)
  case Nil
  then show ?case using rstrip_snoc[of c a] by (simp add: rstrip_def)
next
  case (snoc x xs)
  show ?case
  proof (cases "is_space x")
    case True
    have "rstrip (a @ c # xs @ [x]) = rstrip (a @ c # xs)" using True by (simp add: rstrip_def)
    moreover have "rstrip (xs @ [x]) = rstrip xs" using True by (simp add: rstrip_def)
    ultimately show ?thesis using snoc by simp
  next
    case False
    then show ?thesis
      using rstrip_snoc[of x "a @ c # xs"] rstrip_snoc[of x xs] by simp
  qed
qed

lemma first_other_char:
  "\<not> list_all P s \<Longrightarrow> \<exists>w c r. s = w @ c # r \<and> list_all P w \<and> \<not> P c"
proof (induction s)
  case Nil
  then show ?case by simp
next
  case (Cons x xs)
  show ?case
  proof (cases "P x")
    case True
    then obtain w c r where "xs = w @ c # r" "list_all P w" "\<not> P c" using Cons by auto
    then have "x # xs = (x # w) @ c # r \<and> list_all P (x # w) \<and> \<not> P c" using True by simp
    then show ?thesis by blast
  next
    case False
    then have "x # xs = [] @ x # xs \<and> list_all P [] \<and> \<not> P x" by simp
    then show ?thesis by blast
  qed
qed

lemma id_char_cases: "is_id_char c \<Longrightarrow> is_word c \<or> c = CHR ''.'' \<or> c = CHR ''/'' \<or> c = CHR ''-''"
  by (auto simp: is_id_char_def)

lemma not_target_first:
  assumes "line \<noteq> []" and "hd line \<noteq> CHR ''#''"
  shows "unset_re_match pfx line = None"
  using assms by (cases line) (auto simp: unset_re_match_def Let_def)

text \<open>The entry of a symbol whose name has only characters of identifiers is about it alone.\<close>

lemma assignment_line_target:
  assumes s: "list_all is_id_char s" and pfx: "list_all is_word pfx" and ne: "s \<noteq> name"
  shows "line_target pfx (pfx @ s @ ''='' @ val) \<noteq> Some name"
proof -
  let ?line = "pfx @ s @ CHR ''='' # rstrip val"
  have r: "rstrip (pfx @ s @ ''='' @ val) = ?line"
    using rstrip_after[of "CHR ''=''" "pfx @ s" val] by simp
  have hd: "?line \<noteq> [] \<and> hd ?line \<noteq> CHR ''#''"
  proof (cases pfx)
    case Nil
    show ?thesis
    proof (cases s)
      case Nil
      then show ?thesis using \<open>pfx = []\<close> by simp
    next
      case (Cons c cs)
      then have "c \<noteq> CHR ''#''" using s by (auto simp: is_id_char_def)
      then show ?thesis using Cons \<open>pfx = []\<close> by simp
    qed
  next
    case (Cons p ps)
    then have "p \<noteq> CHR ''#''" using pfx by auto
    then show ?thesis using Cons by simp
  qed
  have u: "unset_re_match pfx ?line = None" using hd by (intro not_target_first) auto
  have "set_re_match pfx ?line = None \<or> (\<exists>v. set_re_match pfx ?line = Some (s, v))"
  proof (cases "list_all is_word s")
    case True
    then show ?thesis
      by (cases "s = []") (simp_all add: set_re_match_def takeWhile_word dropWhile_word)
  next
    case False
    then obtain w c r where d: "s = w @ c # r" "list_all is_word w" "\<not> is_word c"
      using first_other_char[of is_word s] by blast
    then have "is_id_char c" using s by simp
    then have "c \<noteq> CHR ''=''" using d(3) by (auto simp: is_id_char_def)
    then show ?thesis
      using d takeWhile_word[of w c "r @ CHR ''='' # rstrip val"]
        dropWhile_word[of w c "r @ CHR ''='' # rstrip val"]
      by (simp add: set_re_match_def)
  qed
  then show ?thesis using u ne unfolding line_target_def r by auto
qed

lemma unset_line_target:
  assumes s: "list_all is_id_char s" and pfx: "list_all is_word pfx" and ne: "s \<noteq> name"
  shows "line_target pfx (''# '' @ pfx @ s @ '' is not set'') \<noteq> Some name"
proof -
  let ?line = "''# '' @ pfx @ s @ '' is not set''"
  have r: "rstrip ?line = ?line"
    using rstrip_snoc[of "CHR ''t''" "''# '' @ pfx @ s @ '' is not se''"] by simp
  have st: "set_re_match pfx ?line = None" using set_re_match_unset_line[OF pfx] .
  have "unset_re_match pfx ?line = None \<or> unset_re_match pfx ?line = Some s"
  proof (cases "list_all is_word s")
    case True
    then show ?thesis
      using takeWhile_word[of s "CHR '' ''" "''is not set''"]
        dropWhile_word[of s "CHR '' ''" "''is not set''"]
      by (simp add: unset_re_match_def Let_def)
  next
    case False
    then obtain w c r where d: "s = w @ c # r" "list_all is_word w" "\<not> is_word c"
      using first_other_char[of is_word s] by blast
    then have "is_id_char c" using s by simp
    then have "c \<noteq> CHR '' ''" using d(3) by (auto simp: is_id_char_def)
    then show ?thesis
      using d takeWhile_word[of w c "r @ '' is not set''"]
        dropWhile_word[of w c "r @ '' is not set''"]
      by (simp add: unset_re_match_def Let_def)
  qed
  then show ?thesis using st ne unfolding line_target_def r by auto
qed

lemma symbol_line_inert:
  assumes s: "list_all is_id_char s" and pfx: "list_all is_word (config_prefix cfg)"
    and ne: "s \<noteq> name"
    and cs: "config_string d cfg s = Some (Some l)" and sl: "single_line (butlast l)"
  shows "inert (config_prefix cfg) name l"
proof -
  let ?p = "config_prefix cfg"
  have l: "l = butlast l @ [newline]"
    using config_string_newline[OF cs] append_butlast_last_id[of l] by simp
  have fl: "file_lines [] l = [butlast l]"
    using file_lines_single[OF sl, of "[]" "[]"] l by simp
  obtain v w where vw: "value_and_flag d cfg s = Some (v, w)"
    using cs by (auto simp: config_string_def Let_def bind_eq_Some_conv split: if_splits)
  have form: "(\<exists>val. l = (?p @ s @ ''='' @ val) @ [newline])
      \<or> l = (''# '' @ ?p @ s @ '' is not set'') @ [newline]"
  proof (cases "stype (the_sym cfg s) = STRING")
    case True
    then have "l = (?p @ s @ ''='' @ (dquote # escape v @ [dquote])) @ [newline]"
      using cs vw by (auto simp: config_string_def Let_def split: if_splits)
    then show ?thesis by blast
  next
    case False
    then have "l = (?p @ s @ ''='' @ v) @ [newline]
        \<or> l = (''# '' @ ?p @ s @ '' is not set'') @ [newline]"
      using cs vw by (auto simp: config_string_def Let_def split: if_splits)
    then show ?thesis by blast
  qed
  have "line_target ?p (butlast l) \<noteq> Some name"
  proof -
    from form show ?thesis
    proof (elim disjE exE)
      fix val
      assume "l = (?p @ s @ ''='' @ val) @ [newline]"
      then have "butlast l = ?p @ s @ ''='' @ val" by (simp only: butlast_snoc)
      then show ?thesis using assignment_line_target[OF s pfx ne] by simp
    next
      assume "l = (''# '' @ ?p @ s @ '' is not set'') @ [newline]"
      then have "butlast l = ''# '' @ ?p @ s @ '' is not set''" by (simp only: butlast_snoc)
      then show ?thesis using unset_line_target[OF s pfx ne] by simp
    qed
  qed
  then show ?thesis by (simp add: inert_def fl)
qed

lemma title_block_inert:
  assumes pfx: "list_all is_word pfx" and sl: "single_line title"
    and t: "line_target pfx (''# '' @ title) \<noteq> Some name"
  shows "inert pfx name (title_block title)"
proof -
  have "file_lines [] (title_block title) = [[], ''#'', ''# '' @ title, ''#'']"
    using file_lines_single[of "[]" "[]" "''#'' @ newline # (''# '' @ title) @ newline # ''#'' @ [newline]"]
      file_lines_single[of "''#''" "[]" "(''# '' @ title) @ newline # ''#'' @ [newline]"]
      file_lines_single[of "''# '' @ title" "[]" "''#'' @ [newline]"]
      file_lines_single[of "''#''" "[]" "[]"] sl
    by (simp add: title_block_def)
  moreover have "line_target pfx [] = None"
    by (simp add: line_target_def set_re_match_def unset_re_match_def rstrip_def Let_def)
  moreover have "line_target pfx ''#'' = None"
  proof (cases pfx)
    case Nil
    then show ?thesis
      by (simp add: line_target_def set_re_match_def unset_re_match_def rstrip_def is_space_def Let_def)
  next
    case (Cons p ps)
    then have "p \<noteq> CHR ''#''" using pfx by auto
    then show ?thesis using Cons
      by (simp add: line_target_def set_re_match_def unset_re_match_def rstrip_def is_space_def Let_def)
  qed
  ultimately show ?thesis using t by (simp add: inert_def)
qed

subsection \<open>Loading a line\<close>

lemma set_value_no_invalidate_frame:
  "config_prefix (fst (set_value_no_invalidate cfg name v spw)) = config_prefix cfg"
  "print_warnings (fst (set_value_no_invalidate cfg name v spw)) = print_warnings cfg"
  "syms cfg name \<noteq> None \<Longrightarrow>
     (syms (fst (set_value_no_invalidate cfg name v spw)) n = None) = (syms cfg n = None)"
  "stype (the_sym (fst (set_value_no_invalidate cfg name v spw)) n) = stype (the_sym cfg n)"
  "choice (the_sym (fst (set_value_no_invalidate cfg name v spw)) n) = choice (the_sym cfg n)"
  "nodes (the_sym (fst (set_value_no_invalidate cfg name v spw)) n) = nodes (the_sym cfg n)"
  by (auto simp: set_value_no_invalidate_def Let_def update_choice_def the_sym_def
      split: option.splits)

lemma set_value_no_invalidate_other:
  "n \<noteq> name \<Longrightarrow> the_sym (fst (set_value_no_invalidate cfg name v spw)) n = the_sym cfg n"
  by (auto simp: set_value_no_invalidate_def Let_def the_sym_def split: option.splits)

lemma set_value_no_invalidate_warnings:
  "w \<in> set (snd (set_value_no_invalidate cfg name v spw)) \<Longrightarrow> warning_name w = Some name"
  by (auto simp: set_value_no_invalidate_def Let_def warn_def warn_undef_assign_def
      split: if_splits)

lemma assign_loaded_warnings:
  "w \<in> set (snd (assign_loaded cfg name v)) \<Longrightarrow> warning_name w = Some name"
  by (auto simp: assign_loaded_snd warn_def dest: set_value_no_invalidate_warnings
      split: option.splits if_splits)

lemma choice_mode_warning_name:
  "w \<in> set (choice_mode_warning cfg name v) \<Longrightarrow> warning_name w = Some name"
  by (auto simp: choice_mode_warning_def warn_def split: option.splits if_splits)

lemma assign_loaded_valid:
  assumes "valid_for_type (stype (the_sym cfg name)) v"
  shows "user_value (the_sym (fst (assign_loaded cfg name v)) name) = Some v"
  using assms by (simp add: assign_loaded_fst set_value_no_invalidate_valid)

lemma assign_loaded_silent:
  assumes "valid_for_type (stype (the_sym cfg name)) v" and "user_value (the_sym cfg name) = None"
    and "nodes (the_sym cfg name) \<noteq> []"
  shows "snd (assign_loaded cfg name v) = []"
  using assms by (simp add: assign_loaded_snd set_value_no_invalidate_def Let_def)

text \<open>
  A line of the file either changes nothing, or assigns a value to the symbol of \<open>syms\<close>
  that the line is about; its warnings are about that symbol.
\<close>

lemma load_line_cases:
  "(\<exists>ws. load_line cfg raw = (cfg, ws)
       \<and> (\<forall>w\<in>set ws. warning_name w = None \<or> warning_name w = line_target (config_prefix cfg) raw))
   \<or> (\<exists>name v ws0. line_target (config_prefix cfg) raw = Some name \<and> syms cfg name \<noteq> None
         \<and> load_line cfg raw = (fst (assign_loaded cfg name v), ws0 @ snd (assign_loaded cfg name v))
         \<and> (\<forall>w\<in>set ws0. warning_name w = Some name))"
proof (cases "set_re_match (config_prefix cfg) (rstrip raw)")
  case None
  show ?thesis
  proof (cases "unset_re_match (config_prefix cfg) (rstrip raw)")
    case n: None
    then show ?thesis using None by (simp add: load_line_def)
  next
    case (Some name)
    have t: "line_target (config_prefix cfg) raw = Some name"
      using None Some by (simp add: line_target_def)
    show ?thesis
    proof (cases "syms cfg name = None")
      case True
      then have "load_line cfg raw = (cfg, warn_undef_assign cfg (Undef_assign_load ''n'' name))"
        using None Some by (simp add: load_line_def)
      then show ?thesis using t by (auto simp: warn_undef_assign_def)
    next
      case False
      have "load_line cfg raw = (fst (assign_loaded cfg name ''n''), [] @ snd (assign_loaded cfg name ''n''))"
        using None Some False by (auto simp: load_line_def)
      then show ?thesis using False t by (intro disjI2 exI[of _ name] exI[of _ "''n''"] exI[of _ "[]"]) simp
    qed
  qed
next
  case (Some m)
  obtain name val where m: "m = (name, val)" by (cases m)
  have t: "line_target (config_prefix cfg) raw = Some name"
    using Some m by (simp add: line_target_def)
  show ?thesis
  proof (cases "syms cfg name = None")
    case True
    then have "load_line cfg raw = (cfg, warn_undef_assign cfg (Undef_assign_load val name))"
      using Some m by (simp add: load_line_def)
    then show ?thesis using t by (auto simp: warn_undef_assign_def)
  next
    case False
    show ?thesis
    proof (cases "stype (the_sym cfg name) = STRING \<and> take 1 val = [dquote]")
      case q: True
      show ?thesis
      proof (cases "length val < 2 \<or> last val \<noteq> dquote")
        case True
        then have "load_line cfg raw = (cfg, warn cfg Malformed_string_literal)"
          using Some m False q by (auto simp: load_line_def)
        then show ?thesis by (auto simp: warn_def)
      next
        case ok: False
        let ?v = "unescape (butlast (tl val))"
        have "load_line cfg raw =
           (fst (assign_loaded cfg name ?v), choice_mode_warning cfg name ?v @ snd (assign_loaded cfg name ?v))"
          using Some m False q ok by (auto simp: load_line_def Let_def split: prod.splits)
        then show ?thesis
          using False t choice_mode_warning_name[of _ cfg name ?v]
          by (intro disjI2 exI[of _ name] exI[of _ ?v] exI[of _ "choice_mode_warning cfg name ?v"]) simp
      qed
    next
      case nq: False
      have "load_line cfg raw =
         (fst (assign_loaded cfg name val), choice_mode_warning cfg name val @ snd (assign_loaded cfg name val))"
        using Some m False nq by (auto simp: load_line_def Let_def split: prod.splits)
      then show ?thesis
        using False t choice_mode_warning_name[of _ cfg name val]
        by (intro disjI2 exI[of _ name] exI[of _ val] exI[of _ "choice_mode_warning cfg name val"]) simp
    qed
  qed
qed

lemma load_line_frame:
  assumes "load_line cfg raw = (cfg', ws)"
  shows "config_prefix cfg' = config_prefix cfg" and "print_warnings cfg' = print_warnings cfg"
    and "(syms cfg' n = None) = (syms cfg n = None)"
    and "stype (the_sym cfg' n) = stype (the_sym cfg n)"
    and "choice (the_sym cfg' n) = choice (the_sym cfg n)"
    and "nodes (the_sym cfg' n) = nodes (the_sym cfg n)"
  using load_line_cases[of cfg raw] assms
  by (auto simp: assign_loaded_fst set_value_no_invalidate_frame)

text \<open>A line that is not about the symbol \<open>n\<close> leaves it alone and does not warn about it.\<close>

lemma load_line_untargeted:
  assumes "load_line cfg raw = (cfg', ws)" and "line_target (config_prefix cfg) raw \<noteq> Some n"
  shows "the_sym cfg' n = the_sym cfg n" and "\<forall>w\<in>set ws. warning_name w \<noteq> Some n"
proof -
  from load_line_cases[of cfg raw]
  have "the_sym cfg' n = the_sym cfg n \<and> (\<forall>w\<in>set ws. warning_name w \<noteq> Some n)"
  proof (elim disjE exE conjE)
    fix ws'
    assume "load_line cfg raw = (cfg, ws')"
      and "\<forall>w\<in>set ws'. warning_name w = None \<or> warning_name w = line_target (config_prefix cfg) raw"
    then show ?thesis using assms by auto
  next
    fix name v ws0
    assume t: "line_target (config_prefix cfg) raw = Some name"
      and l: "load_line cfg raw = (fst (assign_loaded cfg name v), ws0 @ snd (assign_loaded cfg name v))"
      and w0: "\<forall>w\<in>set ws0. warning_name w = Some name"
    have ne: "n \<noteq> name" using t assms(2) by auto
    have "cfg' = fst (assign_loaded cfg name v)" "ws = ws0 @ snd (assign_loaded cfg name v)"
      using l assms(1) by simp_all
    then show ?thesis
      using ne w0 assign_loaded_warnings[of _ cfg name v]
      by (auto simp: assign_loaded_fst set_value_no_invalidate_other)
  qed
  then show "the_sym cfg' n = the_sym cfg n" and "\<forall>w\<in>set ws. warning_name w \<noteq> Some n"
    by simp_all
qed

lemma load_lines_append:
  "load_lines cfg (xs @ ys) =
     (let (cfg1, ws1) = load_lines cfg xs; (cfg2, ws2) = load_lines cfg1 ys in (cfg2, ws1 @ ws2))"
  by (induction xs arbitrary: cfg) (simp_all add: Let_def split: prod.splits)

lemma load_lines_frame:
  "load_lines cfg ls = (cfg', ws) \<Longrightarrow>
     config_prefix cfg' = config_prefix cfg \<and> print_warnings cfg' = print_warnings cfg
     \<and> (syms cfg' n = None) = (syms cfg n = None)
     \<and> stype (the_sym cfg' n) = stype (the_sym cfg n)
     \<and> choice (the_sym cfg' n) = choice (the_sym cfg n)
     \<and> nodes (the_sym cfg' n) = nodes (the_sym cfg n)"
proof (induction ls arbitrary: cfg ws)
  case Nil
  then show ?case by simp
next
  case (Cons l ls)
  obtain c1 w1 where 1: "load_line cfg l = (c1, w1)" by (cases "load_line cfg l")
  obtain c2 w2 where 2: "load_lines c1 ls = (c2, w2)" by (cases "load_lines c1 ls")
  have e: "c2 = cfg'" using Cons.prems 1 2 by simp
  show ?case using Cons.IH[OF 2[unfolded e]] load_line_frame[OF 1] by simp
qed

lemma load_lines_untargeted:
  "load_lines cfg ls = (cfg', ws) \<Longrightarrow>
   \<forall>l\<in>set ls. line_target (config_prefix cfg) l \<noteq> Some n \<Longrightarrow>
     the_sym cfg' n = the_sym cfg n \<and> (\<forall>w\<in>set ws. warning_name w \<noteq> Some n)"
proof (induction ls arbitrary: cfg ws)
  case Nil
  then show ?case by simp
next
  case (Cons l ls)
  obtain c1 w1 where 1: "load_line cfg l = (c1, w1)" by (cases "load_line cfg l")
  obtain c2 w2 where 2: "load_lines c1 ls = (c2, w2)" by (cases "load_lines c1 ls")
  have e: "c2 = cfg'" "ws = w1 @ w2" using Cons.prems(1) 1 2 by simp_all
  have t: "line_target (config_prefix cfg) l \<noteq> Some n" using Cons.prems(2) by simp
  have p: "config_prefix c1 = config_prefix cfg" using load_line_frame(1)[OF 1] .
  have "\<forall>l\<in>set ls. line_target (config_prefix c1) l \<noteq> Some n" using Cons.prems(2) p by simp
  then have "the_sym cfg' n = the_sym c1 n \<and> (\<forall>w\<in>set w2. warning_name w \<noteq> Some n)"
    using Cons.IH[OF 2[unfolded e(1)]] by simp
  then show ?case using load_line_untargeted[OF 1 t] e by auto
qed

lemma unset_values_frame:
  "config_prefix (unset_values cfg) = config_prefix cfg"
  "print_warnings (unset_values cfg) = print_warnings cfg"
  "(syms (unset_values cfg) n = None) = (syms cfg n = None)"
  "stype (the_sym (unset_values cfg) n) = stype (the_sym cfg n)"
  "choice (the_sym (unset_values cfg) n) = choice (the_sym cfg n)"
  "nodes (the_sym (unset_values cfg) n) = nodes (the_sym cfg n)"
  by (auto simp: unset_values_def the_sym_def split: option.splits)

lemma unset_values_user_value:
  "n \<in> set (defined_syms cfg) \<Longrightarrow> user_value (the_sym (unset_values cfg) n) = None"
  by (auto simp: unset_values_def the_sym_def Symbol_init_def split: option.splits)

subsection \<open>Loading the line written for a symbol\<close>

lemma load_line_assignment:
  assumes "rstrip L = L" and "set_re_match (config_prefix c) L = Some (name, val)"
    and "syms c name \<noteq> None" and "\<not> (stype (the_sym c name) = STRING \<and> take 1 val = [dquote])"
  shows "load_line c L = (fst (assign_loaded c name val),
           choice_mode_warning c name val @ snd (assign_loaded c name val))"
  using assms by (auto simp: load_line_def Let_def split: prod.splits)

lemma load_line_string:
  assumes "rstrip L = L" and "set_re_match (config_prefix c) L = Some (name, dquote # e @ [dquote])"
    and "syms c name \<noteq> None" and "stype (the_sym c name) = STRING"
  shows "load_line c L = (fst (assign_loaded c name (unescape e)),
           choice_mode_warning c name (unescape e) @ snd (assign_loaded c name (unescape e)))"
  using assms by (auto simp: load_line_def Let_def split: prod.splits)

lemma load_line_unset:
  assumes "rstrip L = L" and "set_re_match (config_prefix c) L = None"
    and "unset_re_match (config_prefix c) L = Some name" and "syms c name \<noteq> None"
  shows "load_line c L = (fst (assign_loaded c name ''n''), [] @ snd (assign_loaded c name ''n''))"
  using assms by (auto simp: load_line_def Let_def split: prod.splits)

lemma rstrip_assignment:
  assumes "v = [] \<or> rstrip v = v"
  shows "rstrip (pfx @ name @ ''='' @ v) = pfx @ name @ ''='' @ v"
proof (cases "v = []")
  case True
  then show ?thesis using rstrip_snoc[of "CHR ''=''" "pfx @ name"] by simp
next
  case False
  then show ?thesis using assms rstrip_append[of v "pfx @ name @ ''=''"] by simp
qed

lemma written_flag_type:
  assumes "value_and_flag d cfg name = Some (v, True)"
  shows "stype (the_sym cfg name) \<noteq> UNKNOWN"
proof (cases d)
  case 0
  then show ?thesis using assms by simp
next
  case (Suc d')
  then show ?thesis using assms by (auto simp: calc_value_def Let_def)
qed

lemma load_written_line:
  assumes val: "value_and_flag d cfg name = Some (v, True)"
    and noenv: "env_var (the_sym cfg name) = None"
    and fits: "value_fits_line (stype (the_sym cfg name)) v"
    and pfx: "list_all is_word (config_prefix cfg)"
    and nm: "name \<noteq> []" "list_all is_word name"
    and frame: "config_prefix c = config_prefix cfg" "stype (the_sym c name) = stype (the_sym cfg name)"
      "syms c name \<noteq> None"
  shows "\<exists>L ws0. config_string d cfg name = Some (Some (L @ [newline])) \<and> single_line L
           \<and> load_line c L = (fst (assign_loaded c name v), ws0 @ snd (assign_loaded c name v))
           \<and> (choice (the_sym c name) = None \<longrightarrow> ws0 = [])"
proof -
  let ?p = "config_prefix cfg"
  let ?t = "stype (the_sym cfg name)"
  have sp: "single_line ?p" and sn: "single_line name"
    using pfx nm(2) by (simp_all add: single_line_word)
  have sv: "Symbol_value d cfg name = Some v" using val by (simp add: Symbol_value_def)
  consider (tri) "?t = BOOL \<or> ?t = TRISTATE" | (num) "?t = INT_T \<or> ?t = HEX" | (str) "?t = STRING"
    using written_flag_type[OF val] by (cases ?t) auto
  then show ?thesis
  proof cases
    case tri
    then have t: "is_tri v" using tri_vals_Symbol_value[of d cfg] sv by (auto simp: tri_vals_def)
    show ?thesis
    proof (cases "v = ''n''")
      case True
      let ?L = "''# '' @ ?p @ name @ '' is not set''"
      have cs: "config_string d cfg name = Some (Some (?L @ [newline]))"
        using val noenv tri True by (auto simp: config_string_def Let_def)
      have r: "rstrip ?L = ?L"
        using rstrip_snoc[of "CHR ''t''" "''# '' @ ?p @ name @ '' is not se''"] by simp
      have "load_line c ?L = (fst (assign_loaded c name ''n''), [] @ snd (assign_loaded c name ''n''))"
        using r set_re_match_unset_line[OF pfx, of name] unset_re_match_line[OF nm(2,1), of ?p] frame
        by (intro load_line_unset) simp_all
      then have ll: "load_line c ?L = (fst (assign_loaded c name v), [] @ snd (assign_loaded c name v))"
        unfolding True .
      have sl: "single_line ?L" using sp sn by simp
      show ?thesis
        by (rule exI[of _ ?L], rule exI[of _ "[]"], intro conjI) (rule cs, rule sl, rule ll, simp add: choice_mode_warning_def)
    next
      case False
      let ?L = "?p @ name @ ''='' @ v"
      have cs: "config_string d cfg name = Some (Some (?L @ [newline]))"
        using val noenv tri False by (auto simp: config_string_def Let_def)
      have v: "single_line v" "rstrip v = v" using t by (auto simp: is_tri_def rstrip_def is_space_def)
      have r: "rstrip ?L = ?L" using v(2) by (intro rstrip_assignment) simp
      have "load_line c ?L = (fst (assign_loaded c name v),
              choice_mode_warning c name v @ snd (assign_loaded c name v))"
        using r set_re_match_line[OF nm(2,1) v(1), of ?p] frame tri
        by (intro load_line_assignment) auto
      then have ll: "load_line c ?L = (fst (assign_loaded c name v),
              choice_mode_warning c name v @ snd (assign_loaded c name v))" .
      have sl: "single_line ?L" using sp sn v(1) by simp
      show ?thesis
        by (rule exI[of _ ?L], rule exI[of _ "choice_mode_warning c name v"], intro conjI)
          (rule cs, rule sl, rule ll, simp add: choice_mode_warning_def)
    qed
  next
    case num
    let ?L = "?p @ name @ ''='' @ v"
    have cs: "config_string d cfg name = Some (Some (?L @ [newline]))"
      using val noenv num by (auto simp: config_string_def Let_def)
    have v: "single_line v" "rstrip v = v" using fits num by (auto simp: value_fits_line_def)
    have r: "rstrip ?L = ?L" using v(2) by (intro rstrip_assignment) simp
    have "load_line c ?L = (fst (assign_loaded c name v),
            choice_mode_warning c name v @ snd (assign_loaded c name v))"
      using r set_re_match_line[OF nm(2,1) v(1), of ?p] frame num
      by (intro load_line_assignment) auto
    then have ll: "load_line c ?L = (fst (assign_loaded c name v),
            choice_mode_warning c name v @ snd (assign_loaded c name v))" .
    have sl: "single_line ?L" using sp sn v(1) by simp
    show ?thesis
      by (rule exI[of _ ?L], rule exI[of _ "choice_mode_warning c name v"], intro conjI)
        (rule cs, rule sl, rule ll, simp add: choice_mode_warning_def)
  next
    case str
    let ?L = "?p @ name @ ''='' @ dquote # escape v @ [dquote]"
    have cs: "config_string d cfg name = Some (Some (?L @ [newline]))"
      using val noenv str by (auto simp: config_string_def Let_def)
    have v: "single_line (escape v)" using fits str by (simp add: value_fits_line_def single_line_escape)
    have r: "rstrip ?L = ?L"
      using rstrip_snoc[of dquote "?p @ name @ ''='' @ dquote # escape v"] by simp
    have m: "set_re_match ?p ?L = Some (name, dquote # escape v @ [dquote])"
      using v by (intro set_re_match_line[OF nm(2,1)]) simp
    have "load_line c ?L = (fst (assign_loaded c name (unescape (escape v))),
            choice_mode_warning c name (unescape (escape v)) @ snd (assign_loaded c name (unescape (escape v))))"
      using r m frame str by (intro load_line_string) auto
    then have ll: "load_line c ?L = (fst (assign_loaded c name v),
            choice_mode_warning c name v @ snd (assign_loaded c name v))"
      unfolding unescape_escape .
    have sl: "single_line ?L" using sp sn v by simp
    show ?thesis
      by (rule exI[of _ ?L], rule exI[of _ "choice_mode_warning c name v"], intro conjI)
        (rule cs, rule sl, rule ll, simp add: choice_mode_warning_def)
  qed
qed

lemma bool_value_not_m:
  assumes "value_and_flag d cfg name = Some (v, w)" and "stype (the_sym cfg name) = BOOL"
  shows "v \<noteq> ''m''"
proof (cases d)
  case 0
  then show ?thesis using assms by simp
next
  case (Suc d')
  let ?vals = "\<lambda>s. map_option fst (value_and_flag d' cfg s)"
  from assms Suc obtain val where p: "promote ?vals cfg name val = Some v"
    by (auto simp: calc_value_def Let_def bind_eq_Some_conv)
  have "type_bool_or_weak_y ?vals cfg name = Some True"
    using assms(2) by (simp add: type_bool_or_weak_y_def Symbol_type_def)
  then show ?thesis using p by (auto simp: promote_def split: if_splits)
qed

lemma written_value_valid:
  assumes val: "value_and_flag d cfg name = Some (v, True)"
    and fits: "value_fits_line (stype (the_sym cfg name)) v"
  shows "valid_for_type (stype (the_sym cfg name)) v"
proof -
  have sv: "Symbol_value d cfg name = Some v" using val by (simp add: Symbol_value_def)
  have t: "is_tri v" if "stype (the_sym cfg name) = BOOL \<or> stype (the_sym cfg name) = TRISTATE"
    using tri_vals_Symbol_value[of d cfg] sv that by (auto simp: tri_vals_def)
  show ?thesis
  proof (cases "stype (the_sym cfg name)")
    case BOOL
    then show ?thesis using t bool_value_not_m[OF val] by (auto simp: valid_for_type_def is_tri_def)
  next
    case TRISTATE
    then show ?thesis using t by (auto simp: valid_for_type_def is_tri_def)
  next
    case UNKNOWN
    then show ?thesis using written_flag_type[OF val] by simp
  qed (use fits in \<open>auto simp: valid_for_type_def value_fits_line_def TYPE_TO_BASE_def\<close>)
qed

subsection \<open>Visible symbols are written\<close>

lemma num_defaults_flag:
  "num_defaults vals cfg t rng (val, True) ds = Some (v, w) \<Longrightarrow> w"
  by (induction ds arbitrary: val)
    (auto simp: bind_eq_Some_conv split: option.splits if_splits prod.splits)

lemma str_defaults_flag:
  "str_defaults vals cfg (val, True) ds = Some (v, w) \<Longrightarrow> w"
  by (induction ds) (auto simp: bind_eq_Some_conv split: if_splits)

lemma value_default_imply_flag:
  "value_default_imply vals cfg self vis = Some (v, w) \<Longrightarrow> vis \<noteq> ''n'' \<Longrightarrow> w"
  unfolding value_default_imply_def
  by (auto simp: bind_eq_Some_conv split: if_splits option.splits)

lemma value_plain_flag:
  "value_plain vals cfg self vis = Some (v, w) \<Longrightarrow> vis \<noteq> ''n'' \<Longrightarrow> w"
  unfolding value_plain_def
  by (auto simp: bind_eq_Some_conv dest: value_default_imply_flag split: if_splits option.splits)

lemma value_num_flag:
  assumes "value_num vals cfg self vis = Some (v, w)" and "vis \<noteq> ''n''"
  shows "w"
proof -
  from assms obtain rng where
    r: "(case user_value self of
           Some uv \<Rightarrow>
             (case py_int uv (TYPE_TO_BASE (stype self)) of
                Some k \<Rightarrow>
                  if (case rng of None \<Rightarrow> True | Some (low, high) \<Rightarrow> low \<le> k \<and> k \<le> high)
                  then Some (uv, vis \<noteq> ''n'')
                  else num_defaults vals cfg (stype self) rng ([], vis \<noteq> ''n'') (defaults self)
              | None \<Rightarrow> num_defaults vals cfg (stype self) rng ([], vis \<noteq> ''n'') (defaults self))
         | None \<Rightarrow> num_defaults vals cfg (stype self) rng ([], vis \<noteq> ''n'') (defaults self)) = Some (v, w)"
    unfolding value_num_def by (auto simp: bind_eq_Some_conv)
  note n = assms(2)
  show ?thesis
  proof (cases "user_value self")
    case None
    then show ?thesis using r n by (auto dest: num_defaults_flag)
  next
    case (Some uv)
    show ?thesis
    proof (cases "py_int uv (TYPE_TO_BASE (stype self))")
      case None
      then show ?thesis using r n Some by (auto dest: num_defaults_flag)
    next
      case k: (Some k)
      show ?thesis
      proof (cases "case rng of None \<Rightarrow> True | Some (low, high) \<Rightarrow> low \<le> k \<and> k \<le> high")
        case True
        then show ?thesis using r n Some k by simp
      next
        case False
        then show ?thesis using r n Some k by (auto dest: num_defaults_flag)
      qed
    qed
  qed
qed

lemma value_str_flag:
  "value_str vals cfg self vis = Some (v, w) \<Longrightarrow> vis \<noteq> ''n'' \<Longrightarrow> w"
  unfolding value_str_def
  by (auto dest: str_defaults_flag split: if_splits option.splits)

text \<open>
  A visible symbol of known type outside of choices has \<^verbatim>\<open>_write_to_conf\<close> set: a line is
  written for it unless it has \<^verbatim>\<open>option env\<close>.
\<close>

lemma visible_symbol_is_written:
  assumes "value_and_flag (Suc d) cfg name = Some (v, w)"
    and "visibility d cfg name = Some vis" and "vis \<noteq> ''n''"
    and "choice (the_sym cfg name) = None" and "stype (the_sym cfg name) \<noteq> UNKNOWN"
  shows "w"
proof -
  have "Symbol_value d cfg = (\<lambda>s. map_option fst (value_and_flag d cfg s))"
    by (rule ext) (simp add: Symbol_value_def)
  then have c: "calc_value (Symbol_value d cfg) cfg name = Some (v, w)"
    using assms(1) by simp
  have vis: "Symbol_visibility (Symbol_value d cfg) cfg name = Some vis"
    using assms(2) by (simp add: visibility_def)
  show ?thesis
    using c vis assms(3,4,5) unfolding calc_value_def Let_def
    by (auto simp: bind_eq_Some_conv dest: value_plain_flag value_num_flag value_str_flag
        split: if_splits)
qed

lemma inert_append:
  assumes "a = [] \<or> last a = newline" and "inert pfx name a" and "inert pfx name b"
  shows "inert pfx name (a @ b)"
proof (cases "a = []")
  case True
  then show ?thesis using assms(3) by simp
next
  case False
  then have "file_lines [] (a @ b) = file_lines [] a @ file_lines [] b"
    using assms(1) by (intro file_lines_append) auto
  then show ?thesis using assms(2,3) by (simp add: inert_def)
qed

text \<open>
  Claim C1, as the code has it. \<^verbatim>\<open>write_config\<close> writes the value of a symbol, not its user
  value, and \<^verbatim>\<open>load_config\<close> makes what it reads the user value. Let the prefix consist of
  word characters and the header be empty or end with a newline, and let no line of the
  header, of a title block and of the entry of another symbol read as an assignment to
  the symbol \<open>name\<close>. If \<open>name\<close> is a symbol of the symbol table with a node in the menu
  tree, a name of word characters, no \<^verbatim>\<open>option env\<close> and a value that is written
  (\<^verbatim>\<open>_write_to_conf\<close>) and fits on its line, then after the file written is loaded back with
  \<^verbatim>\<open>replace=True\<close> the user value of the symbol is the value it had before the write,
  whatever warnings the load prints about other lines; and the load prints no warning
  about the symbol when it is defined, not a member of a choice and has a menu node.
\<close>

theorem round_trip_user_value_is_value_written:
  assumes rt: "round_trip d cfg header = Some (cfg', ws)"
    and pfx: "list_all is_word (config_prefix cfg)"
    and hdr: "header = [] \<or> last header = newline"
    and hdr_inert: "inert (config_prefix cfg) name header"
    and titles: "\<forall>title\<in>set (tree_titles (top_list cfg)).
        inert (config_prefix cfg) name (title_block title)"
    and others: "\<forall>s\<in>set (tree_syms (top_list cfg)). s \<noteq> name \<longrightarrow>
        (case config_string d cfg s of Some (Some l) \<Rightarrow> inert (config_prefix cfg) name l | _ \<Rightarrow> True)"
    and intree: "name \<in> set (tree_syms (top_list cfg))"
    and defined: "syms cfg name \<noteq> None"
    and nm: "name \<noteq> []" "list_all is_word name"
    and noenv: "env_var (the_sym cfg name) = None"
    and val: "value_and_flag d cfg name = Some (v, True)"
    and fits: "value_fits_line (stype (the_sym cfg name)) v"
  shows "user_value (the_sym cfg' name) = Some v
       \<and> (name \<in> set (defined_syms cfg) \<and> choice (the_sym cfg name) = None
            \<and> nodes (the_sym cfg name) \<noteq> [] \<longrightarrow> (\<forall>w\<in>set ws. warning_name w \<noteq> Some name))"
proof -
  let ?c0 = "unset_values cfg"
  let ?p = "config_prefix cfg"
  from rt obtain strings where gs: "get_config_strings d cfg = Some strings"
    and ld: "load_lines ?c0 (file_lines [] (header @ concat strings)) = (cfg', ws)"
    by (auto simp: round_trip_def write_config_def load_config_def)
  from gs obtain W' where wk: "walk_nodes d cfg [] (top_list cfg) = Some (strings, W')"
    by (auto simp: get_config_strings_def)
  have f0: "config_prefix ?c0 = ?p" "syms ?c0 name \<noteq> None"
    "stype (the_sym ?c0 name) = stype (the_sym cfg name)"
    using defined by (simp_all add: unset_values_frame)
  obtain l0 where cs0: "config_string d cfg name = Some (Some l0)"
    using load_written_line[OF val noenv fits pfx nm f0(1,3,2)] by blast
  have oth: "\<forall>s l. s \<in> set (tree_syms (top_list cfg)) \<longrightarrow> s \<noteq> name \<longrightarrow>
      config_string d cfg s = Some (Some l) \<longrightarrow> inert ?p name l"
  proof (intro allI impI)
    fix s l
    assume "s \<in> set (tree_syms (top_list cfg))" "s \<noteq> name" "config_string d cfg s = Some (Some l)"
    then show "inert ?p name l" using others by force
  qed
  from walk_nodes_lines[OF wk oth titles, of ] intree cs0 obtain before after where
    s: "strings = before @ [l0] @ after"
    and ib: "\<forall>x\<in>set before \<union> set after. inert ?p name x"
    by auto
  have nl: "x \<noteq> [] \<and> last x = newline" if "x \<in> set strings" for x
    using walk_nodes_newline[OF wk that] .
  have nlb: "x \<noteq> [] \<and> last x = newline" if "x \<in> set before" for x using nl[of x] that s by simp
  have nla: "x \<noteq> [] \<and> last x = newline" if "x \<in> set after" for x using nl[of x] that s by simp
  have icb: "inert ?p name (concat before)" using ib by (intro inert_concat nlb) auto
  have ica: "inert ?p name (concat after)" using ib by (intro inert_concat nla) auto
  have cb: "concat before = [] \<or> last (concat before) = newline"
  proof (cases before rule: rev_cases)
    case Nil
    then show ?thesis by simp
  next
    case (snoc ys y)
    then show ?thesis using nlb[of y] by simp
  qed
  define A where "A = header @ concat before"
  have A: "A = [] \<or> last A = newline"
  proof (cases "concat before = []")
    case True
    then show ?thesis using hdr by (simp add: A_def)
  next
    case False
    then have "last (concat before) = newline" using cb by blast
    then have "last A = newline" using last_appendR[OF False, of header] unfolding A_def by (simp only:)
    then show ?thesis ..
  qed
  have iA: "inert ?p name A" unfolding A_def using hdr hdr_inert icb by (rule inert_append)
  define pre where "pre = (if A = [] then [] else file_lines [] A)"
  define post where "post = file_lines [] (concat after)"
  have ipre: "\<forall>l\<in>set pre. line_target ?p l \<noteq> Some name"
    using iA by (auto simp: pre_def inert_def list_all_iff)
  have ipost: "\<forall>l\<in>set post. line_target ?p l \<noteq> Some name"
    using ica by (auto simp: post_def inert_def list_all_iff)
  obtain c1 w1 where 1: "load_lines ?c0 pre = (c1, w1)" by (cases "load_lines ?c0 pre")
  have f1: "config_prefix c1 = ?p" "syms c1 name \<noteq> None"
    "stype (the_sym c1 name) = stype (the_sym cfg name)"
    "choice (the_sym c1 name) = choice (the_sym cfg name)"
    "nodes (the_sym c1 name) = nodes (the_sym cfg name)"
    using load_lines_frame[OF 1, of name] defined by (simp_all add: unset_values_frame)
  have u1: "the_sym c1 name = the_sym ?c0 name" "\<forall>w\<in>set w1. warning_name w \<noteq> Some name"
    using load_lines_untargeted[OF 1, of name] ipre f0(1) by simp_all
  from load_written_line[OF val noenv fits pfx nm f1(1,3,2)] obtain L ws0 where
    cs: "config_string d cfg name = Some (Some (L @ [newline]))" and sl: "single_line L"
    and ll: "load_line c1 L = (fst (assign_loaded c1 name v), ws0 @ snd (assign_loaded c1 name v))"
    and w0: "choice (the_sym c1 name) = None \<longrightarrow> ws0 = []"
    by (elim exE conjE) auto
  have l: "l0 = L @ [newline]" using cs cs0 by simp
  have tx: "header @ concat strings = A @ L @ newline # concat after"
    by (simp add: s l A_def)
  have lines: "file_lines [] (header @ concat strings) = pre @ L # post"
  proof (cases "A = []")
    case True
    then show ?thesis
      using file_lines_single[OF sl, of "[]" "concat after"] by (simp add: tx pre_def post_def)
  next
    case False
    then have "last A = newline" using A by simp
    then show ?thesis
      using file_lines_append[OF _ False, of "[]" "L @ newline # concat after"]
        file_lines_single[OF sl, of "[]" "concat after"] False
      by (simp add: tx pre_def post_def)
  qed
  let ?c2 = "fst (assign_loaded c1 name v)"
  obtain c3 w3 where 3: "load_lines ?c2 post = (c3, w3)" by (cases "load_lines ?c2 post")
  have "load_lines ?c0 (pre @ L # post) = (c3, w1 @ (ws0 @ snd (assign_loaded c1 name v)) @ w3)"
    using 1 ll 3 by (simp add: load_lines_append)
  then have e: "c3 = cfg'" "ws = w1 @ (ws0 @ snd (assign_loaded c1 name v)) @ w3"
    using ld lines by simp_all
  have p2: "config_prefix ?c2 = ?p"
    using f1(1) by (simp add: assign_loaded_fst set_value_no_invalidate_frame)
  have u3: "the_sym c3 name = the_sym ?c2 name" "\<forall>w\<in>set w3. warning_name w \<noteq> Some name"
    using load_lines_untargeted[OF 3, of name] ipost p2 by simp_all
  have valid: "valid_for_type (stype (the_sym c1 name)) v"
    using written_value_valid[OF val fits] f1(3) by simp
  have uv: "user_value (the_sym cfg' name) = Some v"
    using assign_loaded_valid[OF valid] u3(1) e(1) by simp
  have quiet: "\<forall>w\<in>set ws. warning_name w \<noteq> Some name"
    if dn: "name \<in> set (defined_syms cfg)" and ch: "choice (the_sym cfg name) = None"
      and nd: "nodes (the_sym cfg name) \<noteq> []"
  proof -
    have "user_value (the_sym c1 name) = None"
      using u1(1) unset_values_user_value[OF dn] by simp
    then have "snd (assign_loaded c1 name v) = []"
      using assign_loaded_silent[OF valid] nd f1(5) by simp
    moreover have "ws0 = []" using w0 ch f1(4) by simp
    ultimately show ?thesis using e(2) u1(2) u3(2) by auto
  qed
  show ?thesis using uv quiet by blast
qed

lemma write_config_cfg_select:
  "write_config 2 cfg_select default_header = Some cfg_select_file"
  by (simp add: write_config_def get_config_strings_def node_strings_def config_string_def
      numeral_2_eq_2 engine_defs str_defaults.simps cfg_select_def cfg_select_file_def Let_def
      escape_def replace_char_def)

lemma load_config_cfg_select:
  "snd (load_config cfg_select cfg_select_file True) = []"
  "user_value (the_sym (fst (load_config cfg_select cfg_select_file True)) ''S'') = Some ''text''"
  "user_value (the_sym (fst (load_config cfg_select cfg_select_file True)) ''A'') = Some ''y''"
  by (simp_all add: load_config_def unset_values_def cfg_select_file_def default_header_def
      io_defs cfg_select_def the_sym_def the_choice_def Config_init_def Symbol_init_def Let_def
      replace_pair.simps)

lemma round_trip_cfg_select:
  "round_trip 2 cfg_select default_header = Some (load_config cfg_select cfg_select_file True)"
  by (simp add: round_trip_def write_config_cfg_select)

lemma cfg_select_S_facts:
  "list_all is_word (config_prefix cfg_select)"
  "last default_header = newline"
  "''S'' \<in> set (tree_syms (top_list cfg_select))" "syms cfg_select ''S'' \<noteq> None"
  "list_all is_word ''S''" "env_var (the_sym cfg_select ''S'') = None"
  "value_and_flag 2 cfg_select ''S'' = Some (''text'', True)"
  "value_fits_line (stype (the_sym cfg_select ''S'')) ''text''"
  "user_value (the_sym cfg_select ''S'') = None"
  "''S'' \<in> set (defined_syms cfg_select)" "choice (the_sym cfg_select ''S'') = None"
  "nodes (the_sym cfg_select ''S'') \<noteq> []"
  by (simp_all add: cfg_select_def Config_init_def Symbol_init_def the_sym_def default_header_def
      is_word_def is_alpha_def is_digit_def numeral_2_eq_2 engine_defs str_defaults.simps
      value_fits_line_def single_line_def)

lemma cfg_select_S_inert:
  "inert (config_prefix cfg_select) ''S'' default_header"
  "\<forall>title\<in>set (tree_titles (top_list cfg_select)).
     inert (config_prefix cfg_select) ''S'' (title_block title)"
  "\<forall>s\<in>set (tree_syms (top_list cfg_select)). s \<noteq> ''S'' \<longrightarrow>
     (case config_string 2 cfg_select s of
        Some (Some l) \<Rightarrow> inert (config_prefix cfg_select) ''S'' l | _ \<Rightarrow> True)"
  by (simp_all add: inert_def line_target_def default_header_def config_string_def
      set_re_match_def unset_re_match_def rstrip_def is_space_def is_word_def is_alpha_def
      is_digit_def numeral_2_eq_2 engine_defs cfg_select_def Let_def)

theorem round_trip_user_value_is_value_written_witness:
  "round_trip 2 cfg_select default_header = Some (load_config cfg_select cfg_select_file True)
   \<and> value_and_flag 2 cfg_select ''S'' = Some (''text'', True)
   \<and> user_value (the_sym cfg_select ''S'') = None
   \<and> user_value (the_sym (fst (load_config cfg_select cfg_select_file True)) ''S'') = Some ''text''
   \<and> list_all (\<lambda>w. warning_name w \<noteq> Some ''S'') (snd (load_config cfg_select cfg_select_file True))"
  using round_trip_user_value_is_value_written[of 2 cfg_select default_header
      "fst (load_config cfg_select cfg_select_file True)"
      "snd (load_config cfg_select cfg_select_file True)" "''S''" "''text''"]
    round_trip_cfg_select cfg_select_S_facts cfg_select_S_inert
  by (simp add: list_all_iff)

text \<open>
  The claim as stated has the user value after the round trip equal the user value before
  it. In \<open>cfg_select\<close> the visible bool symbol A has no user value and the value "y" of its
  default; the file written holds \<^verbatim>\<open>CONFIG_A=y\<close>, it is loaded back without warning, and
  the user value of A is "y" afterwards.
\<close>

theorem round_trip_counterexample:
  "syms cfg_select ''A'' \<noteq> None \<and> stype (the_sym cfg_select ''A'') = BOOL
   \<and> visibility 2 cfg_select ''A'' = Some ''y''
   \<and> user_value (the_sym cfg_select ''A'') = None
   \<and> Symbol_value 2 cfg_select ''A'' = Some ''y''
   \<and> round_trip 2 cfg_select default_header = Some (load_config cfg_select cfg_select_file True)
   \<and> snd (load_config cfg_select cfg_select_file True) = []
   \<and> user_value (the_sym (fst (load_config cfg_select cfg_select_file True)) ''A'') = Some ''y''"
proof -
  have "syms cfg_select ''A'' \<noteq> None" "stype (the_sym cfg_select ''A'') = BOOL"
    "visibility 2 cfg_select ''A'' = Some ''y''" "user_value (the_sym cfg_select ''A'') = None"
    "Symbol_value 2 cfg_select ''A'' = Some ''y''"
    by (simp_all add: numeral_2_eq_2 engine_defs cfg_select_def)
  then show ?thesis
    using round_trip_cfg_select load_config_cfg_select(1,3) by simp
qed

text \<open>
  A value that does not fit: the visible int symbol N of \<open>cfg_int\<close> has no default and the
  value \<^verbatim>\<open>""\<close>; the line \<^verbatim>\<open>CONFIG_N=\<close> is written, and the load refuses it with the warning
  that the value is invalid for the type, leaving N without user value.
\<close>

lemma round_trip_int_without_default:
  "value_and_flag 2 cfg_int ''N'' = Some ([], True)
   \<and> write_config 2 cfg_int [] = Some (''CONFIG_N='' @ [newline])
   \<and> round_trip 2 cfg_int [] = Some (cfg_int, [Invalid_value [] ''N'' INT_T])
   \<and> \<not> value_fits_line INT_T []"
  by (simp add: round_trip_def write_config_def get_config_strings_def node_strings_def
      config_string_def numeral_2_eq_2 engine_defs num_defaults.simps active_range.simps
      cfg_int_def Let_def load_config_def unset_values_def io_defs value_fits_line_def
      is_base_n_def py_int_def int_strip_def py_digits_def TYPE_TO_BASE_def fun_eq_iff)

end
